theory Spec2Isabelle
  imports Complex_Main "HOL-Library.Multiset"
begin

section \<open>JavaScript strings\<close>

text \<open>
  A JavaScript string is modelled as a \<open>string\<close> (a list of characters).  The helpers
  below are the \<open>String.prototype\<close> methods the program calls.
\<close>

definition startsWith :: "string \<Rightarrow> string \<Rightarrow> bool" where
  "startsWith s p = (take (length p) s = p)"

definition endsWith :: "string \<Rightarrow> string \<Rightarrow> bool" where
  "endsWith s p = (length p \<le> length s \<and> drop (length s - length p) s = p)"

fun includesStr :: "string \<Rightarrow> string \<Rightarrow> bool" where
  "includesStr [] p = (p = [])"
| "includesStr (c # cs) p = (startsWith (c # cs) p \<or> includesStr cs p)"

text \<open>\<open>s.split(sep)\<close> for a one-character separator: never empty, \<open>''.split(sep) = ['']\<close>.\<close>

fun splitOn :: "char \<Rightarrow> string \<Rightarrow> string list" where
  "splitOn sep [] = [[]]"
| "splitOn sep (c # cs) =
     (if c = sep then [] # splitOn sep cs
      else (case splitOn sep cs of
              [] \<Rightarrow> [[c]]
            | l # ls \<Rightarrow> (c # l) # ls))"

text \<open>\<open>xs.join(sep)\<close> for a one-character separator.\<close>

fun joinWith :: "char \<Rightarrow> string list \<Rightarrow> string" where
  "joinWith sep [] = []"
| "joinWith sep [l] = l"
| "joinWith sep (l # m # ls) = l @ sep # joinWith sep (m # ls)"

text \<open>\<open>xs.join(sep)\<close> for any separator.\<close>

fun joinText :: "string \<Rightarrow> string list \<Rightarrow> string" where
  "joinText sep [] = []"
| "joinText sep [l] = l"
| "joinText sep (l # m # ls) = l @ sep @ joinText sep (m # ls)"

definition digitChar :: "nat \<Rightarrow> char" where
  "digitChar d = ''0123456789'' ! (d mod 10)"

text \<open>\<open>String(n)\<close> for a non-negative integer.\<close>

function stringOfNat :: "nat \<Rightarrow> string" where
  "stringOfNat n = (if n < 10 then [digitChar n] else stringOfNat (n div 10) @ [digitChar n])"
  by pat_completeness auto
termination
  by (relation "measure id") auto

declare stringOfNat.simps [simp del]

definition stringOfInt :: "int \<Rightarrow> string" where
  "stringOfInt i = (if i < 0 then CHR ''-'' # stringOfNat (nat (- i)) else stringOfNat (nat i))"

text \<open>\<open>s.padStart(2, '0')\<close>.\<close>

definition padStart2 :: "string \<Rightarrow> string" where
  "padStart2 s = (if length s = 0 then ''00'' else if length s = 1 then CHR ''0'' # s else s)"

section \<open>Dates (dateUtils.js)\<close>

text \<open>
  A \<open>Date\<close> is an instant, read through local-time accessors.  Under a fixed offset of
  local time from UTC an instant is given by its local calendar day, counted in days
  from 1970-01-01, and the milliseconds elapsed within that local day; instants compare
  lexicographically on the two.  Invalid dates are rejected by the callers before any
  function below runs.
\<close>

record jsdate =
  dayNo :: int
  msOfDay :: nat

definition dateLe :: "jsdate \<Rightarrow> jsdate \<Rightarrow> bool" where
  "dateLe a b = (dayNo a < dayNo b \<or> (dayNo a = dayNo b \<and> msOfDay a \<le> msOfDay b))"

text \<open>
  The proleptic Gregorian calendar: the year, month (1..12) and day of a day number, and
  back.  Years are counted from March in eras of 400 years: \<open>doe\<close> is the day of the
  era, \<open>yoe\<close> the year of the era, \<open>doy\<close> the day of the year and \<open>mp\<close> the month,
  both from March.
\<close>

definition civilOfDayOfYear :: "int \<Rightarrow> int \<Rightarrow> int \<Rightarrow> int \<times> nat \<times> nat" where
  "civilOfDayOfYear yearFromMarch doy mp =
     (if mp < 10 then (yearFromMarch, nat (mp + 3), nat (doy - (153 * mp + 2) div 5 + 1))
      else (yearFromMarch + 1, nat (mp - 9), nat (doy - (153 * mp + 2) div 5 + 1)))"

definition civilOfYearOfEra :: "int \<Rightarrow> int \<Rightarrow> int \<Rightarrow> int \<times> nat \<times> nat" where
  "civilOfYearOfEra era doe yoe =
     civilOfDayOfYear (yoe + era * 400)
       (doe - (365 * yoe + yoe div 4 - yoe div 100))
       ((5 * (doe - (365 * yoe + yoe div 4 - yoe div 100)) + 2) div 153)"

definition civilOfEra :: "int \<Rightarrow> int \<Rightarrow> int \<times> nat \<times> nat" where
  "civilOfEra era doe =
     civilOfYearOfEra era doe ((doe - doe div 1460 + doe div 36524 - doe div 146096) div 365)"

definition civilFromDays :: "int \<Rightarrow> int \<times> nat \<times> nat" where
  "civilFromDays z = civilOfEra ((z + 719468) div 146097) ((z + 719468) mod 146097)"

definition daysOfEra :: "int \<Rightarrow> int \<Rightarrow> int \<Rightarrow> int" where
  "daysOfEra era yoe doy = era * 146097 + (yoe * 365 + yoe div 4 - yoe div 100 + doy) - 719468"

definition daysFromMarchYear :: "int \<Rightarrow> int \<Rightarrow> int \<Rightarrow> int" where
  "daysFromMarchYear y mp d = daysOfEra (y div 400) (y mod 400) ((153 * mp + 2) div 5 + d - 1)"

definition daysFromCivil :: "int \<Rightarrow> nat \<Rightarrow> nat \<Rightarrow> int" where
  "daysFromCivil y m d =
     (if m \<le> 2 then daysFromMarchYear (y - 1) (int m + 9) (int d)
      else daysFromMarchYear y (int m - 3) (int d))"

definition getFullYear :: "jsdate \<Rightarrow> int" where
  "getFullYear d = fst (civilFromDays (dayNo d))"

text \<open>\<open>getMonth\<close> is zero-based, \<open>getDate\<close> is the day of the month.\<close>

definition getMonth :: "jsdate \<Rightarrow> nat" where
  "getMonth d = fst (snd (civilFromDays (dayNo d))) - 1"

definition getDate :: "jsdate \<Rightarrow> nat" where
  "getDate d = snd (snd (civilFromDays (dayNo d)))"

text \<open>\<open>getDay\<close>: 0 is Sunday; 1970-01-01 was a Thursday.\<close>

definition getDay :: "jsdate \<Rightarrow> nat" where
  "getDay d = nat ((dayNo d + 4) mod 7)"

definition isSunday :: "jsdate \<Rightarrow> bool" where
  "isSunday d = (getDay d = 0)"

text \<open>\<open>d.setDate(d.getDate() + 1)\<close>: the next local calendar day, same time of day.\<close>

definition nextDay :: "jsdate \<Rightarrow> jsdate" where
  "nextDay d = d\<lparr>dayNo := dayNo d + 1\<rparr>"

definition formatDate :: "jsdate \<Rightarrow> string" where
  "formatDate d =
     stringOfInt (getFullYear d) @ ''-'' @ padStart2 (stringOfNat (getMonth d + 1))
       @ ''-'' @ padStart2 (stringOfNat (getDate d))"

subsection \<open>The holiday table\<close>

text \<open>
  \<open>COUNTRY_HOLIDAYS\<close>: one entry per country code, each holiday a (zero-based month,
  day) pair.  The holidays' names take part in no computation and are left out.
\<close>

type_synonym holiday = "nat \<times> nat"

definition COUNTRY_HOLIDAYS :: "(string \<times> holiday list) list" where
  "COUNTRY_HOLIDAYS = [
    (''US'', [(0,1), (0,15), (1,19), (4,27), (6,4), (8,2), (9,8), (10,11), (10,22), (11,25)]),
    (''UK'', [(0,1), (2,17), (3,1), (4,6), (4,27), (7,26), (11,25), (11,26)]),
    (''CA'', [(0,1), (2,17), (3,1), (4,20), (6,1), (8,2), (9,8), (10,11), (11,25), (11,26)]),
    (''AU'', [(0,1), (0,26), (3,25), (5,10), (11,25), (11,26)]),
    (''DE'', [(0,1), (4,1), (9,3), (10,1), (11,25), (11,26)]),
    (''FR'', [(0,1), (4,1), (4,8), (6,14), (7,15), (10,1), (10,11), (11,25)]),
    (''JP'', [(0,1), (1,11), (2,20), (3,29), (4,3), (4,4), (4,5), (6,15), (7,11), (8,16),
              (8,22), (9,8), (10,3), (10,23), (11,23)]),
    (''IN'', [(0,26), (7,15), (9,2), (9,31)]),
    (''BR'', [(0,1), (1,20), (3,21), (4,1), (8,7), (9,12), (10,2), (10,15), (11,25)]),
    (''MX'', [(0,1), (1,5), (2,21), (4,1), (8,16), (10,2), (10,20), (11,25)]),
    (''CN'', [(0,1), (1,10), (3,4), (4,1), (4,4), (9,1), (9,1)]),
    (''KR'', [(0,1), (2,1), (4,5), (5,6), (7,15), (9,3), (9,9), (11,25)]),
    (''IT'', [(0,1), (0,6), (3,25), (4,1), (5,2), (7,15), (10,1), (11,8), (11,25), (11,26)]),
    (''ES'', [(0,1), (0,6), (3,19), (4,1), (9,12), (10,1), (11,6), (11,8), (11,25)]),
    (''RU'', [(0,1), (0,7), (1,23), (2,8), (4,1), (4,9), (5,12), (10,4)]),
    (''ZA'', [(0,1), (2,21), (3,27), (4,1), (5,16), (7,9), (8,24), (11,16), (11,25), (11,26)]),
    (''AR'', [(0,1), (2,24), (3,2), (4,1), (4,25), (5,20), (6,9), (7,17), (9,12), (11,8),
              (11,25)]),
    (''CL'', [(0,1), (4,1), (4,21), (6,16), (8,18), (8,19), (9,12), (10,1), (11,8), (11,25)]),
    (''NL'', [(0,1), (3,27), (4,5), (11,25), (11,26)]),
    (''SE'', [(0,1), (0,6), (4,1), (5,6), (5,24), (10,1), (11,25), (11,26)]),
    (''NO'', [(0,1), (4,1), (4,17), (11,25), (11,26)]),
    (''PL'', [(0,1), (0,6), (4,1), (4,3), (6,15), (10,1), (10,11), (11,25), (11,26)]),
    (''TR'', [(0,1), (3,23), (4,1), (4,19), (7,30), (9,29)]),
    (''SA'', [(1,22), (8,23)]),
    (''AE'', [(0,1), (7,30), (9,2), (11,1), (11,2)]),
    (''SG'', [(0,1), (1,10), (1,11), (4,1), (7,9), (11,25)]),
    (''PH'', [(0,1), (1,25), (3,9), (4,1), (5,12), (7,26), (10,30), (11,25), (11,30)]),
    (''ID'', [(0,1), (4,1), (7,17), (11,25)]),
    (''TH'', [(0,1), (3,13), (4,1), (4,5), (6,28), (9,13), (11,5), (11,10), (11,31)]),
    (''VN'', [(0,1), (1,10), (3,30), (3,30), (4,1), (8,2)]),
    (''NZ'', [(0,1), (0,2), (1,6), (3,25), (5,3), (9,23), (11,25), (11,26)]),
    (''CH'', [(0,1), (0,2), (4,1), (7,1), (11,25), (11,26)]),
    (''BE'', [(0,1), (4,1), (6,21), (7,15), (10,1), (10,11), (11,25)]),
    (''PT'', [(0,1), (3,25), (4,1), (5,10), (7,15), (9,5), (10,1), (11,1), (11,8), (11,25)]),
    (''GR'', [(0,1), (0,6), (2,25), (4,1), (7,15), (9,28), (11,25), (11,26)]),
    (''NONE'', [])]"

text \<open>
  \<open>COUNTRY_HOLIDAYS\<close> is an object literal, so \<open>COUNTRY_HOLIDAYS[countryCode]\<close> is a
  property read: an own property gives its array, a name that \<open>Object.prototype\<close>
  defines gives the inherited member (a function, or the prototype object for
  \<open>__proto__\<close>), and any other name gives \<open>undefined\<close>.
\<close>

definition objectPrototypeKeys :: "string list" where
  "objectPrototypeKeys =
     [''constructor'', ''hasOwnProperty'', ''isPrototypeOf'', ''propertyIsEnumerable'',
      ''toLocaleString'', ''toString'', ''valueOf'', ''__proto__'', ''__defineGetter__'',
      ''__defineSetter__'', ''__lookupGetter__'', ''__lookupSetter__'']"

datatype propValue = HolidayArray "holiday list" | InheritedMember string | Undefined

definition getProperty :: "string \<Rightarrow> propValue" where
  "getProperty key =
     (case map_of COUNTRY_HOLIDAYS key of
        Some hs \<Rightarrow> HolidayArray hs
      | None \<Rightarrow> if key \<in> set objectPrototypeKeys then InheritedMember key else Undefined)"

text \<open>
  \<open>COUNTRY_HOLIDAYS[countryCode] || COUNTRY_HOLIDAYS['NONE']\<close>: only \<open>undefined\<close> is
  falsy among the values a property read can give here (an empty array is truthy).
\<close>

definition getHolidaysForCountry :: "string \<Rightarrow> propValue" where
  "getHolidaysForCountry countryCode =
     (case getProperty countryCode of
        Undefined \<Rightarrow> getProperty ''NONE''
      | v \<Rightarrow> v)"

datatype jsError = TypeError string | Error string

text \<open>
  \<open>holidays.some(...)\<close>: an array has \<open>some\<close>; on any other value the call raises
  a \<open>TypeError\<close>.
\<close>

definition isHoliday :: "jsdate \<Rightarrow> string \<Rightarrow> jsError + bool" where
  "isHoliday date countryCode =
     (let month = getMonth date; day = getDate date in
      case getHolidaysForCountry countryCode of
        HolidayArray holidays \<Rightarrow> Inr (list_ex (\<lambda>h. fst h = month \<and> snd h = day) holidays)
      | _ \<Rightarrow> Inl (TypeError ''holidays.some is not a function''))"

text \<open>\<open>isSunday(date) || isHoliday(date, countryCode)\<close>: the right operand runs only when the left is false.\<close>

definition shouldExcludeDate :: "jsdate \<Rightarrow> string \<Rightarrow> jsError + bool" where
  "shouldExcludeDate date countryCode =
     (if isSunday date then Inr True else isHoliday date countryCode)"

function getValidDatesLoop :: "jsdate \<Rightarrow> jsdate \<Rightarrow> string \<Rightarrow> jsdate list \<Rightarrow> jsError + jsdate list" where
  "getValidDatesLoop currentDate endDate countryCode validDates =
     (if dateLe currentDate endDate then
        (case shouldExcludeDate currentDate countryCode of
           Inl e \<Rightarrow> Inl e
         | Inr excluded \<Rightarrow>
             getValidDatesLoop (nextDay currentDate) endDate countryCode
               (if excluded then validDates else validDates @ [currentDate]))
      else Inr validDates)"
  by pat_completeness auto
termination
  by (relation "measure (\<lambda>(c, e, cc, v). nat (dayNo e - dayNo c + 1))")
     (auto simp: dateLe_def nextDay_def)

declare getValidDatesLoop.simps [simp del]

definition getValidDates :: "jsdate \<Rightarrow> jsdate \<Rightarrow> string \<Rightarrow> jsError + jsdate list" where
  "getValidDates startDate endDate countryCode = getValidDatesLoop startDate endDate countryCode []"

subsection \<open>The calendar filter as the specification words it\<close>

text \<open>
  A date is listed as a holiday for a region when the region's entry of the table holds
  its (month, day) pair; a code with no entry lists nothing.  The dates of a range are
  the start date and the same time of day on each following day, up to the end date.
\<close>

definition isListedHoliday :: "jsdate \<Rightarrow> string \<Rightarrow> bool" where
  "isListedHoliday d countryCode =
     (case map_of COUNTRY_HOLIDAYS countryCode of
        None \<Rightarrow> False
      | Some hs \<Rightarrow> (getMonth d, getDate d) \<in> set hs)"

definition addDays :: "jsdate \<Rightarrow> nat \<Rightarrow> jsdate" where
  "addDays d k = d\<lparr>dayNo := dayNo d + int k\<rparr>"

definition datesInRange :: "jsdate \<Rightarrow> jsdate \<Rightarrow> jsdate list" where
  "datesInRange s e =
     map (addDays s) [0..<nat (dayNo e - dayNo s + (if msOfDay s \<le> msOfDay e then 1 else 0))]"

section \<open>HTTP requests (prOperations.js)\<close>

text \<open>
  \<open>makeRequest\<close> sends one request and follows redirects.  The network and the URL
  parser are outside the program: they are the two fields of an environment, the
  network acting on a world \<open>'w\<close> that it may change at every request.
  \<open>parseURL loc base\<close> is \<open>new URL(loc)\<close> or \<open>new URL(loc, base)\<close>, with \<open>Inl\<close> the
  message of the error it throws.  The function returns the settled promise (\<open>Inl\<close> a
  rejection), the world, and the requests it issued, in order.
\<close>

datatype portValue = PortNum nat | PortStr string

record requestOptions =
  protocol :: string
  hostname :: string
  port :: portValue
  path :: string
  httpMethod :: string
  headers :: "(string \<times> string) list"

record url =
  urlProtocol :: string
  urlHostname :: string
  urlPort :: string
  urlPathname :: string
  urlSearch :: string

datatype 'd httpOutcome =
    Responded nat "string option" 'd
  | RequestError string
  | SocketTimeout

record 'd response =
  status :: nat
  data :: 'd
  location :: "string option"

record ('w, 'd) httpEnv =
  request :: "requestOptions \<Rightarrow> 'd option \<Rightarrow> 'w \<Rightarrow> 'd httpOutcome \<times> 'w"
  parseURL :: "string \<Rightarrow> string option \<Rightarrow> string + url"

definition redirectTarget :: "requestOptions \<Rightarrow> url \<Rightarrow> requestOptions" where
  "redirectTarget options redirectUrl =
     options\<lparr>hostname := urlHostname redirectUrl,
             path := urlPathname redirectUrl @ urlSearch redirectUrl,
             port := (if urlPort redirectUrl \<noteq> [] then PortStr (urlPort redirectUrl)
                      else if urlProtocol redirectUrl = ''https:'' then PortNum 443 else PortNum 80),
             protocol := urlProtocol redirectUrl\<rparr>"

definition isRedirect :: "nat \<Rightarrow> string option \<Rightarrow> bool" where
  "isRedirect statusCode loc =
     (statusCode \<in> set [301, 302, 307, 308] \<and> (case loc of None \<Rightarrow> False | Some l \<Rightarrow> l \<noteq> []))"

definition resolveLocation :: "('w, 'd) httpEnv \<Rightarrow> requestOptions \<Rightarrow> string \<Rightarrow> string + url" where
  "resolveLocation env options loc =
     (if startsWith loc ''http://'' \<or> startsWith loc ''https://'' then parseURL env loc None
      else parseURL env loc
             (Some ((if protocol options = [] then ''https:'' else protocol options) @ ''//''
                      @ hostname options @ path options)))"

function makeRequest ::
  "('w, 'd) httpEnv \<Rightarrow> requestOptions \<Rightarrow> 'd option \<Rightarrow> nat \<Rightarrow> nat \<Rightarrow> 'w
     \<Rightarrow> (jsError + 'd response) \<times> 'w \<times> requestOptions list" where
  "makeRequest env options dat timeoutMs redirectCount w =
     (if redirectCount \<ge> 5 then (Inl (Error ''Too many redirects (max 5)''), w, [])
      else
        (case request env options dat w of
           (RequestError msg, w') \<Rightarrow> (Inl (Error msg), w', [options])
         | (SocketTimeout, w') \<Rightarrow>
             (Inl (Error (''Request timeout after '' @ stringOfNat timeoutMs @ ''ms'')), w', [options])
         | (Responded statusCode loc body, w') \<Rightarrow>
             if isRedirect statusCode loc then
               (case resolveLocation env options (the loc) of
                  Inl msg \<Rightarrow>
                    (Inl (Error (''Invalid redirect URL: '' @ the loc @ '' - '' @ msg)), w', [options])
                | Inr redirectUrl \<Rightarrow>
                    (case makeRequest env (redirectTarget options redirectUrl) dat timeoutMs
                            (redirectCount + 1) w' of
                       (r, w'', issued) \<Rightarrow> (r, w'', options # issued)))
             else (Inr \<lparr>status = statusCode, data = body, location = loc\<rparr>, w', [options])))"
  by pat_completeness auto
termination
  by (relation "measure (\<lambda>(env, options, dat, timeoutMs, redirectCount, w). 5 - redirectCount)") auto

declare makeRequest.simps [simp del]

definition alwaysRedirects :: "('w, 'd) httpEnv \<Rightarrow> bool" where
  "alwaysRedirects env =
     (\<forall>options dat w. \<exists>statusCode loc body w' u.
        request env options dat w = (Responded statusCode loc body, w')
        \<and> isRedirect statusCode loc \<and> resolveLocation env options (the loc) = Inr u)"

subsection \<open>A server that redirects forever\<close>

text \<open>An environment whose every response is a redirect to the same address: a cyclic chain.\<close>

definition loopUrl :: url where
  "loopUrl = \<lparr>urlProtocol = ''https:'', urlHostname = ''api.github.com'', urlPort = [],
               urlPathname = ''/loop'', urlSearch = []\<rparr>"

definition loopingServer :: "(unit, unit) httpEnv" where
  "loopingServer =
     \<lparr>request = (\<lambda>options dat w. (Responded 302 (Some ''https://api.github.com/loop'') (), w)),
      parseURL = (\<lambda>loc base. Inr loopUrl)\<rparr>"

definition loopRequest :: requestOptions where
  "loopRequest = \<lparr>protocol = ''https:'', hostname = ''api.github.com'', port = PortNum 443,
                   path = ''/loop'', httpMethod = ''GET'', headers = []\<rparr>"



section \<open>The work partitioner (the \<open>/api/process-stream\<close> handler)\<close>

subsection \<open>The random source\<close>

text \<open>
  \<open>Math.random()\<close> returns a double that is at least 0 and less than 1.  A draw is
  such a double: the number \<open>m / 2^e\<close> with a significand \<open>m\<close> of at most 53 bits and
  an exponent \<open>e\<close> of at most 1074, the largest a double has.  The random source is an
  explicit input: the sequence of the numbers the calls return, with the count of the
  calls made so far.
\<close>

typedef draw = "{(m :: nat, e :: nat). m < 2 ^ 53 \<and> m < 2 ^ e \<and> e \<le> 1074}"
  by (rule exI [of _ "(0, 0)"]) simp

setup_lifting type_definition_draw

lift_definition significand :: "draw \<Rightarrow> nat" is fst .

lift_definition binaryExponent :: "draw \<Rightarrow> nat" is snd .

definition drawValue :: "draw \<Rightarrow> real" where
  "drawValue r = real (significand r) / 2 ^ binaryExponent r"

text \<open>The draws 0 and 0.75.\<close>

lift_definition drawLow :: draw is "(0, 1)" by simp

lift_definition drawHigh :: draw is "(3, 2)" by simp

text \<open>The double nearest to 0.7.\<close>

lift_definition drawSevenTenths :: draw is "(6305039478318694, 53)" by simp

type_synonym rng = "(nat \<Rightarrow> draw) \<times> nat"

definition mathRandom :: "rng \<Rightarrow> draw \<times> rng" where
  "mathRandom g = (fst g (snd g), (fst g, Suc (snd g)))"

text \<open>
  \<open>Math.floor(Math.random() * n)\<close>, \<open>n\<close> a count (an integer below \<open>2^53\<close>, so a
  double).  The product of two doubles is their exact product rounded to the nearest
  double, a tie going to the even significand.  The exact product of \<open>m / 2^e\<close> and
  \<open>n\<close> is \<open>m * n / 2^e\<close>: the nearest double keeps the 53 leading bits of \<open>m * n\<close>,
  rounded.  The product is below \<open>2^53\<close> and a multiple of \<open>2^-1074\<close>, so it neither
  overflows nor loses bits to underflow.
\<close>

fun bitLength :: "nat \<Rightarrow> nat" where
  "bitLength p = (if p = 0 then 0 else Suc (bitLength (p div 2)))"

declare bitLength.simps [simp del]

definition roundToDouble :: "nat \<Rightarrow> nat" where
  "roundToDouble p =
     (if bitLength p \<le> 53 then p
      else (if 2 ^ (bitLength p - 54) < p mod 2 ^ (bitLength p - 53)
               \<or> (p mod 2 ^ (bitLength p - 53) = 2 ^ (bitLength p - 54)
                   \<and> odd (p div 2 ^ (bitLength p - 53)))
            then p div 2 ^ (bitLength p - 53) + 1
            else p div 2 ^ (bitLength p - 53)) * 2 ^ (bitLength p - 53))"

definition randomIndex :: "draw \<Rightarrow> nat \<Rightarrow> nat" where
  "randomIndex r n = roundToDouble (significand r * n) div 2 ^ binaryExponent r"

text \<open>
  The comparator \<open>() => Math.random() - 0.5\<close>: it ignores the two elements.  The
  difference is rounded too, which never changes its sign.
\<close>

definition randomComparator :: "draw \<Rightarrow> real" where
  "randomComparator r = drawValue r - 1 / 2"

subsection \<open>The sort of the engine\<close>

text \<open>
  \<open>xs.sort(() => Math.random() - 0.5)\<close>.  With a comparator that is not consistent the
  language leaves the order of the result to the engine, which is outside the program.
  The comparator ignores the elements, so what the engine does with an array depends on
  the length of the array and on the draws alone.  The engine's sort is therefore a
  parameter: from the length and the draws to come, the arrangement (the positions of the
  original array, in the order in which the result holds them) and the number of calls
  of the comparator.  With it come the two parsers of the language the handler calls,
  \<open>parseInt\<close> (\<open>None\<close> for \<open>NaN\<close>) and \<open>new Date\<close> of a string (\<open>None\<close> for an
  invalid date).
\<close>

record runtime =
  arraySort :: "nat \<Rightarrow> (nat \<Rightarrow> draw) \<Rightarrow> nat list \<times> nat"
  parseInt :: "string \<Rightarrow> int option"
  newDate :: "string \<Rightarrow> jsdate option"

definition upcoming :: "rng \<Rightarrow> nat \<Rightarrow> draw" where
  "upcoming g i = fst g (snd g + i)"

definition sortRandom :: "runtime \<Rightarrow> 'a list \<Rightarrow> rng \<Rightarrow> 'a list \<times> rng" where
  "sortRandom rt xs g =
     (case arraySort rt (length xs) (upcoming g) of
        (arrangement, calls) \<Rightarrow> (map (\<lambda>i. xs ! i) arrangement, (fst g, snd g + calls)))"

text \<open>What the language does promise of a sort: the result holds every position once.\<close>

definition permuting :: "runtime \<Rightarrow> bool" where
  "permuting rt = (\<forall>n draws. mset (fst (arraySort rt n draws)) = mset [0..<n])"

subsection \<open>The sort of V8 on a short array\<close>

text \<open>
  V8, the engine of Node.js, sorts an array of fewer than 64 elements as a single run.
  It compares the second element with the first: when the result is negative the run is
  descending, else ascending.  It extends the run as long as the comparison of an
  element with the one before it agrees, and reverses a descending run.  Every
  remaining element is then inserted into the sorted part at the place a binary search
  finds: the search halves the range between \<open>left\<close> and \<open>right\<close>, going left when
  the comparison of the element with the middle one is negative.  A comparison that
  ends the run is made, and its draw used up, all the same.
\<close>

fun extendRun :: "bool \<Rightarrow> nat \<Rightarrow> nat \<Rightarrow> rng \<Rightarrow> nat \<times> rng" where
  "extendRun isDescending 0 runLength g = (runLength, g)"
| "extendRun isDescending (Suc remaining) runLength g =
     (case mathRandom g of (r, g') \<Rightarrow>
        if (if isDescending then 0 \<le> randomComparator r else randomComparator r < 0)
        then (runLength, g')
        else extendRun isDescending remaining (Suc runLength) g')"

function binarySearch :: "nat \<Rightarrow> nat \<Rightarrow> rng \<Rightarrow> nat \<times> rng" where
  "binarySearch left right g =
     (if left < right then
        (case mathRandom g of (r, g') \<Rightarrow>
           if randomComparator r < 0 then binarySearch left (left + (right - left) div 2) g'
           else binarySearch (left + (right - left) div 2 + 1) right g')
      else (left, g))"
  by pat_completeness auto
termination
  by (relation "measure (\<lambda>(left, right, g). right - left)") auto

declare binarySearch.simps [simp del]

fun binaryInsertionSort :: "'a list \<Rightarrow> 'a list \<Rightarrow> rng \<Rightarrow> 'a list \<times> rng" where
  "binaryInsertionSort sortedPart [] g = (sortedPart, g)"
| "binaryInsertionSort sortedPart (pivot # rest) g =
     (case binarySearch 0 (length sortedPart) g of
        (left, g') \<Rightarrow> binaryInsertionSort (take left sortedPart @ pivot # drop left sortedPart) rest g')"

definition timSortShort :: "'a list \<Rightarrow> rng \<Rightarrow> 'a list \<times> rng" where
  "timSortShort xs g =
     (if length xs < 2 then (xs, g)
      else
        (case mathRandom g of (r, g1) \<Rightarrow>
           let isDescending = (randomComparator r < 0) in
           case extendRun isDescending (length xs - 2) 2 g1 of (runLength, g2) \<Rightarrow>
             binaryInsertionSort
               (if isDescending then rev (take runLength xs) else take runLength xs)
               (drop runLength xs) g2))"

definition v8Sort :: "nat \<Rightarrow> (nat \<Rightarrow> draw) \<Rightarrow> nat list \<times> nat" where
  "v8Sort n draws = (case timSortShort [0..<n] (draws, 0) of (arrangement, g) \<Rightarrow> (arrangement, snd g))"

subsection \<open>Validation and partition\<close>

text \<open>
  The loop \<open>for (i = 0; i < remainingCommits; i++) commitsPerBranch[randomBranch]++\<close>.
  The index is below the length of the array (\<open>randomIndex_less\<close>), so the update is
  always inside it.
\<close>

fun distributeCommits :: "nat \<Rightarrow> nat \<Rightarrow> nat list \<Rightarrow> rng \<Rightarrow> nat list \<times> rng" where
  "distributeCommits 0 actualNumBranches commitsPerBranch g = (commitsPerBranch, g)"
| "distributeCommits (Suc remaining) actualNumBranches commitsPerBranch g =
     (case mathRandom g of (r, g') \<Rightarrow>
        let randomBranch = randomIndex r actualNumBranches in
        distributeCommits remaining actualNumBranches
          (commitsPerBranch[randomBranch := commitsPerBranch ! randomBranch + 1]) g')"

text \<open>
  The handler, from the parsed request on: \<open>numBranchesNum\<close> and \<open>totalCommitsNum\<close>
  are the results of \<open>parseInt\<close> (\<open>None\<close> for \<open>NaN\<close>), \<open>start\<close> and \<open>end\<close> those of
  \<open>new Date(...)\<close> (\<open>None\<close> for an invalid date), \<open>country\<close> the request's country
  (empty when absent).  Each error message the handler sends is a constructor of
  \<open>planError\<close>; an exception of \<open>getValidDates\<close> reaches the handler's outer
  \<open>catch\<close>.  \<open>datesToProcess ! i\<close> is processed with \<open>commitsPerBranch ! i\<close> commits.
\<close>

datatype planError =
    BranchesBelowOne | CommitsBelowOne | CommitsBelowBranches
  | InvalidDateFormat | StartAfterEnd | NoValidDates | ServerError jsError
  | MissingRequiredFields

record workPlan =
  validDatesCount :: nat
  actualNumBranches :: nat
  adjustedBranches :: bool
  datesToProcess :: "jsdate list"
  commitsPerBranch :: "nat list"

definition planWork ::
  "runtime \<Rightarrow> int option \<Rightarrow> int option \<Rightarrow> jsdate option \<Rightarrow> jsdate option \<Rightarrow> string \<Rightarrow> rng
     \<Rightarrow> (planError + workPlan) \<times> rng" where
  "planWork rt numBranchesNum totalCommitsNum start end country g =
     (case numBranchesNum of None \<Rightarrow> (Inl BranchesBelowOne, g) | Some nb \<Rightarrow>
      if nb < 1 then (Inl BranchesBelowOne, g) else
      case totalCommitsNum of None \<Rightarrow> (Inl CommitsBelowOne, g) | Some tc \<Rightarrow>
      if tc < 1 then (Inl CommitsBelowOne, g) else
      if tc < nb then (Inl CommitsBelowBranches, g) else
      case (start, end) of
        (None, _) \<Rightarrow> (Inl InvalidDateFormat, g)
      | (_, None) \<Rightarrow> (Inl InvalidDateFormat, g)
      | (Some s, Some e) \<Rightarrow>
      if \<not> dateLe s e then (Inl StartAfterEnd, g) else
      let countryCode = (if country = [] then ''US'' else country) in
      case getValidDates s e countryCode of
        Inl err \<Rightarrow> (Inl (ServerError err), g)
      | Inr validDates \<Rightarrow>
      if length validDates = 0 then (Inl NoValidDates, g) else
      let adjusted = (length validDates < nat nb);
          actual = (if adjusted then length validDates else nat nb) in
      case sortRandom rt validDates g of (shuffledDates, g1) \<Rightarrow>
      case distributeCommits (nat (tc - int actual)) actual (replicate actual 1) g1 of (counts, g2) \<Rightarrow>
      case sortRandom rt counts g2 of (shuffledCounts, g3) \<Rightarrow>
        (Inr \<lparr>validDatesCount = length validDates, actualNumBranches = actual,
              adjustedBranches = adjusted, datesToProcess = take actual shuffledDates,
              commitsPerBranch = shuffledCounts\<rparr>, g3))"

subsection \<open>The partition as the specification words it\<close>


text \<open>
  A random source from the outcomes of the first comparisons: \<open>True\<close> for the draw
  0.75 (a positive comparator), \<open>False\<close> for the draw 0 (a negative one).  A draw is
  below one half as often as not, so when the draws are independent all the outcome
  vectors of a given length are equally likely.
\<close>

definition drawsOf :: "bool list \<Rightarrow> nat \<Rightarrow> draw" where
  "drawsOf bs i = (if i < length bs \<and> bs ! i then drawHigh else drawLow)"

text \<open>
  A runtime whose sort is the one of V8; its parsers read nothing (the plan is computed
  from parsed values).
\<close>

definition v8Engine :: runtime where
  "v8Engine = \<lparr>arraySort = v8Sort, parseInt = (\<lambda>text. None), newDate = (\<lambda>text. None)\<rparr>"


text \<open>
  The same count for any engine and any number \<open>k\<close> of comparisons whose outcomes
  decide the arrangement.
\<close>

definition arrangementCount :: "runtime \<Rightarrow> nat \<Rightarrow> 'a list \<Rightarrow> 'a list \<Rightarrow> nat" where
  "arrangementCount rt k xs arrangement =
     length (filter (\<lambda>bs. fst (sortRandom rt xs (drawsOf bs, 0)) = arrangement)
               (List.n_lists k [False, True]))"

section \<open>The repository driver (gitOperations.js)\<close>

subsection \<open>The environment\<close>

text \<open>
  The version-control library, the file system and the remote are outside the program.
  Each primitive the program calls is a field of an environment; it acts on a world
  \<open>'w\<close>, which it may change, and returns what the call returns, \<open>Inl\<close> the message
  of the error it throws.  Every call is recorded, in order, as an \<open>effect\<close>.
\<close>

text \<open>
  What the review API answers, after \<open>JSON.parse\<close>: a list of pull requests, one pull
  request, an error object, a bare string (a body that is not JSON), or any other object
  (\<open>{}\<close> for an empty body).  An error object is read through its fields \<open>message\<close>
  and \<open>error\<close>, empty here when absent or not truthy, and \<open>errors\<close>, which when it
  is an array is given by the texts \<open>e.message || e\<close> of its elements.  The API answers
  with arrays, objects and strings; the body \<open>null\<close> is left out.
\<close>

record pullRequest =
  number :: "nat option"
  html_url :: "string option"
  headRef :: string
  baseRef :: string
  prState :: string
  mergeable :: "bool option"
  mergeable_state :: "string option"
  merged :: bool

datatype apiData =
    PullList "pullRequest list"
  | PullObject pullRequest
  | ErrorObject string string "string list option"
  | BareString string
  | OtherObject
  | CreateBody string string string string

record repoInfo =
  host :: string
  owner :: string
  repo :: string

record opResult =
  success :: bool
  message :: string

record logLatest =
  hash :: string
  authorDate :: "jsdate option"

datatype effect =
    BranchLocal
  | Fetch string
  | BranchRemotes
  | Push string string bool
  | Checkout string
  | CheckoutLocalBranch string
  | RevparseHead
  | GetRemotes
  | Pull string string
  | Cwd
  | ExistsSync string
  | ReadFileSync string
  | WriteFileSync string string
  | Add string
  | Commit string string
  | Log1
  | LogBranch string
  | GetRemoteUrl string
  | Http requestOptions
  | MergePR "nat option"
  | InitGit string

record 'w gitEnv =
  gitBranchLocal :: "'w \<Rightarrow> (string + string list) \<times> 'w"
  gitFetch :: "string \<Rightarrow> 'w \<Rightarrow> (string + unit) \<times> 'w"
  gitBranchRemotes :: "'w \<Rightarrow> (string + string list) \<times> 'w"
  gitPush :: "string \<Rightarrow> string \<Rightarrow> bool \<Rightarrow> 'w \<Rightarrow> (string + unit) \<times> 'w"
  gitCheckout :: "string \<Rightarrow> 'w \<Rightarrow> (string + unit) \<times> 'w"
  gitCheckoutLocalBranch :: "string \<Rightarrow> 'w \<Rightarrow> (string + unit) \<times> 'w"
  gitRevparseHead :: "'w \<Rightarrow> (string + string) \<times> 'w"
  gitGetRemotes :: "'w \<Rightarrow> (string + string list) \<times> 'w"
  gitPull :: "string \<Rightarrow> string \<Rightarrow> 'w \<Rightarrow> (string + unit) \<times> 'w"
  gitCwd :: "'w \<Rightarrow> (string + string option) \<times> 'w"
  fsExistsSync :: "string \<Rightarrow> 'w \<Rightarrow> bool \<times> 'w"
  fsReadFileSync :: "string \<Rightarrow> 'w \<Rightarrow> (string + string) \<times> 'w"
  fsWriteFileSync :: "string \<Rightarrow> string \<Rightarrow> 'w \<Rightarrow> (string + unit) \<times> 'w"
  gitAdd :: "string \<Rightarrow> 'w \<Rightarrow> (string + unit) \<times> 'w"
  gitCommit :: "string \<Rightarrow> string \<Rightarrow> 'w \<Rightarrow> (string + unit) \<times> 'w"
  gitLog :: "string list \<Rightarrow> 'w \<Rightarrow> (string + logLatest option) \<times> 'w"
  utcOffsetMs :: int
  getRemoteUrl :: "string \<Rightarrow> 'w \<Rightarrow> string option \<times> 'w"
  apiRequest :: "requestOptions \<Rightarrow> apiData option \<Rightarrow> 'w \<Rightarrow> apiData httpOutcome \<times> 'w"
  apiParseURL :: "string \<Rightarrow> string option \<Rightarrow> string + url"
  encodeURIComponent :: "string \<Rightarrow> string"
  stringify :: "apiData \<Rightarrow> string"
  parseRepoUrl :: "string \<Rightarrow> repoInfo option"
  mergeGitHubPR :: "repoInfo \<Rightarrow> nat option \<Rightarrow> string \<Rightarrow> string \<Rightarrow> string \<Rightarrow> string \<Rightarrow> 'w \<Rightarrow> opResult \<times> 'w"
  initGit :: "string \<Rightarrow> 'w \<Rightarrow> (string + string) \<times> 'w"

type_synonym 'w state = "'w \<times> effect list"

definition perform :: "effect \<Rightarrow> ('w \<Rightarrow> 'r \<times> 'w) \<Rightarrow> 'w state \<Rightarrow> 'r \<times> 'w state" where
  "perform eff prim s = (case prim (fst s) of (r, w') \<Rightarrow> (r, (w', snd s @ [eff])))"

definition quoted :: "string \<Rightarrow> string" where
  "quoted s = [CHR 0x27] @ s @ [CHR 0x27]"

subsection \<open>Branches\<close>

definition branchExistsOnRemote :: "'w gitEnv \<Rightarrow> string \<Rightarrow> string \<Rightarrow> 'w state \<Rightarrow> bool \<times> 'w state" where
  "branchExistsOnRemote git branchName remote s =
     (case perform (Fetch remote) (gitFetch git remote) s of
        (Inl msg, s1) \<Rightarrow> (False, s1)
      | (Inr u, s1) \<Rightarrow>
          (case perform BranchRemotes (gitBranchRemotes git) s1 of
             (Inl msg, s2) \<Rightarrow> (False, s2)
           | (Inr remoteBranches, s2) \<Rightarrow> (remote @ ''/'' @ branchName \<in> set remoteBranches, s2)))"

definition deleteRemoteBranch :: "'w gitEnv \<Rightarrow> string \<Rightarrow> string \<Rightarrow> 'w state \<Rightarrow> opResult \<times> 'w state" where
  "deleteRemoteBranch git branchName remote s =
     (case perform (Push remote ('':'' @ branchName) False) (gitPush git remote ('':'' @ branchName) False) s of
        (Inl msg, s1) \<Rightarrow>
          (\<lparr>success = False, message = ''Error deleting remote branch: '' @ msg\<rparr>, s1)
      | (Inr u, s1) \<Rightarrow>
          (\<lparr>success = True, message = ''Remote branch '' @ quoted branchName @ '' deleted''\<rparr>, s1))"

record branchResult = opResult +
  existedRemotely :: "bool option"

definition createBranchFailed :: "string \<Rightarrow> branchResult" where
  "createBranchFailed msg =
     \<lparr>success = False, message = ''Error creating branch: '' @ msg, existedRemotely = None\<rparr>"

text \<open>
  The second half of \<open>createBranch\<close>: check the branch out, or create it, and verify
  that it is the current one.
\<close>

definition checkoutAndVerify ::
  "'w gitEnv \<Rightarrow> string \<Rightarrow> bool \<Rightarrow> bool \<Rightarrow> 'w state \<Rightarrow> branchResult \<times> 'w state" where
  "checkoutAndVerify git branchName existsLocally existsRemotely s3 =
     (case (if existsLocally then perform (Checkout branchName) (gitCheckout git branchName) s3
            else perform (CheckoutLocalBranch branchName) (gitCheckoutLocalBranch git branchName) s3) of
        (Inl msg, s4) \<Rightarrow> (createBranchFailed msg, s4)
      | (Inr u, s4) \<Rightarrow>
     case perform RevparseHead (gitRevparseHead git) s4 of
        (Inl msg, s5) \<Rightarrow> (createBranchFailed msg, s5)
      | (Inr currentBranch, s5) \<Rightarrow>
          if currentBranch \<noteq> branchName then
            (createBranchFailed (''Failed to checkout branch. Current branch: '' @ currentBranch
                                   @ '', Expected: '' @ branchName), s5)
          else
            (\<lparr>success = True, message = ''Branch '' @ quoted branchName @ '' created/checked out'',
              existedRemotely = Some existsRemotely\<rparr>, s5))"

text \<open>
  \<open>createBranch\<close>: list the local branches, look the branch up on the remote, delete it
  there when it is found (the result of the deletion is only logged), then check out.
\<close>

definition createBranch ::
  "'w gitEnv \<Rightarrow> string \<Rightarrow> string \<Rightarrow> bool \<Rightarrow> 'w state \<Rightarrow> branchResult \<times> 'w state" where
  "createBranch git branchName remote forcePush s =
     (case perform BranchLocal (gitBranchLocal git) s of
        (Inl msg, s1) \<Rightarrow> (createBranchFailed msg, s1)
      | (Inr branches, s1) \<Rightarrow>
     let existsLocally = (branchName \<in> set branches) in
     case branchExistsOnRemote git branchName remote s1 of (existsRemotely, s2) \<Rightarrow>
     checkoutAndVerify git branchName existsLocally existsRemotely
       (if existsRemotely \<and> \<not> forcePush
        then snd (deleteRemoteBranch git branchName remote s2) else s2))"

subsection \<open>Pushing\<close>

definition isNonFastForward :: "string \<Rightarrow> bool" where
  "isNonFastForward msg = (includesStr msg ''non-fast-forward'' \<or> includesStr msg ''fetch first'')"

function pushBranch ::
  "'w gitEnv \<Rightarrow> string \<Rightarrow> string \<Rightarrow> bool \<Rightarrow> 'w state \<Rightarrow> opResult \<times> 'w state" where
  "pushBranch git branchName remote forcePush s =
     (case (case perform GetRemotes (gitGetRemotes git) s of
              (Inl msg, s1) \<Rightarrow> (Inl msg, s1)
            | (Inr remotes, s1) \<Rightarrow>
                if remote \<notin> set remotes then
                  (Inr \<lparr>success = False,
                        message = ''Remote '' @ quoted remote @ '' does not exist. Please add it first.''\<rparr>, s1)
                else
                  (case perform (Push remote branchName forcePush) (gitPush git remote branchName forcePush) s1 of
                     (Inl msg, s2) \<Rightarrow> (Inl msg, s2)
                   | (Inr u, s2) \<Rightarrow>
                       (Inr \<lparr>success = True,
                             message = ''Branch '' @ quoted branchName @ '' pushed to '' @ remote\<rparr>, s2))) of
        (Inr result, s') \<Rightarrow> (result, s')
      | (Inl msg, s') \<Rightarrow>
          if \<not> forcePush \<and> isNonFastForward msg then pushBranch git branchName remote True s'
          else (\<lparr>success = False, message = ''Error pushing branch: '' @ msg\<rparr>, s'))"
  by pat_completeness auto
termination
  by (relation "measure (\<lambda>(git, branchName, remote, forcePush, s). if forcePush then 0 else 1)") auto

declare pushBranch.simps [simp del]


subsection \<open>Commits\<close>

text \<open>
  \<open>Number(s)\<close> on the strings the pipeline passes: a string of decimal digits (the
  empty string is 0); any other string is read as \<open>NaN\<close> (\<open>None\<close>).  The other forms
  of numeric literal do not occur in what \<open>formatDate\<close> prints.
\<close>

definition digitValue :: "char \<Rightarrow> nat option" where
  "digitValue c = (if c \<in> set ''0123456789'' then Some (of_char c - 48) else None)"

fun numberFrom :: "nat \<Rightarrow> string \<Rightarrow> nat option" where
  "numberFrom acc [] = Some acc"
| "numberFrom acc (c # cs) =
     (case digitValue c of None \<Rightarrow> None | Some d \<Rightarrow> numberFrom (10 * acc + d) cs)"

definition Number :: "string \<Rightarrow> nat option" where
  "Number s = numberFrom 0 s"

text \<open>\<open>MakeDay(year, month, date)\<close> of the language: the day number of a calendar date, the month zero-based and carried into the year.\<close>

definition makeDay :: "int \<Rightarrow> int \<Rightarrow> int \<Rightarrow> int" where
  "makeDay year monthIndex day =
     daysFromCivil (year + monthIndex div 12) (nat (monthIndex mod 12) + 1) 1 + (day - 1)"

text \<open>
  \<open>new Date(year, monthIndex, day, 12, 0, 0)\<close>: local time; a year from 0 to 99 stands
  for 1900 + year.
\<close>

definition newDateNoon :: "int \<Rightarrow> int \<Rightarrow> int \<Rightarrow> jsdate" where
  "newDateNoon year monthIndex day =
     \<lparr>dayNo = makeDay (if 0 \<le> year \<and> year \<le> 99 then 1900 + year else year) monthIndex day,
      msOfDay = 43200000\<rparr>"

text \<open>
  \<open>const [year, month, day] = date.split('-').map(Number)\<close> and the date built from
  them; \<open>None\<close> is an invalid date (a part missing or not a number).
\<close>

definition commitDateOf :: "string \<Rightarrow> jsdate option" where
  "commitDateOf date =
     (case map Number (splitOn CHR ''-'' date) of
        Some year # Some month # Some day # rest \<Rightarrow>
          Some (newDateNoon (int year) (int month - 1) (int day))
      | _ \<Rightarrow> None)"

fun padZeros :: "nat \<Rightarrow> string \<Rightarrow> string" where
  "padZeros width s = replicate (width - length s) CHR ''0'' @ s"

text \<open>
  \<open>d.toISOString()\<close>: the instant in UTC, \<open>utcOffset\<close> the milliseconds local time is
  ahead of UTC.  An instant outside the range of time values raises a \<open>RangeError\<close>.
\<close>

definition isoYear :: "int \<Rightarrow> string" where
  "isoYear y =
     (if 0 \<le> y \<and> y \<le> 9999 then padZeros 4 (stringOfNat (nat y))
      else (if y < 0 then ''-'' else ''+'') @ padZeros 6 (stringOfNat (nat \<bar>y\<bar>)))"

definition isoOfParts :: "int \<times> nat \<times> nat \<Rightarrow> nat \<Rightarrow> string" where
  "isoOfParts ymd ms =
     isoYear (fst ymd)
       @ ''-'' @ padZeros 2 (stringOfNat (fst (snd ymd)))
       @ ''-'' @ padZeros 2 (stringOfNat (snd (snd ymd)))
       @ ''T'' @ padZeros 2 (stringOfNat (ms div 3600000))
       @ '':'' @ padZeros 2 (stringOfNat (ms div 60000 mod 60))
       @ '':'' @ padZeros 2 (stringOfNat (ms div 1000 mod 60))
       @ ''.'' @ padZeros 3 (stringOfNat (ms mod 1000)) @ ''Z''"

definition isoOfTime :: "int \<Rightarrow> string + string" where
  "isoOfTime t =
     (if t < - 8640000000000000 \<or> 8640000000000000 < t then Inl ''Invalid time value''
      else Inr (isoOfParts (civilFromDays (t div 86400000)) (nat (t mod 86400000))))"

definition toISOString :: "int \<Rightarrow> jsdate \<Rightarrow> string + string" where
  "toISOString utcOffset d = isoOfTime (dayNo d * 86400000 + int (msOfDay d) - utcOffset)"

record commitInfo =
  cSuccess :: bool
  cMessage :: string
  cCommitDate :: string
  cCommitHash :: "string option"
  cCommitTimestamp :: string

record commitsResult = opResult +
  commitResults :: "commitInfo list"

definition createCommitsFailed :: "string \<Rightarrow> commitsResult" where
  "createCommitsFailed msg =
     \<lparr>success = False, message = ''Error creating commits: '' @ msg, commitResults = []\<rparr>"

text \<open>
  The loop of \<open>createCommits\<close>, \<open>i\<close> the commits made so far and \<open>remaining\<close> those
  still to make: append a line, write the file, stage it, commit with the fixed date,
  read the log back.  \<open>Inl\<close> is an exception, which leaves the loop.
\<close>

fun createCommitsLoop ::
  "'w gitEnv \<Rightarrow> nat \<Rightarrow> nat \<Rightarrow> string \<Rightarrow> string \<Rightarrow> string \<Rightarrow> string \<Rightarrow> commitInfo list \<Rightarrow> 'w state
     \<Rightarrow> (string + commitInfo list) \<times> 'w state" where
  "createCommitsLoop git 0 i date timestamp filePath content results s = (Inr results, s)"
| "createCommitsLoop git (Suc remaining) i date timestamp filePath content results s =
     (let content' = content @ date @ '' - Commit '' @ stringOfNat (i + 1) @ '' at '' @ timestamp @ [CHR 0x0A];
          commitMessage = ''Auto commit '' @ stringOfNat (i + 1) @ '' for '' @ date
      in
      case perform (WriteFileSync filePath content') (fsWriteFileSync git filePath content') s of
        (Inl msg, s1) \<Rightarrow> (Inl msg, s1)
      | (Inr u, s1) \<Rightarrow>
      case perform (Add ''commits.txt'') (gitAdd git ''commits.txt'') s1 of
        (Inl msg, s2) \<Rightarrow> (Inl msg, s2)
      | (Inr u, s2) \<Rightarrow>
      case perform (Commit commitMessage timestamp) (gitCommit git commitMessage timestamp) s2 of
        (Inl msg, s3) \<Rightarrow> (Inl msg, s3)
      | (Inr u, s3) \<Rightarrow>
      case perform Log1 (gitLog git [''-1'']) s3 of
        (Inl msg, s4) \<Rightarrow> (Inl msg, s4)
      | (Inr latest, s4) \<Rightarrow>
      case (case latest of
              None \<Rightarrow> Inr None
            | Some entry \<Rightarrow>
                (case authorDate entry of
                   None \<Rightarrow> Inl ''Invalid time value''
                 | Some logged \<Rightarrow>
                     (case toISOString (utcOffsetMs git) logged of
                        Inl msg \<Rightarrow> Inl msg
                      | Inr loggedIso \<Rightarrow> Inr (Some (take 7 (hash entry)))))) of
        Inl msg \<Rightarrow> (Inl msg, s4)
      | Inr shortHash \<Rightarrow>
          createCommitsLoop git remaining (i + 1) date timestamp filePath content'
            (results @ [\<lparr>cSuccess = True,
                         cMessage = ''Commit '' @ stringOfNat (i + 1) @ '' created for '' @ date,
                         cCommitDate = date, cCommitHash = shortHash,
                         cCommitTimestamp = timestamp\<rparr>]) s4)"

text \<open>
  The first lines of \<open>createCommits\<close>: the repository path is the argument when it
  is given (and not empty), else what \<open>git.cwd()\<close> returns when that is a string.
\<close>

definition resolveRepoPath :: "'w gitEnv \<Rightarrow> string option \<Rightarrow> 'w state \<Rightarrow> string option \<times> 'w state" where
  "resolveRepoPath git repoPath s =
     (if repoPath \<noteq> None \<and> repoPath \<noteq> Some [] then (repoPath, s)
      else
        (case perform Cwd (gitCwd git) s of
           (Inr (Some cwd), s0) \<Rightarrow> (Some cwd, s0)
         | (r, s0) \<Rightarrow> (None, s0)))"

text \<open>
  \<open>createCommits\<close>.  The path of the file is \<open>path.join(actualRepoPath, 'commits.txt')\<close>,
  written here with a plain separator: the program only hands it to the file system.
\<close>

definition createCommits ::
  "'w gitEnv \<Rightarrow> nat \<Rightarrow> string \<Rightarrow> string option \<Rightarrow> 'w state \<Rightarrow> commitsResult \<times> 'w state" where
  "createCommits git commitCount date repoPath s =
     (case resolveRepoPath git repoPath s of
        (None, s0) \<Rightarrow>
          (\<lparr>success = False, message = ''Could not determine repository path'', commitResults = []\<rparr>, s0)
      | (Some actualRepoPath, s0) \<Rightarrow>
     if actualRepoPath = [] then
       (\<lparr>success = False, message = ''Could not determine repository path'', commitResults = []\<rparr>, s0)
     else
     let filePath = actualRepoPath @ ''/'' @ ''commits.txt'' in
     case perform (ExistsSync filePath) (fsExistsSync git filePath) s0 of (fileExists, s1) \<Rightarrow>
     case (if fileExists then perform (ReadFileSync filePath) (fsReadFileSync git filePath) s1
           else (Inr [], s1)) of
        (Inl msg, s2) \<Rightarrow> (createCommitsFailed msg, s2)
      | (Inr content, s2) \<Rightarrow>
     case (case commitDateOf date of
             None \<Rightarrow> Inl ''Invalid time value''
           | Some noon \<Rightarrow> toISOString (utcOffsetMs git) noon) of
        Inl msg \<Rightarrow> (createCommitsFailed msg, s2)
      | Inr timestamp \<Rightarrow>
     case createCommitsLoop git commitCount 0 date timestamp filePath content [] s2 of
        (Inl msg, s3) \<Rightarrow> (createCommitsFailed msg, s3)
      | (Inr made, s3) \<Rightarrow>
          (\<lparr>success = True, message = ''Created '' @ stringOfNat commitCount @ '' commits'',
            commitResults = made\<rparr>, s3))"

subsection \<open>The conflict resolver\<close>

text \<open>
  \<open>s.trim()\<close>: the white space of the language among the characters of \<open>string\<close>
  (tab, line feed, vertical tab, form feed, carriage return, space, no-break space).
\<close>

definition isSpace :: "char \<Rightarrow> bool" where
  "isSpace c = (of_char c \<in> set [9, 10, 11, 12, 13, 32, 160 :: nat])"

definition trim :: "string \<Rightarrow> string" where
  "trim s = rev (dropWhile isSpace (rev (dropWhile isSpace s)))"

datatype mergeState = Normal | Ours | Theirs

record logMerge =
  mState :: mergeState
  oursContent :: "string list"
  theirsContent :: "string list"
  resolvedLines :: "string list"
  seenLines :: "string list"

text \<open>Keep a line unless it is blank or its trimmed content was seen before.\<close>

definition addUnique :: "logMerge \<Rightarrow> string \<Rightarrow> logMerge" where
  "addUnique m line =
     (let trimmed = trim line in
      if trimmed \<noteq> [] \<and> trimmed \<notin> set (seenLines m)
      then m\<lparr>resolvedLines := resolvedLines m @ [line], seenLines := seenLines m @ [trimmed]\<rparr>
      else m)"

definition logStep :: "logMerge \<Rightarrow> string \<Rightarrow> logMerge" where
  "logStep m line =
     (if startsWith line ''<<<<<<<'' then m\<lparr>mState := Ours, oursContent := [], theirsContent := []\<rparr>
      else if startsWith line ''======='' then m\<lparr>mState := Theirs\<rparr>
      else if startsWith line ''>>>>>>>'' then
        (foldl addUnique (m\<lparr>mState := Normal\<rparr>) (oursContent m @ theirsContent m))
          \<lparr>oursContent := [], theirsContent := []\<rparr>
      else
        (case mState m of
           Ours \<Rightarrow> if trim line \<noteq> [] then m\<lparr>oursContent := oursContent m @ [line]\<rparr> else m
         | Theirs \<Rightarrow> if trim line \<noteq> [] then m\<lparr>theirsContent := theirsContent m @ [line]\<rparr> else m
         | Normal \<Rightarrow> addUnique m line))"

record oursMerge =
  inConflict :: bool
  keepOurs :: bool
  keptLines :: "string list"

definition oursStep :: "oursMerge \<Rightarrow> string \<Rightarrow> oursMerge" where
  "oursStep m line =
     (if startsWith line ''<<<<<<<'' then m\<lparr>inConflict := True, keepOurs := True\<rparr>
      else if startsWith line ''======='' then m\<lparr>keepOurs := False\<rparr>
      else if startsWith line ''>>>>>>>'' then m\<lparr>inConflict := False, keepOurs := True\<rparr>
      else if \<not> inConflict m \<or> keepOurs m then m\<lparr>keptLines := keptLines m @ [line]\<rparr>
      else m)"

definition isLogFile :: "string \<Rightarrow> bool" where
  "isLogFile file = (file = ''commits.txt'' \<or> endsWith file ''commits.txt'')"

text \<open>
  \<open>resolveFileConflicts(git, file, content, filePath)\<close>; the first and the last
  argument are not used.  Nothing in the body throws, so the \<open>null\<close> of the \<open>catch\<close>
  is never returned.
\<close>

definition resolveFileConflicts :: "string \<Rightarrow> string \<Rightarrow> string option" where
  "resolveFileConflicts file content =
     (if isLogFile file then
        (let merged = foldl logStep
               \<lparr>mState = Normal, oursContent = [], theirsContent = [], resolvedLines = [],
                seenLines = []\<rparr> (splitOn CHR 0x0A content)
         in Some (joinWith CHR 0x0A (resolvedLines merged)
                    @ (if length (resolvedLines merged) > 0 then [CHR 0x0A] else [])))
      else
        (let merged = foldl oursStep \<lparr>inConflict = False, keepOurs = True, keptLines = []\<rparr>
               (splitOn CHR 0x0A content)
         in Some (joinWith CHR 0x0A (keptLines merged))))"

subsection \<open>Conflicted files as the specification words them\<close>

text \<open>
  A conflicted file is a sequence of segments: a line outside any conflict, or a
  conflict region, which is the \<open><<<<<<<\<close> line with its label, the lines of our side,
  the \<open>=======\<close> line, the lines of their side and the \<open>>>>>>>>\<close> line with its label.
  In a well-formed file no line of content starts with one of the three markers, and
  no line holds a line feed.
\<close>

datatype segment =
    Plain string
  | Conflict string "string list" string "string list" string

fun renderSegment :: "segment \<Rightarrow> string list" where
  "renderSegment (Plain l) = [l]"
| "renderSegment (Conflict oursLabel ours sepRest theirs theirsLabel) =
     (''<<<<<<<'' @ oursLabel) # ours @ (''======='' @ sepRest) # theirs @ [''>>>>>>>'' @ theirsLabel]"

definition renderFile :: "segment list \<Rightarrow> string" where
  "renderFile segs = joinWith CHR 0x0A (concat (map renderSegment segs))"

definition isContentLine :: "string \<Rightarrow> bool" where
  "isContentLine l =
     (CHR 0x0A \<notin> set l \<and> \<not> startsWith l ''<<<<<<<'' \<and> \<not> startsWith l ''=======''
      \<and> \<not> startsWith l ''>>>>>>>'')"

fun wellFormedSegment :: "segment \<Rightarrow> bool" where
  "wellFormedSegment (Plain l) = isContentLine l"
| "wellFormedSegment (Conflict oursLabel ours sepRest theirs theirsLabel) =
     (list_all isContentLine ours \<and> list_all isContentLine theirs
      \<and> CHR 0x0A \<notin> set oursLabel \<and> CHR 0x0A \<notin> set sepRest \<and> CHR 0x0A \<notin> set theirsLabel)"

fun oursSide :: "segment \<Rightarrow> string list" where
  "oursSide (Plain l) = [l]"
| "oursSide (Conflict oursLabel ours sepRest theirs theirsLabel) = ours"

fun bothSides :: "segment \<Rightarrow> string list" where
  "bothSides (Plain l) = [l]"
| "bothSides (Conflict oursLabel ours sepRest theirs theirsLabel) = ours @ theirs"

text \<open>
  The lines of a list that are not blank, each kept only where its trimmed content
  occurs for the first time (and is not among \<open>seen\<close>).
\<close>

fun firstSeen :: "string list \<Rightarrow> string list \<Rightarrow> string list" where
  "firstSeen seen [] = []"
| "firstSeen seen (l # ls) =
     (if trim l \<noteq> [] \<and> trim l \<notin> set seen then l # firstSeen (seen @ [trim l]) ls
      else firstSeen seen ls)"


section \<open>The review lifecycle (prOperations.js)\<close>

definition toLowerCase :: "string \<Rightarrow> string" where
  "toLowerCase s =
     map (\<lambda>c. if (65::nat) \<le> of_char c \<and> of_char c \<le> (90::nat)
              then char_of (of_char c + (32::nat)) else c) s"

definition detectPlatform :: "string option \<Rightarrow> string option" where
  "detectPlatform repoUrl =
     (case repoUrl of
        None \<Rightarrow> None
      | Some u \<Rightarrow>
          if u = [] then None
          else let l = toLowerCase u in
            if includesStr l ''github.com'' then Some ''github''
            else if includesStr l ''gitlab.com'' \<or> includesStr l ''gitlab'' then Some ''gitlab''
            else if includesStr l ''bitbucket.org'' \<or> includesStr l ''bitbucket'' then Some ''bitbucket''
            else None)"

definition authHeader :: "string \<Rightarrow> string" where
  "authHeader token =
     (if startsWith token ''ghp_'' \<or> startsWith token ''github_pat_''
      then ''Bearer '' @ token else ''token '' @ token)"

definition githubRequest :: "string \<Rightarrow> string \<Rightarrow> string \<Rightarrow> requestOptions" where
  "githubRequest verb apiPath token =
     \<lparr>protocol = ''https:'', hostname = ''api.github.com'', port = PortNum 443, path = apiPath,
      httpMethod = verb,
      headers = [(''Authorization'', authHeader token), (''User-Agent'', ''Auto-Git'')]
                @ (if verb = ''GET'' then [] else [(''Content-Type'', ''application/json'')])
                @ [(''Accept'', ''application/vnd.github.v3+json'')]\<rparr>"

text \<open>\<open>makeRequest(options, data, 30000)\<close>, the requests it issues recorded as effects.\<close>

definition apiCall ::
  "'w gitEnv \<Rightarrow> requestOptions \<Rightarrow> apiData option \<Rightarrow> 'w state
     \<Rightarrow> (jsError + apiData response) \<times> 'w state" where
  "apiCall env options dat s =
     (case makeRequest \<lparr>request = apiRequest env, parseURL = apiParseURL env\<rparr> options dat 30000 0 (fst s) of
        (r, w', issued) \<Rightarrow> (r, (w', snd s @ map Http issued)))"

definition errorText :: "jsError \<Rightarrow> string" where
  "errorText e = (case e of TypeError m \<Rightarrow> m | Error m \<Rightarrow> m)"

record findResult = opResult +
  found :: bool
  foundNumber :: "nat option"
  foundUrl :: "string option"
  foundMerged :: bool

definition isOpenPullFor :: "string \<Rightarrow> string \<Rightarrow> pullRequest \<Rightarrow> bool" where
  "isOpenPullFor branchName baseBranch pr =
     (headRef pr = branchName \<and> baseRef pr = baseBranch \<and> prState pr = ''open'')"

definition findPRForBranch ::
  "'w gitEnv \<Rightarrow> repoInfo \<Rightarrow> string \<Rightarrow> string \<Rightarrow> string \<Rightarrow> 'w state \<Rightarrow> findResult \<times> 'w state" where
  "findPRForBranch env info branchName baseBranch token s =
     (let options = githubRequest ''GET''
            (''/repos/'' @ owner info @ ''/'' @ repo info @ ''/pulls?head=''
               @ encodeURIComponent env (owner info @ '':'' @ branchName) @ ''&state=open'') token
      in
      case apiCall env options None s of
        (Inl err, s1) \<Rightarrow>
          (\<lparr>success = False, message = ''Error searching for existing PR: '' @ errorText err,
            found = False, foundNumber = None, foundUrl = None, foundMerged = False\<rparr>, s1)
      | (Inr response, s1) \<Rightarrow>
          if 200 \<le> status response \<and> status response < 300 then
            (let prs = (case data response of PullList l \<Rightarrow> l | _ \<Rightarrow> []);
                 matchingPRs = filter (isOpenPullFor branchName baseBranch) prs
             in case matchingPRs of
                  pr # rest \<Rightarrow>
                    (\<lparr>success = True, message = [], found = True, foundNumber = number pr,
                      foundUrl = html_url pr, foundMerged = merged pr\<rparr>, s1)
                | [] \<Rightarrow>
                    (\<lparr>success = True, message = [], found = False, foundNumber = None,
                      foundUrl = None, foundMerged = False\<rparr>, s1))
          else
            (\<lparr>success = False,
              message = ''Failed to search for existing PR: ''
                 @ (case data response of
                      ErrorObject m e errs \<Rightarrow> if m = [] then ''Unknown error'' else m
                    | _ \<Rightarrow> ''Unknown error''),
              found = False, foundNumber = None, foundUrl = None, foundMerged = False\<rparr>, s1))"

definition errorMessageOf :: "'w gitEnv \<Rightarrow> apiData \<Rightarrow> string" where
  "errorMessageOf env d =
     (case d of
        ErrorObject m e errs \<Rightarrow>
          if m \<noteq> [] then m
          else if e \<noteq> [] then e
          else (case errs of
                  Some texts \<Rightarrow> joinText '', '' texts
                | None \<Rightarrow> stringify env d)
      | BareString t \<Rightarrow> if t = [] then ''Unknown error'' else t
      | _ \<Rightarrow> stringify env d)"

record createResult = opResult +
  createdNumber :: "nat option"
  createdUrl :: "string option"

definition createGitHubPR ::
  "'w gitEnv \<Rightarrow> repoInfo \<Rightarrow> string \<Rightarrow> string \<Rightarrow> string \<Rightarrow> string option \<Rightarrow> string option
     \<Rightarrow> 'w state \<Rightarrow> createResult \<times> 'w state" where
  "createGitHubPR env info branchName baseBranch token title body s =
     (let options = githubRequest ''POST'' (''/repos/'' @ owner info @ ''/'' @ repo info @ ''/pulls'') token;
          prData = CreateBody
            (case title of Some t \<Rightarrow> if t = [] then ''Auto PR for '' @ branchName else t
                         | None \<Rightarrow> ''Auto PR for '' @ branchName)
            (case body of Some b \<Rightarrow> if b = [] then ''Automated pull request for branch '' @ branchName else b
                        | None \<Rightarrow> ''Automated pull request for branch '' @ branchName)
            branchName
            (if baseBranch = [] then ''main'' else baseBranch)
      in
      case apiCall env options (Some prData) s of
        (Inl err, s1) \<Rightarrow>
          (\<lparr>success = False, message = ''Error creating GitHub PR: '' @ errorText err,
            createdNumber = None, createdUrl = None\<rparr>, s1)
      | (Inr response, s1) \<Rightarrow>
          if 200 \<le> status response \<and> status response < 300 then
            (let n = (case data response of PullObject pr \<Rightarrow> number pr | _ \<Rightarrow> None);
                 u = (case data response of PullObject pr \<Rightarrow> html_url pr | _ \<Rightarrow> None)
             in (\<lparr>success = True,
                   message = ''PR #'' @ (case n of Some k \<Rightarrow> stringOfNat k | None \<Rightarrow> ''undefined'')
                               @ '' created successfully'',
                   createdNumber = n, createdUrl = u\<rparr>, s1))
          else
            (\<lparr>success = False,
              message = ''Failed to create PR (HTTP '' @ stringOfNat (status response) @ ''): ''
                          @ errorMessageOf env (data response),
              createdNumber = None, createdUrl = None\<rparr>, s1))"

record prOptions =
  optBaseBranch :: string
  optPlatform :: "string option"
  optAutoMerge :: bool
  optMergeMethod :: string
  optTitle :: "string option"
  optBody :: "string option"

record prOutcome = opResult +
  prCreated :: "bool option"
  prNumber :: "nat option"
  prUrl :: "string option"
  prMerged :: "bool option"
  mergeMessage :: "string option"

definition prFailed :: "string \<Rightarrow> prOutcome" where
  "prFailed msg = \<lparr>success = False, message = msg, prCreated = None, prNumber = None, prUrl = None,
                    prMerged = None, mergeMessage = None\<rparr>"

definition numberText :: "nat option \<Rightarrow> string" where
  "numberText n = (case n of Some k \<Rightarrow> stringOfNat k | None \<Rightarrow> ''undefined'')"

text \<open>
  \<open>createAndMergePR\<close>.  \<open>mergeGitHubPR\<close> polls the request's status, merges it and,
  on a conflict, updates the branch; it sends \<open>GET\<close> and \<open>PUT\<close> requests for the one
  request number and runs repository commands, and creates no request.  It is a
  primitive of the environment here.  The waits between the steps change nothing and
  are left out.
\<close>

definition createAndMergePR ::
  "'w gitEnv \<Rightarrow> string option \<Rightarrow> string \<Rightarrow> string \<Rightarrow> prOptions \<Rightarrow> 'w state \<Rightarrow> prOutcome \<times> 'w state" where
  "createAndMergePR env repoUrl branchName token opts s =
     (let baseBranch = optBaseBranch opts;
          detectedPlatform = (case optPlatform opts of
                                Some p \<Rightarrow> if p = [] then detectPlatform repoUrl else Some p
                              | None \<Rightarrow> detectPlatform repoUrl)
      in
      case detectedPlatform of
        None \<Rightarrow>
          (prFailed ''Could not detect platform from repository URL. Please specify platform.'', s)
      | Some platformName \<Rightarrow>
      case (case repoUrl of None \<Rightarrow> None | Some u \<Rightarrow> if u = [] then None else parseRepoUrl env u) of
        None \<Rightarrow> (prFailed ''Could not parse repository URL'', s)
      | Some info \<Rightarrow>
      if platformName \<noteq> ''github'' then
        (prFailed (''Platform '' @ platformName
                     @ '' is not yet supported. Currently only GitHub is supported.''), s)
      else
      case findPRForBranch env info branchName baseBranch token s of (existingPRResult, s1) \<Rightarrow>
      case (if success existingPRResult \<and> found existingPRResult then
              ((True, \<lparr>success = True,
                        message = ''Using existing PR #'' @ numberText (foundNumber existingPRResult),
                        createdNumber = foundNumber existingPRResult,
                        createdUrl = foundUrl existingPRResult\<rparr>), s1)
            else
              (case createGitHubPR env info branchName baseBranch token (optTitle opts) (optBody opts) s1 of
                 (created, s2) \<Rightarrow> ((False, created), s2))) of
        ((existing, prResult), s2) \<Rightarrow>
      if \<not> success prResult then
        (prFailed (message prResult), s2)
      else
      let result = \<lparr>success = True,
                    message = (if existing then ''Found existing PR #'' @ numberText (createdNumber prResult)
                               else message prResult),
                    prCreated = Some (\<not> existing), prNumber = createdNumber prResult,
                    prUrl = createdUrl prResult, prMerged = None, mergeMessage = None\<rparr>
      in
      if \<not> optAutoMerge opts then (result, s2)
      else if existing \<and> foundMerged existingPRResult then
        (result\<lparr>prMerged := Some True, mergeMessage := Some ''PR was already merged'',
                 message := message result @ '' | Already merged''\<rparr>, s2)
      else
        (case perform (MergePR (createdNumber prResult))
                (mergeGitHubPR env info (createdNumber prResult) token (optMergeMethod opts)
                   branchName baseBranch) s2 of
           (mergeResult, s3) \<Rightarrow>
             (result\<lparr>prMerged := Some (success mergeResult),
                      mergeMessage := Some (message mergeResult),
                      message := message result
                         @ (if success mergeResult then '' | Merged successfully''
                            else '' | Merge failed: '' @ message mergeResult)\<rparr>, s3)))"


section \<open>One assignment (processDate)\<close>

record prSettings =
  poCreatePR :: bool
  poAutoMerge :: bool
  poToken :: "string option"
  poBaseBranch :: string
  poPlatform :: "string option"
  poMergeMethod :: string

record dateResults =
  resDate :: string
  resBranch :: "string option"
  resBranchResult :: "branchResult option"
  resCommits :: "commitsResult option"
  resPush :: "opResult option"
  resPr :: "prOutcome option"

record processResult = opResult +
  results :: dateResults

text \<open>
  Check out \<open>main\<close>, else \<open>master\<close>, else stay on the current branch; after a checkout
  pull the remote's state, a failure of the pull being ignored.
\<close>

definition checkoutBase :: "'w gitEnv \<Rightarrow> string \<Rightarrow> 'w state \<Rightarrow> string \<times> 'w state" where
  "checkoutBase git remote s =
     (case perform (Checkout ''main'') (gitCheckout git ''main'') s of
        (Inr u, s1) \<Rightarrow> (''main'', snd (perform (Pull remote ''main'') (gitPull git remote ''main'') s1))
      | (Inl e, s1) \<Rightarrow>
          (case perform (Checkout ''master'') (gitCheckout git ''master'') s1 of
             (Inr u, s2) \<Rightarrow>
               (''master'', snd (perform (Pull remote ''master'') (gitPull git remote ''master'') s2))
           | (Inl e2, s2) \<Rightarrow>
               (case perform RevparseHead (gitRevparseHead git) s2 of
                  (Inr currentBranch, s3) \<Rightarrow> (currentBranch, s3)
                | (Inl e3, s3) \<Rightarrow> (''unknown'', s3))))"

definition requestReview ::
  "'w gitEnv \<Rightarrow> string \<Rightarrow> string \<Rightarrow> string \<Rightarrow> string \<Rightarrow> prSettings \<Rightarrow> 'w state
     \<Rightarrow> prOutcome \<times> 'w state" where
  "requestReview env dateStr branchName baseBranch remote po s =
     (case perform (GetRemoteUrl remote) (getRemoteUrl env remote) s of (repoUrl, s1) \<Rightarrow>
      if repoUrl = None \<or> repoUrl = Some [] then
        (prFailed ''Could not get remote URL for PR creation'', s1)
      else if poToken po = None \<or> poToken po = Some [] then
        (prFailed ''API token is required for PR creation'', s1)
      else
        createAndMergePR env repoUrl branchName (the (poToken po))
          \<lparr>optBaseBranch = (if poBaseBranch po = [] then baseBranch else poBaseBranch po),
           optPlatform = poPlatform po,
           optAutoMerge = poAutoMerge po,
           optMergeMethod = (if poMergeMethod po = [] then ''merge'' else poMergeMethod po),
           optTitle = Some (''Auto PR for '' @ dateStr),
           optBody = Some (''Automated pull request for date '' @ dateStr)\<rparr> s1)"

definition processDate ::
  "'w gitEnv \<Rightarrow> jsdate \<Rightarrow> nat \<Rightarrow> string \<Rightarrow> prSettings option \<Rightarrow> string option \<Rightarrow> 'w state
     \<Rightarrow> processResult \<times> 'w state" where
  "processDate env date commitCount remote prOpts repoPath s =
     (let dateStr = formatDate date;
          branchName = ''auto-'' @ dateStr;
          r0 = \<lparr>resDate = dateStr, resBranch = Some branchName, resBranchResult = None,
                resCommits = None, resPush = None, resPr = None\<rparr>
      in
      case checkoutBase env remote s of (baseBranch, s1) \<Rightarrow>
      case createBranch env branchName remote False s1 of (branchRes, s2) \<Rightarrow>
      let r1 = r0\<lparr>resBranchResult := Some branchRes\<rparr> in
      if \<not> success branchRes then
        (\<lparr>success = False, message = ''Failed to create branch: '' @ message branchRes, results = r1\<rparr>, s2)
      else
      case createCommits env commitCount dateStr repoPath s2 of (commitRes, s3) \<Rightarrow>
      let r2 = r1\<lparr>resCommits := Some commitRes\<rparr> in
      if \<not> success commitRes then
        (\<lparr>success = False, message = ''Failed to create commits: '' @ message commitRes, results = r2\<rparr>, s3)
      else
      case pushBranch env branchName remote False s3 of (pushRes, s4) \<Rightarrow>
      let r3 = r2\<lparr>resPush := Some pushRes\<rparr> in
      if \<not> success pushRes then
        (\<lparr>success = False, message = ''Failed to push: '' @ message pushRes, results = r3\<rparr>, s4)
      else
      let s5 = snd (perform (LogBranch branchName) (gitLog env [branchName, ''-1'']) s4) in
      case (case prOpts of
              None \<Rightarrow> (None, s5)
            | Some po \<Rightarrow>
                if poCreatePR po then
                  (case requestReview env dateStr branchName baseBranch remote po s5 of
                     (prRes, s6) \<Rightarrow> (Some prRes, s6))
                else (None, s5)) of
        (prRes, s6) \<Rightarrow>
          (\<lparr>success = True, message = ''Successfully processed '' @ dateStr,
            results = r3\<lparr>resPr := prRes\<rparr>\<rparr>, s6))"


section \<open>The run (the \<open>/api/process-stream\<close> handler, continued)\<close>

text \<open>
  The loop over the plan.  \<open>proc\<close> is the call of \<open>processDate\<close> inside the \<open>try\<close>:
  \<open>Inr\<close> is the result it returns, \<open>Inl\<close> the message of an exception it throws,
  which the \<open>catch\<close> turns into a failed result for the same date.
\<close>

definition exceptionResult :: "jsdate \<Rightarrow> string \<Rightarrow> processResult" where
  "exceptionResult date msg =
     \<lparr>success = False, message = ''Exception: '' @ msg,
      results = \<lparr>resDate = formatDate date, resBranch = None, resBranchResult = None,
                 resCommits = None, resPush = None, resPr = None\<rparr>\<rparr>"

fun processDates ::
  "(jsdate \<Rightarrow> nat \<Rightarrow> 'w state \<Rightarrow> (string + processResult) \<times> 'w state)
     \<Rightarrow> jsdate list \<Rightarrow> nat list \<Rightarrow> nat \<Rightarrow> processResult list \<Rightarrow> 'w state
     \<Rightarrow> processResult list \<times> 'w state" where
  "processDates proc [] counts i acc s = (acc, s)"
| "processDates proc (date # rest) counts i acc s =
     (let commitsForThisBranch = (if i < length counts then counts ! i else 0) in
      case proc date commitsForThisBranch s of
        (Inr result, s1) \<Rightarrow> processDates proc rest counts (i + 1) (acc @ [result]) s1
      | (Inl msg, s1) \<Rightarrow>
          processDates proc rest counts (i + 1) (acc @ [exceptionResult date msg]) s1)"

record runSummary =
  runResults :: "processResult list"
  successCount :: nat
  failureCount :: nat
  numBranches :: nat
  runAdjustedBranches :: bool

definition summarize :: "workPlan \<Rightarrow> processResult list \<Rightarrow> runSummary" where
  "summarize plan rs =
     (let ok = length (filter success rs) in
      \<lparr>runResults = rs, successCount = ok, failureCount = length rs - ok,
       numBranches = actualNumBranches plan, runAdjustedBranches = adjustedBranches plan\<rparr>)"

subsection \<open>The request\<close>

text \<open>
  The fields of the form that the handler reads, after \<open>JSON.parse\<close>; a field that is
  absent is \<open>None\<close>.  The dates, the counts, the paths and the names are strings, as
  the form sends them; \<open>createPR\<close> and \<open>autoMerge\<close> stand for their truth values;
  \<open>coAuthors\<close> is an array of names or, from a client that sends the content of its
  input box, a string.
\<close>

datatype coAuthorsField = CoAuthorList "string list" | CoAuthorText string

record formData =
  formStartDate :: "string option"
  formEndDate :: "string option"
  formNumBranches :: "string option"
  formTotalCommits :: "string option"
  formRepoPath :: "string option"
  formRemote :: "string option"
  formCountry :: "string option"
  formCoAuthors :: "coAuthorsField option"
  formCreatePR :: bool
  formAutoMerge :: bool
  formPrToken :: "string option"
  formBaseBranch :: "string option"
  formPlatform :: "string option"
  formMergeMethod :: "string option"

text \<open>\<open>!!field\<close>, the text of a field, and \<open>field || fallback\<close>.\<close>

definition truthy :: "string option \<Rightarrow> bool" where
  "truthy field = (case field of None \<Rightarrow> False | Some t \<Rightarrow> t \<noteq> [])"

definition fieldText :: "string option \<Rightarrow> string" where
  "fieldText field = (case field of None \<Rightarrow> [] | Some t \<Rightarrow> t)"

definition orElse :: "string option \<Rightarrow> string \<Rightarrow> string" where
  "orElse field fallback = (if truthy field then fieldText field else fallback)"

text \<open>
  The logging of the co-authors, \<open>if (coAuthors && coAuthors.length > 0)
  console.log(... coAuthors.join(', ') ...)\<close>: a string that is not empty has a positive
  length and no \<open>join\<close>, and the call throws.
\<close>

definition logCoAuthors :: "coAuthorsField option \<Rightarrow> jsError + unit" where
  "logCoAuthors coAuthors =
     (case coAuthors of
        Some (CoAuthorText names) \<Rightarrow>
          if names \<noteq> [] then Inl (TypeError ''coAuthors.join is not a function'') else Inr ()
      | _ \<Rightarrow> Inr ())"

text \<open>
  The handler up to the plan: the logging, the check of the required fields, the two
  \<open>parseInt\<close>, the two \<open>new Date\<close>, and the validation and partition of \<open>planWork\<close>.
\<close>

definition planRequest :: "runtime \<Rightarrow> formData \<Rightarrow> rng \<Rightarrow> (planError + workPlan) \<times> rng" where
  "planRequest rt form g =
     (case logCoAuthors (formCoAuthors form) of
        Inl err \<Rightarrow> (Inl (ServerError err), g)
      | Inr u \<Rightarrow>
          if \<not> truthy (formStartDate form) \<or> \<not> truthy (formEndDate form)
             \<or> formNumBranches form = None \<or> formTotalCommits form = None
             \<or> \<not> truthy (formRepoPath form)
          then (Inl MissingRequiredFields, g)
          else planWork rt (parseInt rt (fieldText (formNumBranches form)))
                 (parseInt rt (fieldText (formTotalCommits form)))
                 (newDate rt (fieldText (formStartDate form)))
                 (newDate rt (fieldText (formEndDate form)))
                 (fieldText (formCountry form)) g)"

text \<open>\<open>prOptions\<close>: the options of the review lifecycle when \<open>createPR\<close> is set.\<close>

definition prOptionsOf :: "formData \<Rightarrow> prSettings option" where
  "prOptionsOf form =
     (if formCreatePR form then
        Some \<lparr>poCreatePR = True, poAutoMerge = formAutoMerge form, poToken = formPrToken form,
              poBaseBranch = orElse (formBaseBranch form) ''main'',
              poPlatform = formPlatform form,
              poMergeMethod = orElse (formMergeMethod form) ''merge''\<rparr>
      else None)"

text \<open>
  The handler: the plan, the opening of the repository, the loop, the summary.  An
  exception of \<open>initGit\<close> reaches the outer \<open>catch\<close>.
\<close>

definition processStream ::
  "runtime \<Rightarrow> 'w gitEnv \<Rightarrow> formData \<Rightarrow> rng \<Rightarrow> 'w state \<Rightarrow> (planError + runSummary) \<times> 'w state" where
  "processStream rt env form g s =
     (case planRequest rt form g of
        (Inl err, g') \<Rightarrow> (Inl err, s)
      | (Inr plan, g') \<Rightarrow>
          (case perform (InitGit (fieldText (formRepoPath form)))
                  (initGit env (fieldText (formRepoPath form))) s of
             (Inl msg, s1) \<Rightarrow> (Inl (ServerError (Error msg)), s1)
           | (Inr actualRepoPath, s1) \<Rightarrow>
               (case processDates
                       (\<lambda>date n st.
                          case processDate env date n (orElse (formRemote form) ''origin'')
                                 (prOptionsOf form) (Some actualRepoPath) st of
                            (r, st') \<Rightarrow> (Inr r, st'))
                       (datesToProcess plan) (commitsPerBranch plan) 0 [] s1 of
                  (rs, s2) \<Rightarrow> (Inr (summarize plan rs), s2))))"

subsection \<open>A runtime for the examples\<close>

text \<open>
  Node.js in a process whose time zone is UTC, as far as the examples go: the sort is
  the one of V8, \<open>parseInt\<close> reads a plain decimal numeral of at most 15 digits and
  \<open>new Date\<close> a calendar date written \<open>YYYY-MM-DD\<close>, which is midnight of that day.
  No other text is parsed in the examples; the runtime reads it as \<open>NaN\<close> or an invalid
  date.
\<close>

definition decimalNumeral :: "string \<Rightarrow> int option" where
  "decimalNumeral t =
     (if t = [] \<or> 15 < length t then None else map_option int (Number t))"

definition isoDay :: "string \<Rightarrow> jsdate option" where
  "isoDay t =
     (case splitOn CHR ''-'' t of
        [y, m, d] \<Rightarrow>
          (case (Number y, Number m, Number d) of
             (Some year, Some month, Some day) \<Rightarrow>
               if length y = 4 \<and> length m = 2 \<and> length d = 2
                  \<and> civilFromDays (daysFromCivil (int year) month day) = (int year, month, day)
               then Some \<lparr>dayNo = daysFromCivil (int year) month day, msOfDay = 0\<rparr>
               else None
           | _ \<Rightarrow> None)
      | _ \<Rightarrow> None)"

definition nodeAtUTC :: runtime where
  "nodeAtUTC = \<lparr>arraySort = v8Sort, parseInt = decimalNumeral, newDate = isoDay\<rparr>"

subsection \<open>The request of the examples\<close>

text \<open>Three branches and three commits over 2024-01-02 .. 2024-01-04, no review.\<close>

definition demoForm :: formData where
  "demoForm =
     \<lparr>formStartDate = Some ''2024-01-02'', formEndDate = Some ''2024-01-04'',
      formNumBranches = Some ''3'', formTotalCommits = Some ''3'',
      formRepoPath = Some ''/repo'', formRemote = None, formCountry = None,
      formCoAuthors = None, formCreatePR = False, formAutoMerge = False, formPrToken = None,
      formBaseBranch = None, formPlatform = None, formMergeMethod = None\<rparr>"

subsection \<open>Effects of a step\<close>

text \<open>The effects recorded between two states, and the pushes among a list of effects.\<close>

definition effectsSince :: "'w state \<Rightarrow> 'w state \<Rightarrow> effect list" where
  "effectsSince s s' = drop (length (snd s)) (snd s')"

fun isPush :: "effect \<Rightarrow> bool" where
  "isPush (Push remote ref force) = True"
| "isPush e = False"


subsection \<open>A remote that denies non-fast-forward updates\<close>

text \<open>
  A scripted environment over the trivial world.  The remote \<open>origin\<close> already has the
  branch of 2024-01-02 and is configured to deny deletions and non-fast-forward updates:
  it rejects the deletion, the push and the forced push.  Everything else succeeds.
\<close>

definition denyingRemote :: "unit gitEnv" where
  "denyingRemote =
     \<lparr>gitBranchLocal = (\<lambda>w. (Inr [''main''], w)),
      gitFetch = (\<lambda>remote w. (Inr (), w)),
      gitBranchRemotes = (\<lambda>w. (Inr [''origin/main'', ''origin/auto-2024-01-02''], w)),
      gitPush = (\<lambda>remote ref force w.
         (if startsWith ref '':'' then Inl ''! [remote rejected] (deletion prohibited)''
          else if force then Inl ''! [remote rejected] (non-fast-forward)''
          else Inl ''! [rejected] (non-fast-forward)'', w)),
      gitCheckout = (\<lambda>branchName w. (Inr (), w)),
      gitCheckoutLocalBranch = (\<lambda>branchName w. (Inr (), w)),
      gitRevparseHead = (\<lambda>w. (Inr ''auto-2024-01-02'', w)),
      gitGetRemotes = (\<lambda>w. (Inr [''origin''], w)),
      gitPull = (\<lambda>remote branchName w. (Inr (), w)),
      gitCwd = (\<lambda>w. (Inr None, w)),
      fsExistsSync = (\<lambda>p w. (False, w)),
      fsReadFileSync = (\<lambda>p w. (Inr [], w)),
      fsWriteFileSync = (\<lambda>p content w. (Inr (), w)),
      gitAdd = (\<lambda>file w. (Inr (), w)),
      gitCommit = (\<lambda>msg date w. (Inr (), w)),
      gitLog = (\<lambda>args w. (Inr None, w)),
      utcOffsetMs = 0,
      getRemoteUrl = (\<lambda>remote w. (None, w)),
      apiRequest = (\<lambda>options dat w. (RequestError ''offline'', w)),
      apiParseURL = (\<lambda>loc base. Inl ''Invalid URL''),
      encodeURIComponent = (\<lambda>x. x),
      stringify = (\<lambda>d. ''{}''),
      parseRepoUrl = (\<lambda>u. None),
      mergeGitHubPR = (\<lambda>info n token mergeMethod branchName baseBranch w.
         (\<lparr>success = False, message = ''offline''\<rparr>, w)),
      initGit = (\<lambda>repoPath w. (Inr repoPath, w))\<rparr>"


text \<open>
  The same remote when it accepts a forced push (Scenario C of the specification), and
  when it refuses every push for a reason other than history.
\<close>

definition divergedRemote :: "unit gitEnv" where
  "divergedRemote =
     denyingRemote\<lparr>gitPush := (\<lambda>remote ref force w.
        (if force then Inr () else Inl ''! [rejected] (non-fast-forward)'', w))\<rparr>"

definition readOnlyRemote :: "unit gitEnv" where
  "readOnlyRemote =
     denyingRemote\<lparr>gitPush := (\<lambda>remote ref force w. (Inl ''Permission denied (publickey)'', w))\<rparr>"


subsection \<open>The commits as the specification words them\<close>

text \<open>
  The line appended for commit \<open>i\<close> (counted from 0), the content of the file after
  \<open>k\<close> commits on top of \<open>content0\<close>, and the four steps that make commit \<open>i\<close>.
\<close>

definition commitLine :: "string \<Rightarrow> string \<Rightarrow> nat \<Rightarrow> string" where
  "commitLine date timestamp i =
     date @ '' - Commit '' @ stringOfNat (i + 1) @ '' at '' @ timestamp"

definition contentAfter :: "string \<Rightarrow> string \<Rightarrow> string \<Rightarrow> nat \<Rightarrow> string" where
  "contentAfter content0 date timestamp k =
     content0 @ concat (map (\<lambda>i. commitLine date timestamp i @ [CHR 0x0A]) [0..<k])"

definition commitSteps :: "string \<Rightarrow> string \<Rightarrow> string \<Rightarrow> string \<Rightarrow> nat \<Rightarrow> effect list" where
  "commitSteps filePath content0 date timestamp i =
     [WriteFileSync filePath (contentAfter content0 date timestamp (Suc i)),
      Add ''commits.txt'',
      Commit (''Auto commit '' @ stringOfNat (i + 1) @ '' for '' @ date) timestamp,
      Log1]"

fun isCommitStep :: "effect \<Rightarrow> bool" where
  "isCommitStep (WriteFileSync p c) = True"
| "isCommitStep (Add f) = True"
| "isCommitStep (Commit m d) = True"
| "isCommitStep Log1 = True"
| "isCommitStep e = False"

fun isCommit :: "effect \<Rightarrow> bool" where
  "isCommit (Commit m d) = True"
| "isCommit e = False"


subsection \<open>The run as the specification words it\<close>

text \<open>The record an assignment gets from what its processing returned or threw.\<close>

definition recordOf :: "jsdate \<Rightarrow> string + processResult \<Rightarrow> processResult" where
  "recordOf date outcome = (case outcome of Inr r \<Rightarrow> r | Inl msg \<Rightarrow> exceptionResult date msg)"

text \<open>The commit count of assignment \<open>i\<close>.\<close>

definition countAt :: "nat list \<Rightarrow> nat \<Rightarrow> nat" where
  "countAt counts i = (if i < length counts then counts ! i else 0)"

text \<open>The state in which each assignment of the plan starts, the first one in \<open>s\<close>.\<close>

fun startStates ::
  "(jsdate \<Rightarrow> nat \<Rightarrow> 'w state \<Rightarrow> (string + processResult) \<times> 'w state)
     \<Rightarrow> jsdate list \<Rightarrow> nat list \<Rightarrow> nat \<Rightarrow> 'w state \<Rightarrow> 'w state list" where
  "startStates proc [] counts i s = []"
| "startStates proc (date # rest) counts i s =
     s # startStates proc rest counts (i + 1) (snd (proc date (countAt counts i) s))"

text \<open>The call of \<open>processDate\<close> the handler makes.\<close>

definition processDateCall ::
  "'w gitEnv \<Rightarrow> string \<Rightarrow> prSettings option \<Rightarrow> string
     \<Rightarrow> jsdate \<Rightarrow> nat \<Rightarrow> 'w state \<Rightarrow> (string + processResult) \<times> 'w state" where
  "processDateCall env remote prOpts actualRepoPath date n st =
     (case processDate env date n remote prOpts (Some actualRepoPath) st of
        (r, st') \<Rightarrow> (Inr r, st'))"

text \<open>
  The content \<open>createCommits\<close> starts from: what \<open>commits.txt\<close> holds when it exists, else
  nothing.
\<close>

definition initialContent :: "'w gitEnv \<Rightarrow> string \<Rightarrow> 'w state \<Rightarrow> string" where
  "initialContent git filePath s =
     (case fsExistsSync git filePath (fst s) of
        (fileExists, w1) \<Rightarrow>
          if fileExists then
            (case fsReadFileSync git filePath w1 of
               (Inr content, w2) \<Rightarrow> content
             | (Inl msg, w2) \<Rightarrow> [])
          else [])"


section \<open>Properties of the calendar filter\<close>

lemma stringOfNat_small: "n < 10 \<Longrightarrow> stringOfNat n = [digitChar n]"
  by (subst stringOfNat.simps) simp

lemma stringOfNat_large: "10 \<le> n \<Longrightarrow> stringOfNat n = stringOfNat (n div 10) @ [digitChar n]"
  by (subst stringOfNat.simps) simp

lemma getValidDatesLoop_done:
  "\<not> dateLe c e \<Longrightarrow> getValidDatesLoop c e cc acc = Inr acc"
  by (subst getValidDatesLoop.simps) simp

lemma getValidDatesLoop_step:
  "dateLe c e \<Longrightarrow> getValidDatesLoop c e cc acc =
     (case shouldExcludeDate c cc of
        Inl err \<Rightarrow> Inl err
      | Inr excluded \<Rightarrow>
          getValidDatesLoop (nextDay c) e cc (if excluded then acc else acc @ [c]))"
  by (subst getValidDatesLoop.simps) simp

lemmas calendar_eval =
  civilFromDays_def civilOfEra_def civilOfYearOfEra_def civilOfDayOfYear_def
  daysFromCivil_def daysFromMarchYear_def daysOfEra_def
  getFullYear_def getMonth_def getDate_def getDay_def isSunday_def dateLe_def nextDay_def

lemma replicate_numeral: "replicate (numeral k) x = x # replicate (pred_numeral k) x"
  by (simp add: numeral_eq_Suc)

lemmas string_eval =
  stringOfNat_small stringOfNat_large stringOfInt_def digitChar_def padStart2_def
  startsWith_def endsWith_def replicate_numeral

lemmas filter_eval =
  getValidDates_def getValidDatesLoop_done getValidDatesLoop_step shouldExcludeDate_def
  isHoliday_def getHolidaysForCountry_def getProperty_def COUNTRY_HOLIDAYS_def
  objectPrototypeKeys_def

lemma getProperty_NONE: "getProperty ''NONE'' = HolidayArray []"
  by (simp add: getProperty_def COUNTRY_HOLIDAYS_def)

lemma list_ex_pair: "list_ex (\<lambda>h. fst h = a \<and> snd h = b) hs = ((a, b) \<in> set hs)"
  by (induction hs) auto

lemma map_of_NONE: "map_of COUNTRY_HOLIDAYS ''NONE'' = Some []"
  by (simp add: COUNTRY_HOLIDAYS_def)

lemma isHoliday_listed:
  assumes "countryCode \<notin> set objectPrototypeKeys"
  shows "isHoliday d countryCode = Inr (isListedHoliday d countryCode)"
proof (cases "map_of COUNTRY_HOLIDAYS countryCode")
  case None
  with assms show ?thesis
    by (simp add: isHoliday_def getHolidaysForCountry_def getProperty_def map_of_NONE
        isListedHoliday_def)
next
  case (Some hs)
  then show ?thesis
    by (simp add: isHoliday_def getHolidaysForCountry_def getProperty_def
        isListedHoliday_def list_ex_pair)
qed

lemma shouldExcludeDate_listed:
  assumes "countryCode \<notin> set objectPrototypeKeys"
  shows "shouldExcludeDate d countryCode = Inr (isSunday d \<or> isListedHoliday d countryCode)"
  using assms by (simp add: shouldExcludeDate_def isHoliday_listed)

lemma datesInRange_unfold:
  "datesInRange s e = (if dateLe s e then s # datesInRange (nextDay s) e else [])"
proof (cases "dateLe s e")
  case False
  then show ?thesis by (auto simp: datesInRange_def dateLe_def)
next
  case True
  define n where "n = nat (dayNo e - dayNo (nextDay s) + (if msOfDay (nextDay s) \<le> msOfDay e then 1 else 0))"
  have cnt: "nat (dayNo e - dayNo s + (if msOfDay s \<le> msOfDay e then 1 else 0)) = Suc n"
    using True by (auto simp: n_def dateLe_def nextDay_def)
  have shift: "map (addDays s) [0..<Suc n] = addDays s 0 # map (addDays (nextDay s)) [0..<n]"
    by (simp add: upt_conv_Cons map_Suc_upt [symmetric] addDays_def nextDay_def del: upt_Suc)
  have "addDays s 0 = s" by (simp add: addDays_def)
  with True cnt shift show ?thesis
    unfolding datesInRange_def n_def by simp
qed

lemma getValidDatesLoop_listed:
  assumes "countryCode \<notin> set objectPrototypeKeys"
  shows "getValidDatesLoop c e countryCode acc =
           Inr (acc @ filter (\<lambda>d. \<not> (isSunday d \<or> isListedHoliday d countryCode)) (datesInRange c e))"
  using assms
proof (induction c e countryCode acc rule: getValidDatesLoop.induct)
  case (1 c e cc acc)
  show ?case
  proof (cases "dateLe c e")
    case False
    then show ?thesis
      by (subst getValidDatesLoop.simps, subst datesInRange_unfold) simp
  next
    case True
    note ex = shouldExcludeDate_listed [OF "1.prems", of c]
    have ih: "getValidDatesLoop (nextDay c) e cc (if isSunday c \<or> isListedHoliday c cc then acc else acc @ [c]) =
      Inr ((if isSunday c \<or> isListedHoliday c cc then acc else acc @ [c]) @
        filter (\<lambda>d. \<not> (isSunday d \<or> isListedHoliday d cc)) (datesInRange (nextDay c) e))"
      using "1.IH" [OF True ex] "1.prems" by simp
    show ?thesis
      apply (subst getValidDatesLoop.simps)
      apply (subst datesInRange_unfold)
      using True ex ih by simp
  qed
qed

lemma getValidDates_listed:
  assumes "countryCode \<notin> set objectPrototypeKeys"
  shows "getValidDates s e countryCode =
           Inr (filter (\<lambda>d. \<not> (isSunday d \<or> isListedHoliday d countryCode)) (datesInRange s e))"
  using getValidDatesLoop_listed [OF assms, of s e "[]"] by (simp add: getValidDates_def)

lemma datesInRange_sorted: "sorted_wrt (\<lambda>a b. dayNo a < dayNo b) (datesInRange s e)"
  by (simp add: datesInRange_def sorted_wrt_map addDays_def sorted_wrt_upt del: upt_Suc)

lemma unknown_code_sundays_only:
  assumes "map_of COUNTRY_HOLIDAYS countryCode = None"
    and "countryCode \<notin> set objectPrototypeKeys"
  shows "getHolidaysForCountry countryCode = HolidayArray []
       \<and> isHoliday d countryCode = Inr False
       \<and> shouldExcludeDate d countryCode = Inr (isSunday d)"
  using assms
  by (simp add: getHolidaysForCountry_def getProperty_def map_of_NONE isHoliday_def
      shouldExcludeDate_def)

lemma getValidDates_scenario_A:
  "map formatDate (projr (getValidDates \<lparr>dayNo = 19723, msOfDay = 0\<rparr>
       \<lparr>dayNo = 19729, msOfDay = 0\<rparr> ''US''))
     = [''2024-01-02'', ''2024-01-03'', ''2024-01-04'', ''2024-01-05'', ''2024-01-06'']"
  by (simp add: filter_eval calendar_eval formatDate_def string_eval)

text \<open>
  Claim C4: for every date and region code the exclusion predicate holds exactly when the
  date is a Sunday or its month/day pair is listed for the region, and \<open>getValidDates\<close>
  returns exactly the dates of the range that are not excluded, in ascending order.
  The lemmas above prove this for every code that is not the name of a member of
  \<open>Object.prototype\<close>.  For such a name the program fails instead: over the week
  2024-01-01 .. 2024-01-07 (day numbers 19723 .. 19729) and the code \<open>constructor\<close>,
  \<open>getValidDates\<close> raises a \<open>TypeError\<close> on the first weekday it meets.
\<close>

theorem C4_getValidDates_inherited_key:
  "getValidDates \<lparr>dayNo = 19723, msOfDay = 0\<rparr> \<lparr>dayNo = 19729, msOfDay = 0\<rparr> ''constructor''
     = Inl (TypeError ''holidays.some is not a function'')"
  by (simp add: filter_eval calendar_eval)

text \<open>
  Claim C9: for every country code that is not in the holiday table,
  \<open>getHolidaysForCountry\<close> returns the empty list, so that only Sundays are excluded
  and nothing fails.  \<open>unknown_code_sundays_only\<close> proves it for the codes that
  \<open>Object.prototype\<close> does not define.  The code \<open>constructor\<close> is not in the table,
  yet the lookup returns the inherited member, not the empty list, and testing
  Monday 2024-01-01 (day number 19723) for a holiday raises a \<open>TypeError\<close>.
\<close>

theorem C9_inherited_key_not_empty:
  "map_of COUNTRY_HOLIDAYS ''constructor'' = None
   \<and> getHolidaysForCountry ''constructor'' = InheritedMember ''constructor''
   \<and> isSunday \<lparr>dayNo = 19723, msOfDay = 0\<rparr> = False
   \<and> isHoliday \<lparr>dayNo = 19723, msOfDay = 0\<rparr> ''constructor''
        = Inl (TypeError ''holidays.some is not a function'')
   \<and> shouldExcludeDate \<lparr>dayNo = 19723, msOfDay = 0\<rparr> ''constructor''
        = Inl (TypeError ''holidays.some is not a function'')"
  by (simp add: filter_eval calendar_eval)


section \<open>Properties of redirect following\<close>

lemma makeRequest_issued_le:
  "length (snd (snd (makeRequest env options dat timeoutMs redirectCount w))) \<le> 5 - redirectCount"
proof (induction env options dat timeoutMs redirectCount w rule: makeRequest.induct)
  case (1 env options dat timeoutMs redirectCount w)
  show ?case
  proof (cases "redirectCount \<ge> 5")
    case True
    then show ?thesis by (subst makeRequest.simps) simp
  next
    case False
    obtain outcome w' where r: "request env options dat w = (outcome, w')"
      by (cases "request env options dat w")
    show ?thesis
    proof (cases outcome)
      case (Responded statusCode loc body)
      show ?thesis
      proof (cases "isRedirect statusCode loc")
        case red: True
        show ?thesis
        proof (cases "resolveLocation env options (the loc)")
          case (Inl msg)
          with False r Responded red show ?thesis
            by (subst makeRequest.simps) simp
        next
          case (Inr u)
          have "length (snd (snd (makeRequest env (redirectTarget options u) dat timeoutMs
                  (redirectCount + 1) w'))) \<le> 5 - (redirectCount + 1)"
            using "1.IH" [OF False _ _ red Inr] r Responded by simp
          with False r Responded red Inr show ?thesis
            by (subst makeRequest.simps) (auto split: prod.splits)
        qed
      next
        case False
        with \<open>\<not> 5 \<le> redirectCount\<close> r Responded show ?thesis
          by (subst makeRequest.simps) simp
      qed
    next
      case (RequestError msg)
      with False r show ?thesis by (subst makeRequest.simps) simp
    next
      case SocketTimeout
      with False r show ?thesis by (subst makeRequest.simps) simp
    qed
  qed
qed

lemma makeRequest_cycle:
  assumes "alwaysRedirects env" and "redirectCount \<le> 5"
  shows "fst (makeRequest env options dat timeoutMs redirectCount w) = Inl (Error ''Too many redirects (max 5)'')
       \<and> length (snd (snd (makeRequest env options dat timeoutMs redirectCount w))) = 5 - redirectCount"
  using assms
proof (induction env options dat timeoutMs redirectCount w rule: makeRequest.induct)
  case (1 env options dat timeoutMs redirectCount w)
  show ?case
  proof (cases "redirectCount \<ge> 5")
    case True
    then show ?thesis by (subst makeRequest.simps, subst (2) makeRequest.simps) simp
  next
    case False
    from "1.prems"(1) obtain statusCode loc body w' u where
      r: "request env options dat w = (Responded statusCode loc body, w')"
      and red: "isRedirect statusCode loc"
      and u: "resolveLocation env options (the loc) = Inr u"
      unfolding alwaysRedirects_def by blast
    have ih: "fst (makeRequest env (redirectTarget options u) dat timeoutMs (redirectCount + 1) w') = Inl (Error ''Too many redirects (max 5)'')
       \<and> length (snd (snd (makeRequest env (redirectTarget options u) dat timeoutMs (redirectCount + 1) w'))) = 5 - (redirectCount + 1)"
      using "1.IH" [OF False r [symmetric] refl red u "1.prems"(1)] False by simp
    show ?thesis
      apply (subst makeRequest.simps, subst (2) makeRequest.simps)
      using False r red u ih by (auto split: prod.splits)
  qed
qed

lemma loopingServer_alwaysRedirects: "alwaysRedirects loopingServer"
  by (simp add: alwaysRedirects_def loopingServer_def isRedirect_def resolveLocation_def)

text \<open>
  Claim C10: every request issued through \<open>makeRequest\<close> follows at most 5 redirects.
  Each redirect response re-invokes the request with the counter incremented (the
  recursive call of the definition); a call whose counter has reached 5 is rejected with
  \<open>Too many redirects\<close> before anything is sent; so a call starting at counter 0 sends at
  most 5 requests whatever the network answers, and against a server that redirects
  forever it sends exactly 5 and is rejected with that error.  The function is total:
  redirect following terminates on every chain.
\<close>

theorem C10_redirects_bounded:
  "makeRequest env options dat timeoutMs 5 w = (Inl (Error ''Too many redirects (max 5)''), w, [])
   \<and> length (snd (snd (makeRequest env options dat timeoutMs 0 w))) \<le> 5
   \<and> (alwaysRedirects env \<longrightarrow>
        fst (makeRequest env options dat timeoutMs 0 w) = Inl (Error ''Too many redirects (max 5)'')
        \<and> length (snd (snd (makeRequest env options dat timeoutMs 0 w))) = 5)"
proof (intro conjI impI)
  show "makeRequest env options dat timeoutMs 5 w = (Inl (Error ''Too many redirects (max 5)''), w, [])"
    by (subst makeRequest.simps) simp
  show "length (snd (snd (makeRequest env options dat timeoutMs 0 w))) \<le> 5"
    using makeRequest_issued_le [of env options dat timeoutMs 0 w] by simp
next
  assume a: "alwaysRedirects env"
  from makeRequest_cycle [OF a, of 0 options dat timeoutMs w]
  show "fst (makeRequest env options dat timeoutMs 0 w) = Inl (Error ''Too many redirects (max 5)'')"
    and "length (snd (snd (makeRequest env options dat timeoutMs 0 w))) = 5"
    by simp_all
qed

theorem C10_redirects_bounded_witness:
  "alwaysRedirects loopingServer
   \<and> fst (makeRequest loopingServer loopRequest None 30000 0 ()) = Inl (Error ''Too many redirects (max 5)'')
   \<and> length (snd (snd (makeRequest loopingServer loopRequest None 30000 0 ()))) = 5"
  using C10_redirects_bounded [of loopingServer loopRequest None 30000 "()"]
    loopingServer_alwaysRedirects
  by simp



section \<open>Properties of the work partitioner\<close>

lemma draw_bounds:
  "significand r < 2 ^ 53" "significand r < 2 ^ binaryExponent r" "binaryExponent r \<le> 1074"
  by (transfer, auto)+

lemma drawLow_simps [simp]:
  "significand drawLow = 0" "binaryExponent drawLow = 1"
  by (transfer, simp)+

lemma drawHigh_simps [simp]:
  "significand drawHigh = 3" "binaryExponent drawHigh = 2"
  by (transfer, simp)+

lemma comparator_low: "randomComparator drawLow < 0"
  by (simp add: randomComparator_def drawValue_def)

lemma comparator_high: "0 < randomComparator drawHigh" "\<not> randomComparator drawHigh < 0"
  by (simp_all add: randomComparator_def drawValue_def)

lemma bitLength_zero: "bitLength 0 = 0"
  by (subst bitLength.simps) simp

lemma bitLength_pos: "0 < p \<Longrightarrow> bitLength p = Suc (bitLength (p div 2))"
  by (subst bitLength.simps) simp

lemma bitLength_bounds:
  "0 < p \<Longrightarrow> 2 ^ (bitLength p - 1) \<le> p \<and> p < 2 ^ bitLength p"
proof (induction p rule: bitLength.induct)
  case (1 p)
  have b: "bitLength p = Suc (bitLength (p div 2))"
    using "1.prems" by (rule bitLength_pos)
  show ?case
  proof (cases "p div 2 = 0")
    case True
    with "1.prems" have "p = 1" by arith
    then show ?thesis
      unfolding b by (simp add: bitLength_zero)
  next
    case False
    then have pos: "0 < p div 2" by simp
    from "1.IH" [OF _ pos] "1.prems"
    have ih: "2 ^ (bitLength (p div 2) - 1) \<le> p div 2" "p div 2 < 2 ^ bitLength (p div 2)"
      by simp_all
    obtain k where k: "bitLength (p div 2) = Suc k"
      using bitLength_pos [OF pos] by simp
    from ih(1) have "(2::nat) ^ k \<le> p div 2" by (simp add: k)
    then have lo: "2 * 2 ^ k \<le> p" by arith
    from ih(2) have hi: "p < 2 * 2 ^ bitLength (p div 2)" by arith
    show ?thesis
      unfolding b using lo hi by (simp add: k)
  qed
qed

lemma roundToDouble_exact: "bitLength p \<le> 53 \<Longrightarrow> roundToDouble p = p"
  by (simp add: roundToDouble_def)

lemma roundToDouble_near:
  assumes "53 < bitLength p"
  shows "roundToDouble p \<le> p + 2 ^ (bitLength p - 54)"
    and "p \<le> roundToDouble p + 2 ^ (bitLength p - 54)"
proof -
  define s where "s = bitLength p - 53"
  define T where "T = (2::nat) ^ s"
  define q where "q = p div T"
  define rest where "rest = p mod T"
  define half where "half = (2::nat) ^ (bitLength p - 54)"
  define up where "up = (half < rest \<or> (rest = half \<and> odd q))"
  have s: "s = Suc (bitLength p - 54)" using assms by (simp add: s_def)
  have two: "T = 2 * half" by (simp add: T_def s half_def)
  have p: "p = q * T + rest"
    unfolding q_def rest_def by (rule div_mult_mod_eq [symmetric])
  have restlt: "rest < T" unfolding rest_def T_def by simp
  have r: "roundToDouble p = (if up then q + 1 else q) * T"
    using assms by (simp add: roundToDouble_def s_def q_def rest_def half_def up_def T_def)
  have e: "(q + 1) * T = q * T + T" by (simp add: add_mult_distrib)
  have a: "roundToDouble p \<le> p + half"
  proof (cases up)
    case True
    then have "half \<le> rest" unfolding up_def by auto
    moreover have "roundToDouble p = q * T + T" using r True e by simp
    ultimately show ?thesis using two p by arith
  next
    case False
    then have "roundToDouble p = q * T" using r by simp
    with p show ?thesis by arith
  qed
  have b: "p \<le> roundToDouble p + half"
  proof (cases up)
    case True
    then have "roundToDouble p = q * T + T" using r e by simp
    with p restlt show ?thesis by arith
  next
    case False
    then have "rest \<le> half" unfolding up_def by auto
    moreover have "roundToDouble p = q * T" using r False by simp
    ultimately show ?thesis using p by arith
  qed
  show "roundToDouble p \<le> p + 2 ^ (bitLength p - 54)" using a unfolding half_def .
  show "p \<le> roundToDouble p + 2 ^ (bitLength p - 54)" using b unfolding half_def .
qed

lemma half_below_count:
  assumes "53 < bitLength (m * n)" and "m < 2 ^ 53"
  shows "2 ^ (bitLength (m * n) - 54) < n"
proof -
  define h where "h = (2::nat) ^ (bitLength (m * n) - 54)"
  define B where "B = (2::nat) ^ 53"
  have pos: "0 < m * n"
    using assms(1) by (cases "m * n = 0") (simp_all add: bitLength_zero)
  then have npos: "0 < n" by simp
  from bitLength_bounds [OF pos] have lo: "2 ^ (bitLength (m * n) - 1) \<le> m * n" by simp
  have "bitLength (m * n) - 1 = 53 + (bitLength (m * n) - 54)" using assms(1) by simp
  then have "(2::nat) ^ (bitLength (m * n) - 1) = B * h"
    unfolding B_def h_def by (simp only: power_add)
  with lo have "B * h \<le> m * n" by simp
  also have "m * n < B * n"
    using assms(2) npos unfolding B_def by simp
  finally have "B * h < B * n" .
  then have "h < n" unfolding B_def by simp
  then show ?thesis unfolding h_def .
qed

lemma roundedProduct_near:
  assumes "m < 2 ^ 53" and "0 < n"
  shows "roundToDouble (m * n) < m * n + n" and "m * n < roundToDouble (m * n) + n"
proof -
  show "roundToDouble (m * n) < m * n + n"
  proof (cases "53 < bitLength (m * n)")
    case True
    from roundToDouble_near(1) [OF True] half_below_count [OF True assms(1)]
    show ?thesis by arith
  next
    case False
    then have "roundToDouble (m * n) = m * n" by (simp add: roundToDouble_exact)
    with assms(2) show ?thesis by arith
  qed
  show "m * n < roundToDouble (m * n) + n"
  proof (cases "53 < bitLength (m * n)")
    case True
    from roundToDouble_near(2) [OF True] half_below_count [OF True assms(1)]
    show ?thesis by arith
  next
    case False
    then have "roundToDouble (m * n) = m * n" by (simp add: roundToDouble_exact)
    with assms(2) show ?thesis by arith
  qed
qed

lemma randomIndex_near:
  assumes "0 < n"
  shows "randomIndex r n * 2 ^ binaryExponent r < (significand r + 1) * n"
    and "significand r * n < (randomIndex r n + 1) * 2 ^ binaryExponent r + n"
proof -
  define m where "m = significand r"
  define E where "E = (2::nat) ^ binaryExponent r"
  define p where "p = roundToDouble (m * n)"
  have m53: "m < 2 ^ 53" unfolding m_def by (rule draw_bounds(1))
  have i: "randomIndex r n = p div E"
    by (simp add: randomIndex_def p_def m_def E_def)
  have Epos: "0 < E" by (simp add: E_def)
  have d: "p div E * E \<le> p" by (rule div_times_less_eq_dividend)
  have u: "p < E + p div E * E" using Epos by (rule dividend_less_div_times)
  have e1: "(m + 1) * n = m * n + n" by (simp add: add_mult_distrib)
  have e2: "(p div E + 1) * E = p div E * E + E" by (simp add: add_mult_distrib)
  have "p div E * E < (m + 1) * n"
    using d roundedProduct_near(1) [OF m53 assms] e1 unfolding p_def by arith
  then show "randomIndex r n * 2 ^ binaryExponent r < (significand r + 1) * n"
    unfolding i E_def m_def .
  have "m * n < (p div E + 1) * E + n"
    using u roundedProduct_near(2) [OF m53 assms] e2 unfolding p_def by arith
  then show "significand r * n < (randomIndex r n + 1) * 2 ^ binaryExponent r + n"
    unfolding i E_def m_def .
qed

lemma randomIndex_less: "0 < n \<Longrightarrow> randomIndex r n < n"
proof -
  assume n: "0 < n"
  define E where "E = (2::nat) ^ binaryExponent r"
  have "significand r + 1 \<le> E"
    using draw_bounds(2) [of r] unfolding E_def by simp
  then have "(significand r + 1) * n \<le> E * n"
    by (rule mult_le_mono1)
  with randomIndex_near(1) [OF n, of r] have "randomIndex r n * E < E * n"
    unfolding E_def by arith
  then have "randomIndex r n * E < n * E" by (simp only: mult.commute)
  then show ?thesis by (simp only: mult_less_cancel2)
qed


lemma randomIndex_seven_tenths: "randomIndex drawSevenTenths 10 = 7"
proof -
  have s: "significand drawSevenTenths = 6305039478318694" "binaryExponent drawSevenTenths = 53"
    by (transfer, simp)+
  have b: "bitLength 63050394783186940 = 56"
    by (simp add: bitLength_pos bitLength_zero)
  show ?thesis
    by (simp add: randomIndex_def roundToDouble_def s b)
qed

lemma mset_sortRandom:
  assumes "permuting rt"
  shows "mset (fst (sortRandom rt xs g)) = mset xs"
proof -
  obtain arrangement calls where a: "arraySort rt (length xs) (upcoming g) = (arrangement, calls)"
    by (cases "arraySort rt (length xs) (upcoming g)")
  have "mset (fst (arraySort rt (length xs) (upcoming g))) = mset [0..<length xs]"
    using assms unfolding permuting_def by blast
  then have "mset arrangement = mset [0..<length xs]"
    by (simp add: a)
  then have "image_mset (\<lambda>i. xs ! i) (mset arrangement)
               = image_mset (\<lambda>i. xs ! i) (mset [0..<length xs])"
    by (rule arg_cong)
  then have "mset (map (\<lambda>i. xs ! i) arrangement) = mset (map (\<lambda>i. xs ! i) [0..<length xs])"
    by (simp only: mset_map)
  also have "map (\<lambda>i. xs ! i) [0..<length xs] = xs" by (rule map_nth)
  finally show ?thesis by (simp add: sortRandom_def a)
qed

lemma length_sortRandom:
  "permuting rt \<Longrightarrow> length (fst (sortRandom rt xs g)) = length xs"
  using mset_sortRandom [of rt xs g] by (metis mset_eq_length)

lemma sortRandom_source: "fst (snd (sortRandom rt xs g)) = fst g"
  by (simp add: sortRandom_def split: prod.splits)

lemma sum_list_bump: "i < length xs \<Longrightarrow> sum_list (xs[i := xs ! i + 1]) = Suc (sum_list (xs::nat list))"
  by (simp add: sum_list_update)

lemma distributeCommits_props:
  assumes "0 < n" and "length cs = n"
  shows "length (fst (distributeCommits k n cs g)) = n
       \<and> sum_list (fst (distributeCommits k n cs g)) = sum_list cs + k
       \<and> (\<forall>j<n. cs ! j \<le> fst (distributeCommits k n cs g) ! j)"
  using assms
proof (induction k arbitrary: cs g)
  case 0
  then show ?case by simp
next
  case (Suc k)
  obtain r g' where m: "mathRandom g = (r, g')" by (cases "mathRandom g")
  let ?i = "randomIndex r n"
  let ?cs = "cs[?i := cs ! ?i + 1]"
  have i: "?i < n" using Suc.prems randomIndex_less by simp
  have len: "length ?cs = n" using Suc.prems by simp
  have s: "sum_list ?cs = Suc (sum_list cs)" using i Suc.prems sum_list_bump by simp
  have mono: "\<forall>j<n. cs ! j \<le> ?cs ! j"
  proof (intro allI impI)
    fix j assume "j < n"
    then show "cs ! j \<le> ?cs ! j" using Suc.prems(2) by (cases "j = ?i") simp_all
  qed
  from Suc.IH [OF Suc.prems(1) len, of g'] m s mono show ?case
    by (auto simp: Let_def intro: order_trans)
qed



lemma pool_jan2_jan4:
  "getValidDates \<lparr>dayNo = 19724, msOfDay = 0\<rparr> \<lparr>dayNo = 19726, msOfDay = 0\<rparr> ''US''
     = Inr [\<lparr>dayNo = 19724, msOfDay = 0\<rparr>, \<lparr>dayNo = 19725, msOfDay = 0\<rparr>,
            \<lparr>dayNo = 19726, msOfDay = 0\<rparr>]"
  by (simp add: filter_eval calendar_eval)

lemma planWork_valid:
  assumes "1 \<le> nb" and "nb \<le> tc" and "dateLe s e"
    and "getValidDates s e (if country = [] then ''US'' else country) = Inr vd" and "vd \<noteq> []"
  shows "fst (planWork rt (Some nb) (Some tc) (Some s) (Some e) country g) =
     Inr \<lparr>validDatesCount = length vd,
          actualNumBranches = min (nat nb) (length vd),
          adjustedBranches = (length vd < nat nb),
          datesToProcess = take (min (nat nb) (length vd)) (fst (sortRandom rt vd g)),
          commitsPerBranch =
            fst (sortRandom rt
                  (fst (distributeCommits (nat tc - min (nat nb) (length vd)) (min (nat nb) (length vd))
                          (replicate (min (nat nb) (length vd)) 1) (snd (sortRandom rt vd g))))
                  (snd (distributeCommits (nat tc - min (nat nb) (length vd)) (min (nat nb) (length vd))
                          (replicate (min (nat nb) (length vd)) 1) (snd (sortRandom rt vd g)))))\<rparr>"
proof -
  have a: "(if length vd < nat nb then length vd else nat nb) = min (nat nb) (length vd)"
    by (simp add: min_def)
  have b: "nat (tc - int (min (nat nb) (length vd))) = nat tc - min (nat nb) (length vd)"
    using assms(1,2) by (simp add: nat_diff_distrib')
  show ?thesis
    using assms unfolding planWork_def
    by (simp add: Let_def a b split: prod.splits)
qed

subsection \<open>The sort of V8\<close>

lemma binarySearch_step:
  "left < right \<Longrightarrow> binarySearch left right g =
     (case mathRandom g of (r, g') \<Rightarrow>
        if randomComparator r < 0 then binarySearch left (left + (right - left) div 2) g'
        else binarySearch (left + (right - left) div 2 + 1) right g')"
  by (subst binarySearch.simps) simp

lemma binarySearch_done: "\<not> left < right \<Longrightarrow> binarySearch left right g = (left, g)"
  by (subst binarySearch.simps) simp

lemma mset_binaryInsertionSort:
  "mset (fst (binaryInsertionSort sortedPart rest g)) = mset sortedPart + mset rest"
proof (induction rest arbitrary: sortedPart g)
  case Nil
  then show ?case by simp
next
  case (Cons pivot rest)
  obtain left g' where b: "binarySearch 0 (length sortedPart) g = (left, g')"
    by (cases "binarySearch 0 (length sortedPart) g")
  have "mset (take left sortedPart) + mset (drop left sortedPart) = mset sortedPart"
    using mset_append [of "take left sortedPart" "drop left sortedPart"] by simp
  then have "mset (take left sortedPart @ pivot # drop left sortedPart) = add_mset pivot (mset sortedPart)"
    by simp
  with Cons.IH [of "take left sortedPart @ pivot # drop left sortedPart" g'] b
  show ?case by simp
qed

lemma mset_timSortShort: "mset (fst (timSortShort xs g)) = mset xs"
proof (cases "length xs < 2")
  case True
  then show ?thesis by (simp add: timSortShort_def)
next
  case False
  obtain r g1 where m: "mathRandom g = (r, g1)" by (cases "mathRandom g")
  obtain runLength g2 where e: "extendRun (randomComparator r < 0) (length xs - 2) 2 g1 = (runLength, g2)"
    by (cases "extendRun (randomComparator r < 0) (length xs - 2) 2 g1")
  have "mset (take runLength xs) + mset (drop runLength xs) = mset xs"
    using mset_append [of "take runLength xs" "drop runLength xs"] by simp
  then have "mset (if randomComparator r < 0 then rev (take runLength xs) else take runLength xs)
          + mset (drop runLength xs) = mset xs"
    by simp
  with False m e show ?thesis
    by (simp add: timSortShort_def Let_def mset_binaryInsertionSort)
qed

lemma permuting_v8Engine: "permuting v8Engine"
  unfolding permuting_def
proof (intro allI)
  fix n draws
  obtain arrangement g where t: "timSortShort [0..<n] (draws, 0) = (arrangement, g)"
    by (cases "timSortShort [0..<n] (draws, 0)")
  then have "fst (arraySort v8Engine n draws) = fst (timSortShort [0..<n] (draws, 0))"
    by (simp add: v8Engine_def v8Sort_def)
  then show "mset (fst (arraySort v8Engine n draws)) = mset [0..<n]"
    by (simp only: mset_timSortShort)
qed

text \<open>
  Claim C1: for every run whose inputs pass validation (commit budget at least the
  branch budget, branch budget at least 1, start date not after end date, a non-empty
  eligible pool), the plan's per-branch commit counts sum exactly to the commit budget,
  every count is at least 1, and the number of assignments is the smaller of the branch
  budget and the number of eligible dates; when the pool is smaller than the branch
  budget the plan is clamped to the pool and \<open>adjustedBranches\<close> is true, and the
  run does not fail.  This holds for every random source and for every engine whose
  sort returns the elements it was given.
\<close>

theorem C1_plan_invariant:
  assumes "permuting rt"
    and "1 \<le> nb" and "nb \<le> tc" and "dateLe s e"
    and "getValidDates s e (if country = [] then ''US'' else country) = Inr validDates"
    and "validDates \<noteq> []"
  shows "\<exists>plan. fst (planWork rt (Some nb) (Some tc) (Some s) (Some e) country g) = Inr plan
       \<and> sum_list (commitsPerBranch plan) = nat tc
       \<and> (\<forall>c \<in> set (commitsPerBranch plan). 1 \<le> c)
       \<and> length (datesToProcess plan) = min (nat nb) (length validDates)
       \<and> length (commitsPerBranch plan) = length (datesToProcess plan)
       \<and> adjustedBranches plan = (length validDates < nat nb)"
proof -
  define n where "n = min (nat nb) (length validDates)"
  define g1 where "g1 = snd (sortRandom rt validDates g)"
  define dist where "dist = distributeCommits (nat tc - n) n (replicate n 1) g1"
  define counts where "counts = fst (sortRandom rt (fst dist) (snd dist))"
  have npos: "0 < n" using assms(2,6) by (simp add: n_def)
  have nle: "n \<le> nat tc" using assms(2,3) by (simp add: n_def)
  have props: "length (fst dist) = n"
    "sum_list (fst dist) = sum_list (replicate n (1::nat)) + (nat tc - n)"
    "\<forall>j<n. replicate n (1::nat) ! j \<le> fst dist ! j"
    using distributeCommits_props [OF npos, of "replicate n 1" "nat tc - n" g1]
    by (simp_all add: dist_def)
  have ms: "mset counts = mset (fst dist)"
    unfolding counts_def by (rule mset_sortRandom [OF assms(1)])
  have sum: "sum_list counts = nat tc"
  proof -
    have "sum_list counts = sum_list (fst dist)"
      using ms by (metis sum_mset_sum_list)
    with props(2) nle show ?thesis by (simp add: sum_list_replicate)
  qed
  have ge1: "\<forall>c \<in> set counts. 1 \<le> c"
  proof
    fix c assume "c \<in> set counts"
    then have "c \<in> set (fst dist)" using ms by (metis set_mset_mset)
    then obtain j where j: "j < n" "fst dist ! j = c"
      using props(1) by (auto simp: in_set_conv_nth)
    with props(3) show "1 \<le> c" by auto
  qed
  have lenc: "length counts = n" using ms props(1) by (metis mset_eq_length)
  have lend: "length (take n (fst (sortRandom rt validDates g))) = n"
    using length_sortRandom [OF assms(1), of validDates g] by (simp add: n_def)
  have pw: "fst (planWork rt (Some nb) (Some tc) (Some s) (Some e) country g) =
     Inr \<lparr>validDatesCount = length validDates, actualNumBranches = n,
          adjustedBranches = (length validDates < nat nb),
          datesToProcess = take n (fst (sortRandom rt validDates g)),
          commitsPerBranch = counts\<rparr>"
    unfolding counts_def dist_def g1_def n_def by (rule planWork_valid [OF assms(2-6)])
  show ?thesis
    unfolding pw using sum ge1 lenc lend n_def by simp
qed

theorem C1_plan_invariant_witness:
  "permuting v8Engine \<and> (1::int) \<le> 10 \<and> (10::int) \<le> 12
   \<and> dateLe \<lparr>dayNo = 19724, msOfDay = 0\<rparr> \<lparr>dayNo = 19726, msOfDay = 0\<rparr>
   \<and> (\<exists>plan. fst (planWork v8Engine (Some 10) (Some 12) (Some \<lparr>dayNo = 19724, msOfDay = 0\<rparr>)
                      (Some \<lparr>dayNo = 19726, msOfDay = 0\<rparr>) ''US'' (drawsOf [], 0)) = Inr plan
         \<and> sum_list (commitsPerBranch plan) = 12
         \<and> 1 \<le> Min (set (commitsPerBranch plan))
         \<and> length (datesToProcess plan) = 3
         \<and> length (commitsPerBranch plan) = 3
         \<and> adjustedBranches plan = True)"
proof -
  have d: "dateLe \<lparr>dayNo = 19724, msOfDay = 0\<rparr> \<lparr>dayNo = 19726, msOfDay = 0\<rparr>"
    by (simp add: dateLe_def)
  have p: "getValidDates \<lparr>dayNo = 19724, msOfDay = 0\<rparr> \<lparr>dayNo = 19726, msOfDay = 0\<rparr>
             (if ''US'' = [] then ''US'' else ''US'')
     = Inr [\<lparr>dayNo = 19724, msOfDay = 0\<rparr>, \<lparr>dayNo = 19725, msOfDay = 0\<rparr>,
            \<lparr>dayNo = 19726, msOfDay = 0\<rparr>]"
    using pool_jan2_jan4 by simp
  from C1_plan_invariant [OF permuting_v8Engine, of 10 12, OF _ _ d p, of "(drawsOf [], 0)"]
  obtain plan where plan:
    "fst (planWork v8Engine (Some 10) (Some 12) (Some \<lparr>dayNo = 19724, msOfDay = 0\<rparr>)
            (Some \<lparr>dayNo = 19726, msOfDay = 0\<rparr>) ''US'' (drawsOf [], 0)) = Inr plan"
    "sum_list (commitsPerBranch plan) = 12"
    "\<forall>c \<in> set (commitsPerBranch plan). 1 \<le> c"
    "length (datesToProcess plan) = 3"
    "length (commitsPerBranch plan) = 3"
    "adjustedBranches plan = True"
    by auto
  from plan(5) have ne: "commitsPerBranch plan \<noteq> []" by auto
  have "1 \<le> Min (set (commitsPerBranch plan))" using plan(3) ne by simp
  with plan d permuting_v8Engine show ?thesis by auto
qed

lemma comparator_signs:
  "(randomComparator drawLow < 0) = True" "(0 \<le> randomComparator drawLow) = False"
  "(randomComparator drawHigh < 0) = False" "(0 \<le> randomComparator drawHigh) = True"
  by (simp_all add: randomComparator_def drawValue_def)


lemma upt_3: "[0..<3] = [0, Suc 0, Suc (Suc 0)]"
  by (simp add: upt_conv_Cons eval_nat_numeral)


lemma power_two_mod_three: "(2::nat) ^ k mod 3 = 1 \<or> (2::nat) ^ k mod 3 = 2"
proof (induction k)
  case 0
  then show ?case by simp
next
  case (Suc k)
  have "(2::nat) ^ Suc k mod 3 = (2 * (2 ^ k mod 3)) mod 3"
    by (simp add: mod_mult_right_eq)
  with Suc show ?case by auto
qed

lemma arrangement_never_one_sixth: "6 * arrangementCount rt k xs arrangement \<noteq> 2 ^ k"
proof
  assume "6 * arrangementCount rt k xs arrangement = 2 ^ k"
  then have "(2::nat) ^ k mod 3 = (6 * arrangementCount rt k xs arrangement) mod 3" by simp
  also have "\<dots> = 0" by simp
  finally show False using power_two_mod_three [of k] by simp
qed






section \<open>Properties of pushing\<close>

lemma perform_effects: "snd (snd (perform eff prim s)) = snd s @ [eff]"
  by (simp add: perform_def split: prod.splits)

lemma perform_eq:
  "prim (fst s) = (r, w') \<Longrightarrow> perform eff prim s = (r, (w', snd s @ [eff]))"
  by (simp add: perform_def)

lemma pushBranch_forced:
  "pushBranch git branchName remote True s =
     (case gitGetRemotes git (fst s) of
        (Inl msg, w1) \<Rightarrow>
          (\<lparr>success = False, message = ''Error pushing branch: '' @ msg\<rparr>, (w1, snd s @ [GetRemotes]))
      | (Inr remotes, w1) \<Rightarrow>
          if remote \<notin> set remotes then
            (\<lparr>success = False,
              message = ''Remote '' @ quoted remote @ '' does not exist. Please add it first.''\<rparr>,
             (w1, snd s @ [GetRemotes]))
          else
            (case gitPush git remote branchName True w1 of
               (Inl msg, w2) \<Rightarrow>
                 (\<lparr>success = False, message = ''Error pushing branch: '' @ msg\<rparr>,
                  (w2, snd s @ [GetRemotes, Push remote branchName True]))
             | (Inr u, w2) \<Rightarrow>
                 (\<lparr>success = True, message = ''Branch '' @ quoted branchName @ '' pushed to '' @ remote\<rparr>,
                  (w2, snd s @ [GetRemotes, Push remote branchName True]))))"
  by (subst pushBranch.simps) (simp add: perform_def split: prod.splits sum.splits)

lemma pushBranch_first_rejected:
  assumes "gitGetRemotes git (fst s) = (Inr remotes, w1)" and "remote \<in> set remotes"
    and "gitPush git remote branchName False w1 = (Inl msg, w2)"
  shows "pushBranch git branchName remote False s =
           (if isNonFastForward msg
            then pushBranch git branchName remote True (w2, snd s @ [GetRemotes, Push remote branchName False])
            else (\<lparr>success = False, message = ''Error pushing branch: '' @ msg\<rparr>,
                  (w2, snd s @ [GetRemotes, Push remote branchName False])))"
  using assms by (subst pushBranch.simps) (simp add: perform_def)

lemma pushBranch_forced_effects:
  "effectsSince s (snd (pushBranch git branchName remote True s)) = [GetRemotes]
   \<or> effectsSince s (snd (pushBranch git branchName remote True s)) = [GetRemotes, Push remote branchName True]"
  by (simp add: pushBranch_forced effectsSince_def split: prod.splits sum.splits)




lemma denyingRemote_simps:
  "gitBranchLocal denyingRemote = (\<lambda>w. (Inr [''main''], w))"
  "gitFetch denyingRemote = (\<lambda>remote w. (Inr (), w))"
  "gitBranchRemotes denyingRemote = (\<lambda>w. (Inr [''origin/main'', ''origin/auto-2024-01-02''], w))"
  "gitPush denyingRemote = (\<lambda>remote ref force w.
         (if startsWith ref '':'' then Inl ''! [remote rejected] (deletion prohibited)''
          else if force then Inl ''! [remote rejected] (non-fast-forward)''
          else Inl ''! [rejected] (non-fast-forward)'', w))"
  "gitCheckout denyingRemote = (\<lambda>branchName w. (Inr (), w))"
  "gitCheckoutLocalBranch denyingRemote = (\<lambda>branchName w. (Inr (), w))"
  "gitRevparseHead denyingRemote = (\<lambda>w. (Inr ''auto-2024-01-02'', w))"
  "gitGetRemotes denyingRemote = (\<lambda>w. (Inr [''origin''], w))"
  "gitPull denyingRemote = (\<lambda>remote branchName w. (Inr (), w))"
  "fsExistsSync denyingRemote = (\<lambda>p w. (False, w))"
  "fsWriteFileSync denyingRemote = (\<lambda>p content w. (Inr (), w))"
  "gitAdd denyingRemote = (\<lambda>file w. (Inr (), w))"
  "gitCommit denyingRemote = (\<lambda>msg date w. (Inr (), w))"
  "gitLog denyingRemote = (\<lambda>args w. (Inr None, w))"
  "utcOffsetMs denyingRemote = 0"
  by (simp_all add: denyingRemote_def)

lemma date_2024_01_02:
  "formatDate \<lparr>dayNo = 19724, msOfDay = 0\<rparr> = ''2024-01-02''"
  "commitDateOf ''2024-01-02'' = Some \<lparr>dayNo = 19724, msOfDay = 43200000\<rparr>"
  "toISOString 0 \<lparr>dayNo = 19724, msOfDay = 43200000\<rparr> = Inr ''2024-01-02T12:00:00.000Z''"
  by (simp_all add: formatDate_def commitDateOf_def Number_def digitValue_def newDateNoon_def
      makeDay_def toISOString_def isoOfTime_def isoOfParts_def isoYear_def calendar_eval string_eval)

lemma deny_checkoutBase:
  "checkoutBase denyingRemote ''origin'' ((), []) = (''main'', ((), [Checkout ''main'', Pull ''origin'' ''main'']))"
  by (simp add: checkoutBase_def perform_def denyingRemote_simps)

lemma deny_createBranch:
  "createBranch denyingRemote ''auto-2024-01-02'' ''origin'' False ((), tr) =
     (\<lparr>success = True, message = ''Branch '' @ quoted ''auto-2024-01-02'' @ '' created/checked out'',
       existedRemotely = Some True\<rparr>,
      ((), tr @ [BranchLocal, Fetch ''origin'', BranchRemotes, Push ''origin'' '':auto-2024-01-02'' False,
                 CheckoutLocalBranch ''auto-2024-01-02'', RevparseHead]))"
  by (simp add: createBranch_def checkoutAndVerify_def branchExistsOnRemote_def deleteRemoteBranch_def perform_def
      denyingRemote_simps startsWith_def)


lemma deny_createCommits:
  "createCommits denyingRemote (Suc 0) ''2024-01-02'' (Some ''/repo'') ((), tr) =
     (\<lparr>success = True, message = ''Created 1 commits'',
       commitResults = [\<lparr>cSuccess = True, cMessage = ''Commit 1 created for 2024-01-02'',
                          cCommitDate = ''2024-01-02'', cCommitHash = None,
                          cCommitTimestamp = ''2024-01-02T12:00:00.000Z''\<rparr>]\<rparr>,
      ((), tr @ [ExistsSync ''/repo/commits.txt'',
                 WriteFileSync ''/repo/commits.txt''
                   (''2024-01-02 - Commit 1 at 2024-01-02T12:00:00.000Z'' @ [CHR 0x0A]),
                 Add ''commits.txt'',
                 Commit ''Auto commit 1 for 2024-01-02'' ''2024-01-02T12:00:00.000Z'',
                 Log1]))"
  by (simp add: createCommits_def resolveRepoPath_def perform_def denyingRemote_simps
      date_2024_01_02 string_eval Let_def)

lemma deny_pushBranch:
  "pushBranch denyingRemote ''auto-2024-01-02'' ''origin'' False ((), tr) =
     (\<lparr>success = False, message = ''Error pushing branch: ! [remote rejected] (non-fast-forward)''\<rparr>,
      ((), tr @ [GetRemotes, Push ''origin'' ''auto-2024-01-02'' False,
                 GetRemotes, Push ''origin'' ''auto-2024-01-02'' True]))"
proof -
  have nff: "isNonFastForward ''! [rejected] (non-fast-forward)''"
    by (simp add: isNonFastForward_def startsWith_def)
  have first: "pushBranch denyingRemote ''auto-2024-01-02'' ''origin'' False ((), tr) =
      pushBranch denyingRemote ''auto-2024-01-02'' ''origin'' True
        ((), snd ((), tr) @ [GetRemotes, Push ''origin'' ''auto-2024-01-02'' False])"
    using pushBranch_first_rejected [of denyingRemote "((), tr)" "[''origin'']" "()" "''origin''"
        "''auto-2024-01-02''" "''! [rejected] (non-fast-forward)''" "()"] nff
    by (simp add: denyingRemote_simps startsWith_def)
  show ?thesis
    unfolding first by (simp add: pushBranch_forced denyingRemote_simps startsWith_def)
qed

text \<open>
  Claim C3, as stated, says that a non-fast-forward failure is never surfaced to the
  caller as the assignment's outcome.  Against a remote that denies deletions and
  non-fast-forward updates, the deletion before checkout fails (and is ignored), the
  push is rejected as non-fast-forward, the single forced retry is rejected in the same
  way, and the assignment's outcome is that failure.
\<close>

theorem C3_non_fast_forward_surfaced:
  "success (fst (processDate denyingRemote \<lparr>dayNo = 19724, msOfDay = 0\<rparr> 1 ''origin'' None
                   (Some ''/repo'') ((), []))) = False
   \<and> message (fst (processDate denyingRemote \<lparr>dayNo = 19724, msOfDay = 0\<rparr> 1 ''origin'' None
                     (Some ''/repo'') ((), [])))
       = ''Failed to push: Error pushing branch: ! [remote rejected] (non-fast-forward)''
   \<and> isNonFastForward (message (fst (processDate denyingRemote \<lparr>dayNo = 19724, msOfDay = 0\<rparr> 1
                                       ''origin'' None (Some ''/repo'') ((), []))))
   \<and> filter isPush (snd (snd (processDate denyingRemote \<lparr>dayNo = 19724, msOfDay = 0\<rparr> 1 ''origin''
                                 None (Some ''/repo'') ((), []))))
       = [Push ''origin'' '':auto-2024-01-02'' False, Push ''origin'' ''auto-2024-01-02'' False,
          Push ''origin'' ''auto-2024-01-02'' True]"
  by (simp add: processDate_def date_2024_01_02 deny_checkoutBase deny_createBranch
      deny_createCommits deny_pushBranch isNonFastForward_def startsWith_def Let_def)

lemma pushBranch_retry:
  assumes "gitGetRemotes git (fst s) = (Inr remotes, w1)" and "remote \<in> set remotes"
    and "gitPush git remote branchName False w1 = (Inl msg, w2)"
  shows "(\<not> isNonFastForward msg \<longrightarrow>
            pushBranch git branchName remote False s =
              (\<lparr>success = False, message = ''Error pushing branch: '' @ msg\<rparr>,
               (w2, snd s @ [GetRemotes, Push remote branchName False])))
       \<and> (isNonFastForward msg \<longrightarrow>
            pushBranch git branchName remote False s =
              pushBranch git branchName remote True (w2, snd s @ [GetRemotes, Push remote branchName False])
            \<and> (\<forall>remotes' w3 outcome w4.
                  gitGetRemotes git w2 = (Inr remotes', w3) \<longrightarrow> remote \<in> set remotes' \<longrightarrow>
                  gitPush git remote branchName True w3 = (outcome, w4) \<longrightarrow>
                  pushBranch git branchName remote False s =
                    ((case outcome of
                        Inr u \<Rightarrow> \<lparr>success = True,
                                   message = ''Branch '' @ quoted branchName @ '' pushed to '' @ remote\<rparr>
                      | Inl msg' \<Rightarrow> \<lparr>success = False, message = ''Error pushing branch: '' @ msg'\<rparr>),
                     (w4, snd s @ [GetRemotes, Push remote branchName False,
                                   GetRemotes, Push remote branchName True]))))
       \<and> (filter isPush (effectsSince s (snd (pushBranch git branchName remote False s)))
             = [Push remote branchName False]
          \<or> filter isPush (effectsSince s (snd (pushBranch git branchName remote False s)))
             = [Push remote branchName False, Push remote branchName True])"
proof (intro conjI impI allI)
  assume "\<not> isNonFastForward msg"
  then show "pushBranch git branchName remote False s =
              (\<lparr>success = False, message = ''Error pushing branch: '' @ msg\<rparr>,
               (w2, snd s @ [GetRemotes, Push remote branchName False]))"
    using pushBranch_first_rejected [OF assms] by simp
next
  assume "isNonFastForward msg"
  then show "pushBranch git branchName remote False s =
              pushBranch git branchName remote True (w2, snd s @ [GetRemotes, Push remote branchName False])"
    using pushBranch_first_rejected [OF assms] by simp
next
  fix remotes' w3 outcome w4
  assume nff: "isNonFastForward msg"
    and r: "gitGetRemotes git w2 = (Inr remotes', w3)" and m: "remote \<in> set remotes'"
    and p: "gitPush git remote branchName True w3 = (outcome, w4)"
  show "pushBranch git branchName remote False s =
          ((case outcome of
              Inr u \<Rightarrow> \<lparr>success = True,
                         message = ''Branch '' @ quoted branchName @ '' pushed to '' @ remote\<rparr>
            | Inl msg' \<Rightarrow> \<lparr>success = False, message = ''Error pushing branch: '' @ msg'\<rparr>),
           (w4, snd s @ [GetRemotes, Push remote branchName False,
                         GetRemotes, Push remote branchName True]))"
    using pushBranch_first_rejected [OF assms] nff r m p
    by (simp add: pushBranch_forced split: sum.splits)
next
  let ?s1 = "(w2, snd s @ [GetRemotes, Push remote branchName False])"
  show "filter isPush (effectsSince s (snd (pushBranch git branchName remote False s)))
             = [Push remote branchName False]
          \<or> filter isPush (effectsSince s (snd (pushBranch git branchName remote False s)))
             = [Push remote branchName False, Push remote branchName True]"
  proof (cases "isNonFastForward msg")
    case False
    then show ?thesis
      using pushBranch_first_rejected [OF assms] by (simp add: effectsSince_def)
  next
    case True
    have e: "snd (snd (pushBranch git branchName remote True ?s1)) = snd ?s1 @ [GetRemotes]
           \<or> snd (snd (pushBranch git branchName remote True ?s1))
               = snd ?s1 @ [GetRemotes, Push remote branchName True]"
      by (simp add: pushBranch_forced split: prod.splits sum.splits)
    from True have "pushBranch git branchName remote False s = pushBranch git branchName remote True ?s1"
      using pushBranch_first_rejected [OF assms] by simp
    with e show ?thesis by (auto simp: effectsSince_def)
  qed
qed



lemma createBranch_found_on_remote:
  assumes "gitBranchLocal git (fst t) = (Inr branches, u1)"
    and "gitFetch git remote u1 = (Inr (), u2)"
    and "gitBranchRemotes git u2 = (Inr remoteBranches, u3)"
    and "remote @ ''/'' @ branchName \<in> set remoteBranches"
    and "gitPush git remote ('':'' @ branchName) False u3 = (deletion, u4)"
  shows "createBranch git branchName remote False t
           = checkoutAndVerify git branchName (branchName \<in> set branches) True
               (u4, snd t @ [BranchLocal, Fetch remote, BranchRemotes,
                             Push remote ('':'' @ branchName) False])"
  using assms
  by (cases deletion)
     (simp_all add: createBranch_def branchExistsOnRemote_def deleteRemoteBranch_def perform_def
        Let_def)

lemma createBranch_not_on_remote:
  assumes "gitBranchLocal git (fst t) = (Inr branches, u1)"
    and "gitFetch git remote u1 = (Inr (), u2)"
    and "gitBranchRemotes git u2 = (Inr remoteBranches, u3)"
    and "remote @ ''/'' @ branchName \<notin> set remoteBranches"
  shows "createBranch git branchName remote False t
           = checkoutAndVerify git branchName (branchName \<in> set branches) False
               (u3, snd t @ [BranchLocal, Fetch remote, BranchRemotes])"
  using assms
  by (simp add: createBranch_def branchExistsOnRemote_def perform_def Let_def)

lemma createBranch_fetch_failed:
  assumes "gitBranchLocal git (fst t) = (Inr branches, u1)"
    and "gitFetch git remote u1 = (Inl failure, u2)"
  shows "createBranch git branchName remote False t
           = checkoutAndVerify git branchName (branchName \<in> set branches) False
               (u2, snd t @ [BranchLocal, Fetch remote])"
  using assms
  by (simp add: createBranch_def branchExistsOnRemote_def perform_def Let_def)

lemma processDate_push_failed:
  assumes "success (fst (createBranch git (''auto-'' @ formatDate date) remote False
                           (snd (checkoutBase git remote t))))"
    and "success (fst (createCommits git n (formatDate date) repoPath
                         (snd (createBranch git (''auto-'' @ formatDate date) remote False
                                 (snd (checkoutBase git remote t))))))"
    and "\<not> success (fst (pushBranch git (''auto-'' @ formatDate date) remote False
                           (snd (createCommits git n (formatDate date) repoPath
                                   (snd (createBranch git (''auto-'' @ formatDate date) remote False
                                           (snd (checkoutBase git remote t))))))))"
  shows "processDate git date n remote prOpts repoPath t
     = (let b = createBranch git (''auto-'' @ formatDate date) remote False
                  (snd (checkoutBase git remote t));
            c = createCommits git n (formatDate date) repoPath (snd b);
            p = pushBranch git (''auto-'' @ formatDate date) remote False (snd c)
        in (\<lparr>success = False, message = ''Failed to push: '' @ message (fst p),
              results = \<lparr>resDate = formatDate date, resBranch = Some (''auto-'' @ formatDate date),
                         resBranchResult = Some (fst b), resCommits = Some (fst c),
                         resPush = Some (fst p), resPr = None\<rparr>\<rparr>, snd p))"
proof -
  let ?bn = "''auto-'' @ formatDate date"
  obtain base t1 where cb: "checkoutBase git remote t = (base, t1)"
    by (cases "checkoutBase git remote t")
  obtain b t2 where br: "createBranch git ?bn remote False t1 = (b, t2)"
    by (cases "createBranch git ?bn remote False t1")
  obtain c t3 where cc: "createCommits git n (formatDate date) repoPath t2 = (c, t3)"
    by (cases "createCommits git n (formatDate date) repoPath t2")
  obtain p t4 where pp: "pushBranch git ?bn remote False t3 = (p, t4)"
    by (cases "pushBranch git ?bn remote False t3")
  have ok: "success b" "success c" "\<not> success p"
    using assms cb br cc pp by simp_all
  show ?thesis
    unfolding processDate_def Let_def cb snd_conv fst_conv prod.case br cc pp
    using ok by simp
qed

text \<open>
  Claim C3, amended: for every push of an assignment's branch, if the push fails with a
  non-fast-forward condition (an error whose message contains \<open>non-fast-forward\<close> or
  \<open>fetch first\<close>), the pipeline retries exactly once, with a forced push, and the
  outcome of that retry, whatever it is, is the outcome of the push; no more than these
  two pushes are made.  Any other failure of the push, and any failure of the retry, is
  terminal for the assignment: \<open>processDate\<close> returns it after \<open>Failed to push: \<close>
  and does nothing more.  Before the checkout, \<open>createBranch\<close> deletes the branch on the
  remote when the fetch and the listing of the remote branches succeed and list it, and
  goes on in the same way whether the deletion succeeds or fails; when the fetch fails,
  or the branch is not listed, nothing is deleted.  A non-fast-forward failure of the
  first push is therefore never the outcome; a failure of the forced retry is.
\<close>

theorem C3_push_retry:
  assumes "gitGetRemotes git (fst s) = (Inr remotes, w1)" and "remote \<in> set remotes"
    and "gitPush git remote branchName False w1 = (Inl msg, w2)"
  shows "(\<not> isNonFastForward msg \<longrightarrow>
            pushBranch git branchName remote False s =
              (\<lparr>success = False, message = ''Error pushing branch: '' @ msg\<rparr>,
               (w2, snd s @ [GetRemotes, Push remote branchName False])))
       \<and> (isNonFastForward msg \<longrightarrow>
            pushBranch git branchName remote False s =
              pushBranch git branchName remote True (w2, snd s @ [GetRemotes, Push remote branchName False])
            \<and> (\<forall>remotes' w3 outcome w4.
                  gitGetRemotes git w2 = (Inr remotes', w3) \<longrightarrow> remote \<in> set remotes' \<longrightarrow>
                  gitPush git remote branchName True w3 = (outcome, w4) \<longrightarrow>
                  pushBranch git branchName remote False s =
                    ((case outcome of
                        Inr u \<Rightarrow> \<lparr>success = True,
                                   message = ''Branch '' @ quoted branchName @ '' pushed to '' @ remote\<rparr>
                      | Inl msg' \<Rightarrow> \<lparr>success = False, message = ''Error pushing branch: '' @ msg'\<rparr>),
                     (w4, snd s @ [GetRemotes, Push remote branchName False,
                                   GetRemotes, Push remote branchName True]))))
       \<and> (filter isPush (effectsSince s (snd (pushBranch git branchName remote False s)))
             = [Push remote branchName False]
          \<or> filter isPush (effectsSince s (snd (pushBranch git branchName remote False s)))
             = [Push remote branchName False, Push remote branchName True])
       \<and> (\<forall>t branches u1 u2 remoteBranches u3 deletion u4.
             gitBranchLocal git (fst t) = (Inr branches, u1) \<longrightarrow>
             gitFetch git remote u1 = (Inr (), u2) \<longrightarrow>
             gitBranchRemotes git u2 = (Inr remoteBranches, u3) \<longrightarrow>
             remote @ ''/'' @ branchName \<in> set remoteBranches \<longrightarrow>
             gitPush git remote ('':'' @ branchName) False u3 = (deletion, u4) \<longrightarrow>
             createBranch git branchName remote False t
               = checkoutAndVerify git branchName (branchName \<in> set branches) True
                   (u4, snd t @ [BranchLocal, Fetch remote, BranchRemotes,
                                 Push remote ('':'' @ branchName) False]))
       \<and> (\<forall>t branches u1 u2 remoteBranches u3.
             gitBranchLocal git (fst t) = (Inr branches, u1) \<longrightarrow>
             gitFetch git remote u1 = (Inr (), u2) \<longrightarrow>
             gitBranchRemotes git u2 = (Inr remoteBranches, u3) \<longrightarrow>
             remote @ ''/'' @ branchName \<notin> set remoteBranches \<longrightarrow>
             createBranch git branchName remote False t
               = checkoutAndVerify git branchName (branchName \<in> set branches) False
                   (u3, snd t @ [BranchLocal, Fetch remote, BranchRemotes]))
       \<and> (\<forall>t branches u1 failure u2.
             gitBranchLocal git (fst t) = (Inr branches, u1) \<longrightarrow>
             gitFetch git remote u1 = (Inl failure, u2) \<longrightarrow>
             createBranch git branchName remote False t
               = checkoutAndVerify git branchName (branchName \<in> set branches) False
                   (u2, snd t @ [BranchLocal, Fetch remote]))
       \<and> (\<forall>t date n prOpts repoPath b c p.
             branchName = ''auto-'' @ formatDate date \<longrightarrow>
             b = createBranch git branchName remote False (snd (checkoutBase git remote t)) \<longrightarrow>
             c = createCommits git n (formatDate date) repoPath (snd b) \<longrightarrow>
             p = pushBranch git branchName remote False (snd c) \<longrightarrow>
             success (fst b) \<longrightarrow> success (fst c) \<longrightarrow> \<not> success (fst p) \<longrightarrow>
             processDate git date n remote prOpts repoPath t
               = (\<lparr>success = False, message = ''Failed to push: '' @ message (fst p),
                   results = \<lparr>resDate = formatDate date, resBranch = Some branchName,
                              resBranchResult = Some (fst b), resCommits = Some (fst c),
                              resPush = Some (fst p), resPr = None\<rparr>\<rparr>,
                  snd p))"
proof -
  note push = pushBranch_retry [OF assms]
  have found: "\<forall>t branches u1 u2 remoteBranches u3 deletion u4.
             gitBranchLocal git (fst t) = (Inr branches, u1) \<longrightarrow>
             gitFetch git remote u1 = (Inr (), u2) \<longrightarrow>
             gitBranchRemotes git u2 = (Inr remoteBranches, u3) \<longrightarrow>
             remote @ ''/'' @ branchName \<in> set remoteBranches \<longrightarrow>
             gitPush git remote ('':'' @ branchName) False u3 = (deletion, u4) \<longrightarrow>
             createBranch git branchName remote False t
               = checkoutAndVerify git branchName (branchName \<in> set branches) True
                   (u4, snd t @ [BranchLocal, Fetch remote, BranchRemotes,
                                 Push remote ('':'' @ branchName) False])"
    by (intro allI impI) (rule createBranch_found_on_remote)
  have absent: "\<forall>t branches u1 u2 remoteBranches u3.
             gitBranchLocal git (fst t) = (Inr branches, u1) \<longrightarrow>
             gitFetch git remote u1 = (Inr (), u2) \<longrightarrow>
             gitBranchRemotes git u2 = (Inr remoteBranches, u3) \<longrightarrow>
             remote @ ''/'' @ branchName \<notin> set remoteBranches \<longrightarrow>
             createBranch git branchName remote False t
               = checkoutAndVerify git branchName (branchName \<in> set branches) False
                   (u3, snd t @ [BranchLocal, Fetch remote, BranchRemotes])"
    by (intro allI impI) (rule createBranch_not_on_remote)
  have nofetch: "\<forall>t branches u1 failure u2.
             gitBranchLocal git (fst t) = (Inr branches, u1) \<longrightarrow>
             gitFetch git remote u1 = (Inl failure, u2) \<longrightarrow>
             createBranch git branchName remote False t
               = checkoutAndVerify git branchName (branchName \<in> set branches) False
                   (u2, snd t @ [BranchLocal, Fetch remote])"
    by (intro allI impI) (rule createBranch_fetch_failed)
  have terminal: "\<forall>t date n prOpts repoPath b c p.
             branchName = ''auto-'' @ formatDate date \<longrightarrow>
             b = createBranch git branchName remote False (snd (checkoutBase git remote t)) \<longrightarrow>
             c = createCommits git n (formatDate date) repoPath (snd b) \<longrightarrow>
             p = pushBranch git branchName remote False (snd c) \<longrightarrow>
             success (fst b) \<longrightarrow> success (fst c) \<longrightarrow> \<not> success (fst p) \<longrightarrow>
             processDate git date n remote prOpts repoPath t
               = (\<lparr>success = False, message = ''Failed to push: '' @ message (fst p),
                   results = \<lparr>resDate = formatDate date, resBranch = Some branchName,
                              resBranchResult = Some (fst b), resCommits = Some (fst c),
                              resPush = Some (fst p), resPr = None\<rparr>\<rparr>,
                  snd p)"
  proof (intro allI impI)
    fix t date n prOpts repoPath b c p
    assume bn: "branchName = ''auto-'' @ formatDate date"
      and b: "b = createBranch git branchName remote False (snd (checkoutBase git remote t))"
      and c: "c = createCommits git n (formatDate date) repoPath (snd b)"
      and p: "p = pushBranch git branchName remote False (snd c)"
      and ok: "success (fst b)" "success (fst c)" "\<not> success (fst p)"
    show "processDate git date n remote prOpts repoPath t
               = (\<lparr>success = False, message = ''Failed to push: '' @ message (fst p),
                   results = \<lparr>resDate = formatDate date, resBranch = Some branchName,
                              resBranchResult = Some (fst b), resCommits = Some (fst c),
                              resPush = Some (fst p), resPr = None\<rparr>\<rparr>,
                  snd p)"
      using processDate_push_failed [of git date remote t n repoPath prOpts] ok
      unfolding p c b bn by (simp add: Let_def)
  qed
  from push found absent nofetch terminal show ?thesis by (intro conjI) blast+
qed

lemma readOnlyRemote_simps:
  "gitBranchLocal readOnlyRemote = (\<lambda>w. (Inr [''main''], w))"
  "gitFetch readOnlyRemote = (\<lambda>remote w. (Inr (), w))"
  "gitBranchRemotes readOnlyRemote = (\<lambda>w. (Inr [''origin/main'', ''origin/auto-2024-01-02''], w))"
  "gitPush readOnlyRemote = (\<lambda>remote ref force w. (Inl ''Permission denied (publickey)'', w))"
  "gitCheckout readOnlyRemote = (\<lambda>branchName w. (Inr (), w))"
  "gitCheckoutLocalBranch readOnlyRemote = (\<lambda>branchName w. (Inr (), w))"
  "gitRevparseHead readOnlyRemote = (\<lambda>w. (Inr ''auto-2024-01-02'', w))"
  "gitGetRemotes readOnlyRemote = (\<lambda>w. (Inr [''origin''], w))"
  "gitPull readOnlyRemote = (\<lambda>remote branchName w. (Inr (), w))"
  "fsExistsSync readOnlyRemote = (\<lambda>p w. (False, w))"
  "fsWriteFileSync readOnlyRemote = (\<lambda>p content w. (Inr (), w))"
  "gitAdd readOnlyRemote = (\<lambda>file w. (Inr (), w))"
  "gitCommit readOnlyRemote = (\<lambda>msg date w. (Inr (), w))"
  "gitLog readOnlyRemote = (\<lambda>args w. (Inr None, w))"
  "utcOffsetMs readOnlyRemote = 0"
  by (simp_all add: readOnlyRemote_def denyingRemote_def)

lemma readOnly_checkoutBase:
  "checkoutBase readOnlyRemote ''origin'' ((), tr)
     = (''main'', ((), tr @ [Checkout ''main'', Pull ''origin'' ''main'']))"
  by (simp add: checkoutBase_def perform_def readOnlyRemote_simps)

lemma readOnly_createBranch:
  "createBranch readOnlyRemote ''auto-2024-01-02'' ''origin'' False ((), tr) =
     (\<lparr>success = True, message = ''Branch '' @ quoted ''auto-2024-01-02'' @ '' created/checked out'',
       existedRemotely = Some True\<rparr>,
      ((), tr @ [BranchLocal, Fetch ''origin'', BranchRemotes, Push ''origin'' '':auto-2024-01-02'' False,
                 CheckoutLocalBranch ''auto-2024-01-02'', RevparseHead]))"
  by (simp add: createBranch_def checkoutAndVerify_def branchExistsOnRemote_def
      deleteRemoteBranch_def perform_def readOnlyRemote_simps)

lemma readOnly_createCommits:
  "createCommits readOnlyRemote (Suc 0) ''2024-01-02'' (Some ''/repo'') ((), tr) =
     (\<lparr>success = True, message = ''Created 1 commits'',
       commitResults = [\<lparr>cSuccess = True, cMessage = ''Commit 1 created for 2024-01-02'',
                          cCommitDate = ''2024-01-02'', cCommitHash = None,
                          cCommitTimestamp = ''2024-01-02T12:00:00.000Z''\<rparr>]\<rparr>,
      ((), tr @ [ExistsSync ''/repo/commits.txt'',
                 WriteFileSync ''/repo/commits.txt''
                   (''2024-01-02 - Commit 1 at 2024-01-02T12:00:00.000Z'' @ [CHR 0x0A]),
                 Add ''commits.txt'',
                 Commit ''Auto commit 1 for 2024-01-02'' ''2024-01-02T12:00:00.000Z'',
                 Log1]))"
  by (simp add: createCommits_def resolveRepoPath_def perform_def readOnlyRemote_simps
      date_2024_01_02 string_eval Let_def)

lemma readOnly_pushBranch:
  "pushBranch readOnlyRemote ''auto-2024-01-02'' ''origin'' False ((), tr) =
     (\<lparr>success = False, message = ''Error pushing branch: Permission denied (publickey)''\<rparr>,
      ((), tr @ [GetRemotes, Push ''origin'' ''auto-2024-01-02'' False]))"
proof -
  have nff: "\<not> isNonFastForward ''Permission denied (publickey)''"
    by (simp add: isNonFastForward_def startsWith_def)
  show ?thesis
    using pushBranch_first_rejected [of readOnlyRemote "((), tr)" "[''origin'']" "()" "''origin''"
        "''auto-2024-01-02''" "''Permission denied (publickey)''" "()"] nff
    by (simp add: readOnlyRemote_simps)
qed

theorem C3_push_retry_witness:
  "gitGetRemotes divergedRemote () = (Inr [''origin''], ())
   \<and> gitPush divergedRemote ''origin'' ''auto-2024-01-02'' False ()
        = (Inl ''! [rejected] (non-fast-forward)'', ())
   \<and> isNonFastForward ''! [rejected] (non-fast-forward)''
   \<and> pushBranch divergedRemote ''auto-2024-01-02'' ''origin'' False ((), [])
        = (\<lparr>success = True, message = ''Branch '' @ quoted ''auto-2024-01-02'' @ '' pushed to origin''\<rparr>,
           ((), [GetRemotes, Push ''origin'' ''auto-2024-01-02'' False,
                 GetRemotes, Push ''origin'' ''auto-2024-01-02'' True]))
   \<and> gitPush readOnlyRemote ''origin'' ''auto-2024-01-02'' False ()
        = (Inl ''Permission denied (publickey)'', ())
   \<and> isNonFastForward ''Permission denied (publickey)'' = False
   \<and> pushBranch readOnlyRemote ''auto-2024-01-02'' ''origin'' False ((), [])
        = (\<lparr>success = False, message = ''Error pushing branch: Permission denied (publickey)''\<rparr>,
           ((), [GetRemotes, Push ''origin'' ''auto-2024-01-02'' False]))
   \<and> gitPush denyingRemote ''origin'' '':auto-2024-01-02'' False ()
        = (Inl ''! [remote rejected] (deletion prohibited)'', ())
   \<and> createBranch denyingRemote ''auto-2024-01-02'' ''origin'' False ((), [])
        = (\<lparr>success = True, message = ''Branch '' @ quoted ''auto-2024-01-02'' @ '' created/checked out'',
            existedRemotely = Some True\<rparr>,
           ((), [BranchLocal, Fetch ''origin'', BranchRemotes,
                 Push ''origin'' '':auto-2024-01-02'' False,
                 CheckoutLocalBranch ''auto-2024-01-02'', RevparseHead]))
   \<and> success (fst (processDate readOnlyRemote \<lparr>dayNo = 19724, msOfDay = 0\<rparr> (Suc 0) ''origin''
                     None (Some ''/repo'') ((), []))) = False
   \<and> message (fst (processDate readOnlyRemote \<lparr>dayNo = 19724, msOfDay = 0\<rparr> (Suc 0) ''origin''
                     None (Some ''/repo'') ((), [])))
        = ''Failed to push: Error pushing branch: Permission denied (publickey)''
   \<and> filter isPush (snd (snd (processDate readOnlyRemote \<lparr>dayNo = 19724, msOfDay = 0\<rparr> (Suc 0)
                                 ''origin'' None (Some ''/repo'') ((), []))))
        = [Push ''origin'' '':auto-2024-01-02'' False, Push ''origin'' ''auto-2024-01-02'' False]"
proof -
  let ?d = "\<lparr>dayNo = 19724, msOfDay = 0\<rparr>"
  have g: "gitGetRemotes divergedRemote (fst ((), [])) = (Inr [''origin''], ())"
    and g': "gitGetRemotes readOnlyRemote (fst ((), [])) = (Inr [''origin''], ())"
    and g'': "gitGetRemotes denyingRemote (fst ((), [])) = (Inr [''origin''], ())"
    by (simp_all add: divergedRemote_def readOnlyRemote_def denyingRemote_def)
  have m: "''origin'' \<in> set [''origin'']" by simp
  have p: "gitPush divergedRemote ''origin'' ''auto-2024-01-02'' False ()
             = (Inl ''! [rejected] (non-fast-forward)'', ())"
    and f: "gitPush divergedRemote ''origin'' ''auto-2024-01-02'' True () = (Inr (), ())"
    and p': "gitPush readOnlyRemote ''origin'' ''auto-2024-01-02'' False ()
             = (Inl ''Permission denied (publickey)'', ())"
    and p'': "gitPush denyingRemote ''origin'' ''auto-2024-01-02'' False ()
             = (Inl ''! [rejected] (non-fast-forward)'', ())"
    and del: "gitPush denyingRemote ''origin'' ('':'' @ ''auto-2024-01-02'') False ()
             = (Inl ''! [remote rejected] (deletion prohibited)'', ())"
    by (simp_all add: divergedRemote_def readOnlyRemote_def denyingRemote_def startsWith_def)
  have n: "isNonFastForward ''! [rejected] (non-fast-forward)''"
    and n': "\<not> isNonFastForward ''Permission denied (publickey)''"
    by (simp_all add: isNonFastForward_def startsWith_def)
  note a = C3_push_retry [OF g m p]
  note b = C3_push_retry [OF g' m p']
  note c = C3_push_retry [OF g'' m p'']
  have one: "pushBranch divergedRemote ''auto-2024-01-02'' ''origin'' False ((), [])
        = (\<lparr>success = True, message = ''Branch '' @ quoted ''auto-2024-01-02'' @ '' pushed to origin''\<rparr>,
           ((), [GetRemotes, Push ''origin'' ''auto-2024-01-02'' False,
                 GetRemotes, Push ''origin'' ''auto-2024-01-02'' True]))"
    using a [THEN conjunct2, THEN conjunct1, rule_format, OF n, THEN conjunct2, rule_format,
        OF g [simplified] m f]
    by simp
  have two: "pushBranch readOnlyRemote ''auto-2024-01-02'' ''origin'' False ((), [])
        = (\<lparr>success = False, message = ''Error pushing branch: Permission denied (publickey)''\<rparr>,
           ((), [GetRemotes, Push ''origin'' ''auto-2024-01-02'' False]))"
    using b [THEN conjunct1, rule_format, OF n'] by simp
  have bl: "gitBranchLocal denyingRemote (fst ((), [])) = (Inr [''main''], ())"
    and ft: "gitFetch denyingRemote ''origin'' () = (Inr (), ())"
    and br: "gitBranchRemotes denyingRemote () = (Inr [''origin/main'', ''origin/auto-2024-01-02''], ())"
    by (simp_all add: denyingRemote_simps)
  have listed: "''origin'' @ ''/'' @ ''auto-2024-01-02'' \<in> set [''origin/main'', ''origin/auto-2024-01-02'']"
    by simp
  have three: "createBranch denyingRemote ''auto-2024-01-02'' ''origin'' False ((), [])
        = (\<lparr>success = True, message = ''Branch '' @ quoted ''auto-2024-01-02'' @ '' created/checked out'',
            existedRemotely = Some True\<rparr>,
           ((), [BranchLocal, Fetch ''origin'', BranchRemotes,
                 Push ''origin'' '':auto-2024-01-02'' False,
                 CheckoutLocalBranch ''auto-2024-01-02'', RevparseHead]))"
    using c [THEN conjunct2, THEN conjunct2, THEN conjunct2, THEN conjunct1, rule_format,
        OF bl ft br listed del]
    by (simp add: checkoutAndVerify_def perform_def denyingRemote_simps)
  have fd: "''auto-2024-01-02'' = ''auto-'' @ formatDate ?d"
    by (simp add: date_2024_01_02)
  define bres where "bres = createBranch readOnlyRemote ''auto-2024-01-02'' ''origin'' False
                              (snd (checkoutBase readOnlyRemote ''origin'' ((), [])))"
  define cres where "cres = createCommits readOnlyRemote (Suc 0) (formatDate ?d) (Some ''/repo'') (snd bres)"
  define pres where "pres = pushBranch readOnlyRemote ''auto-2024-01-02'' ''origin'' False (snd cres)"
  have bv: "bres = (\<lparr>success = True, message = ''Branch '' @ quoted ''auto-2024-01-02'' @ '' created/checked out'',
                     existedRemotely = Some True\<rparr>,
                    ((), [Checkout ''main'', Pull ''origin'' ''main'', BranchLocal, Fetch ''origin'',
                          BranchRemotes, Push ''origin'' '':auto-2024-01-02'' False,
                          CheckoutLocalBranch ''auto-2024-01-02'', RevparseHead]))"
    unfolding bres_def by (simp add: readOnly_checkoutBase readOnly_createBranch)
  have cs: "success (fst cres)" and ctr: "filter isPush (snd (snd cres)) = [Push ''origin'' '':auto-2024-01-02'' False]"
    unfolding cres_def bv by (simp_all add: date_2024_01_02 readOnly_createCommits)
  obtain ctrace where cst: "snd cres = ((), ctrace)" by (cases "snd cres") simp
  have pv: "pres = (\<lparr>success = False, message = ''Error pushing branch: Permission denied (publickey)''\<rparr>,
                    ((), ctrace @ [GetRemotes, Push ''origin'' ''auto-2024-01-02'' False]))"
    unfolding pres_def cst by (rule readOnly_pushBranch)
  have run: "processDate readOnlyRemote ?d (Suc 0) ''origin'' None (Some ''/repo'') ((), [])
      = (\<lparr>success = False, message = ''Failed to push: '' @ message (fst pres),
          results = \<lparr>resDate = formatDate ?d, resBranch = Some ''auto-2024-01-02'',
                     resBranchResult = Some (fst bres), resCommits = Some (fst cres),
                     resPush = Some (fst pres), resPr = None\<rparr>\<rparr>,
         snd pres)"
    using b [THEN conjunct2, THEN conjunct2, THEN conjunct2, THEN conjunct2, THEN conjunct2,
        THEN conjunct2, rule_format, OF fd bres_def cres_def pres_def _ cs]
    by (simp add: bv pv)
  have four: "success (fst (processDate readOnlyRemote ?d (Suc 0) ''origin'' None (Some ''/repo'')
                              ((), []))) = False"
    and five: "message (fst (processDate readOnlyRemote ?d (Suc 0) ''origin'' None (Some ''/repo'')
                              ((), [])))
        = ''Failed to push: Error pushing branch: Permission denied (publickey)''"
    unfolding run by (simp_all add: pv)
  have six: "filter isPush (snd (snd (processDate readOnlyRemote ?d (Suc 0) ''origin'' None
                                       (Some ''/repo'') ((), []))))
        = [Push ''origin'' '':auto-2024-01-02'' False, Push ''origin'' ''auto-2024-01-02'' False]"
    unfolding run using ctr cst by (simp add: pv)
  have del': "gitPush denyingRemote ''origin'' '':auto-2024-01-02'' False ()
             = (Inl ''! [remote rejected] (deletion prohibited)'', ())"
    using del by simp
  show ?thesis
    using g p n one p' n' two del' three four five six by simp
qed

section \<open>Properties of commit synthesis\<close>

lemma digit_cases:
  assumes "k < (10::nat)"
  shows "k = 0 \<or> k = 1 \<or> k = 2 \<or> k = 3 \<or> k = 4 \<or> k = 5 \<or> k = 6 \<or> k = 7 \<or> k = 8 \<or> k = 9"
  using assms by arith

lemma digitValue_nth: "k < 10 \<Longrightarrow> digitValue (''0123456789'' ! k) = Some k"
  by (drule digit_cases) (elim disjE, simp_all add: digitValue_def)

lemma digit_nth: "k < 10 \<Longrightarrow> ''0123456789'' ! k \<in> set ''0123456789''"
  by (drule digit_cases) (elim disjE, simp_all)

lemma digitValue_digitChar: "digitValue (digitChar d) = Some (d mod 10)"
  unfolding digitChar_def by (rule digitValue_nth) simp

lemma digitChar_in_digits: "digitChar d \<in> set ''0123456789''"
  unfolding digitChar_def by (rule digit_nth) simp

lemma stringOfNat_digits: "set (stringOfNat n) \<subseteq> set ''0123456789''"
proof (induction n rule: stringOfNat.induct)
  case (1 n)
  show ?case
  proof (cases "n < 10")
    case True
    then show ?thesis using digitChar_in_digits [of n] by (simp add: stringOfNat_small)
  next
    case False
    then have "stringOfNat n = stringOfNat (n div 10) @ [digitChar n]"
      by (simp add: stringOfNat_large)
    with 1 False digitChar_in_digits [of n] show ?thesis by auto
  qed
qed

lemma stringOfNat_nonempty: "stringOfNat n \<noteq> []"
  by (cases "n < 10") (simp_all add: stringOfNat_small stringOfNat_large)

lemma numberFrom_append:
  "numberFrom acc (xs @ [c]) =
     (case numberFrom acc xs of
        None \<Rightarrow> None
      | Some v \<Rightarrow> (case digitValue c of None \<Rightarrow> None | Some d \<Rightarrow> Some (10 * v + d)))"
  by (induction xs arbitrary: acc) (auto split: option.splits)

lemma Number_stringOfNat: "Number (stringOfNat n) = Some n"
proof (induction n rule: stringOfNat.induct)
  case (1 n)
  show ?case
  proof (cases "n < 10")
    case True
    then show ?thesis
      using digitValue_digitChar [of n] by (simp add: stringOfNat_small Number_def)
  next
    case False
    then have s: "stringOfNat n = stringOfNat (n div 10) @ [digitChar n]"
      by (simp add: stringOfNat_large)
    have "Number (stringOfNat (n div 10)) = Some (n div 10)" using 1 False by simp
    then show ?thesis
      unfolding s Number_def numberFrom_append
      by (simp add: digitValue_digitChar)
  qed
qed

lemma Number_padStart2: "Number (padStart2 (stringOfNat n)) = Some n"
proof -
  have z: "digitValue CHR ''0'' = Some 0" by (simp add: digitValue_def)
  have "Number (CHR ''0'' # stringOfNat n) = Number (stringOfNat n)"
    by (simp add: Number_def z)
  then show ?thesis
    using Number_stringOfNat [of n] stringOfNat_nonempty [of n]
    by (auto simp: padStart2_def)
qed

lemma splitOn_no_sep: "sep \<notin> set a \<Longrightarrow> splitOn sep a = [a]"
  by (induction a) auto

lemma splitOn_sep: "sep \<notin> set a \<Longrightarrow> splitOn sep (a @ sep # rest) = a # splitOn sep rest"
  by (induction a) (auto split: list.splits)

lemma stringOfNat_no_dash: "CHR ''-'' \<notin> set (stringOfNat n)"
  using stringOfNat_digits [of n] by auto

lemma stringOfNat_no_newline: "CHR 0x0A \<notin> set (stringOfNat n)"
  using stringOfNat_digits [of n] by auto

lemma padStart2_avoids: "c \<noteq> CHR ''0'' \<Longrightarrow> c \<notin> set s \<Longrightarrow> c \<notin> set (padStart2 s)"
  by (simp add: padStart2_def)

lemma padZeros_avoids: "c \<noteq> CHR ''0'' \<Longrightarrow> c \<notin> set s \<Longrightarrow> c \<notin> set (padZeros k s)"
  by simp

lemma formatDate_shape:
  assumes "0 \<le> getFullYear d"
  shows "formatDate d = stringOfNat (nat (getFullYear d)) @ CHR ''-'' #
          (padStart2 (stringOfNat (getMonth d + 1)) @ CHR ''-'' # padStart2 (stringOfNat (getDate d)))"
  using assms unfolding formatDate_def stringOfInt_def by simp

lemma formatDate_parts:
  assumes "0 \<le> getFullYear d"
  shows "splitOn CHR ''-'' (formatDate d) =
           [stringOfNat (nat (getFullYear d)), padStart2 (stringOfNat (getMonth d + 1)),
            padStart2 (stringOfNat (getDate d))]"
proof -
  have a: "CHR ''-'' \<notin> set (stringOfNat (nat (getFullYear d)))"
    by (rule stringOfNat_no_dash)
  have b: "CHR ''-'' \<notin> set (padStart2 (stringOfNat (getMonth d + 1)))"
    by (rule padStart2_avoids) (simp_all add: stringOfNat_no_dash)
  have c: "CHR ''-'' \<notin> set (padStart2 (stringOfNat (getDate d)))"
    by (rule padStart2_avoids) (simp_all add: stringOfNat_no_dash)
  show ?thesis
    unfolding formatDate_shape [OF assms]
    by (simp only: splitOn_sep [OF a] splitOn_sep [OF b] splitOn_no_sep [OF c])
qed

lemma commitDateOf_formatDate:
  assumes "100 \<le> getFullYear d"
  shows "commitDateOf (formatDate d) =
           Some \<lparr>dayNo = makeDay (getFullYear d) (int (getMonth d)) (int (getDate d)),
                 msOfDay = 43200000\<rparr>"
proof -
  have y: "0 \<le> getFullYear d" using assms by simp
  show ?thesis
    unfolding commitDateOf_def formatDate_parts [OF y]
    using assms by (simp add: Number_stringOfNat Number_padStart2 newDateNoon_def)
qed

lemma formatDate_no_newline:
  assumes "0 \<le> getFullYear d"
  shows "CHR 0x0A \<notin> set (formatDate d)"
proof -
  have b: "CHR 0x0A \<notin> set (padStart2 (stringOfNat (getMonth d + 1)))"
    by (rule padStart2_avoids) (simp_all add: stringOfNat_no_newline)
  have c: "CHR 0x0A \<notin> set (padStart2 (stringOfNat (getDate d)))"
    by (rule padStart2_avoids) (simp_all add: stringOfNat_no_newline)
  show ?thesis
    unfolding formatDate_shape [OF assms]
    using b c stringOfNat_no_newline [of "nat (getFullYear d)"] by simp
qed

lemma toISOString_no_newline:
  assumes "toISOString off d = Inr ts"
  shows "CHR 0x0A \<notin> set ts"
proof -
  have pz: "\<And>k n. CHR 0x0A \<notin> set (padZeros k (stringOfNat n))"
    by (rule padZeros_avoids) (simp_all add: stringOfNat_no_newline)
  have y: "\<And>y. CHR 0x0A \<notin> set (isoYear y)"
    unfolding isoYear_def using pz by (simp del: padZeros.simps)
  have p: "\<And>ymd ms. CHR 0x0A \<notin> set (isoOfParts ymd ms)"
    unfolding isoOfParts_def using pz y by (simp del: padZeros.simps)
  from assms have "\<exists>ymd ms. ts = isoOfParts ymd ms"
    unfolding toISOString_def isoOfTime_def by (metis Inl_Inr_False sum.inject(2))
  with p show ?thesis by blast
qed


lemma contentAfter_Suc:
  "contentAfter content0 date timestamp (Suc k) =
     contentAfter content0 date timestamp k @ commitLine date timestamp k @ [CHR 0x0A]"
  by (simp add: contentAfter_def)

lemma perform_cases:
  obtains r s1 where "perform eff prim s = (r, s1)" and "snd s1 = snd s @ [eff]"
  by (cases "prim (fst s)") (simp add: perform_def)

lemma createCommitsLoop_effects:
  assumes "createCommitsLoop git k i date timestamp filePath (contentAfter content0 date timestamp i)
             acc s = (Inr res, s')"
  shows "snd s' = snd s @ concat (map (commitSteps filePath content0 date timestamp) [i..<i + k])
       \<and> length res = length acc + k"
  using assms
proof (induction k arbitrary: i acc s)
  case 0
  then show ?case by simp
next
  case (Suc k)
  let ?content = "contentAfter content0 date timestamp (Suc i)"
  let ?msg = "''Auto commit '' @ stringOfNat (i + 1) @ '' for '' @ date"
  have c: "contentAfter content0 date timestamp i @ date @ '' - Commit '' @ stringOfNat (i + 1)
             @ '' at '' @ timestamp @ [CHR 0x0A] = ?content"
    by (simp add: contentAfter_Suc commitLine_def)
  obtain r1 s1 where p1: "perform (WriteFileSync filePath ?content) (fsWriteFileSync git filePath ?content) s = (r1, s1)"
    and e1: "snd s1 = snd s @ [WriteFileSync filePath ?content]"
    by (rule perform_cases)
  obtain r2 s2 where p2: "perform (Add ''commits.txt'') (gitAdd git ''commits.txt'') s1 = (r2, s2)"
    and e2: "snd s2 = snd s1 @ [Add ''commits.txt'']"
    by (rule perform_cases)
  obtain r3 s3 where p3: "perform (Commit ?msg timestamp) (gitCommit git ?msg timestamp) s2 = (r3, s3)"
    and e3: "snd s3 = snd s2 @ [Commit ?msg timestamp]"
    by (rule perform_cases)
  obtain r4 s4 where p4: "perform Log1 (gitLog git [''-1'']) s3 = (r4, s4)"
    and e4: "snd s4 = snd s3 @ [Log1]"
    by (rule perform_cases)
  from Suc.prems have "\<exists>acc'. createCommitsLoop git k (i + 1) date timestamp filePath ?content acc' s4
                          = (Inr res, s') \<and> length acc' = length acc + 1"
    unfolding createCommitsLoop.simps Let_def c using p1 p2 p3 p4
    by (auto split: sum.splits option.splits)
  then obtain acc' where
    rec: "createCommitsLoop git k (i + 1) date timestamp filePath ?content acc' s4 = (Inr res, s')"
    and len: "length acc' = length acc + 1"
    by blast
  have i1: "i + 1 = Suc i" by simp
  from Suc.IH [of "Suc i" acc' s4] rec
  have ih: "snd s' = snd s4 @ concat (map (commitSteps filePath content0 date timestamp) [Suc i..<Suc i + k])"
    and l: "length res = length acc' + k"
    by (simp_all only: i1)
  have u: "[i..<i + Suc k] = i # [Suc i..<Suc i + k]"
    by (subst upt_rec) simp
  have steps: "snd s4 = snd s @ commitSteps filePath content0 date timestamp i"
    unfolding e4 e3 e2 e1 commitSteps_def by simp
  have "snd s' = snd s @ concat (map (commitSteps filePath content0 date timestamp) [i..<i + Suc k])"
    unfolding ih steps u by simp
  moreover have "length res = length acc + Suc k" using l len by simp
  ultimately show ?case by blast
qed


lemma resolveRepoPath_effects:
  "snd (snd (resolveRepoPath git repoPath s)) = snd s
   \<or> snd (snd (resolveRepoPath git repoPath s)) = snd s @ [Cwd]"
  by (simp add: resolveRepoPath_def perform_def split: prod.splits sum.splits option.splits)

lemma commitSteps_filter: "filter isCommitStep (commitSteps filePath content0 date timestamp i)
    = commitSteps filePath content0 date timestamp i"
  by (simp add: commitSteps_def)

lemma concat_commitSteps_filter:
  "filter isCommitStep (concat (map (commitSteps filePath content0 date timestamp) is))
     = concat (map (commitSteps filePath content0 date timestamp) is)"
  by (induction "is") (simp_all add: commitSteps_filter)

lemma createCommits_success:
  assumes "createCommits git n date repoPath s = (r, s')" and "success r"
  shows "\<exists>root s0 noon timestamp prelude.
           resolveRepoPath git repoPath s = (Some root, s0) \<and> root \<noteq> []
         \<and> commitDateOf date = Some noon
         \<and> toISOString (utcOffsetMs git) noon = Inr timestamp
         \<and> snd s' = snd s @ prelude
               @ concat (map (commitSteps (root @ ''/commits.txt'')
                               (initialContent git (root @ ''/commits.txt'') s0) date timestamp)
                           [0..<n])
         \<and> filter isCommitStep prelude = []
         \<and> length (commitResults r) = n"
proof -
  obtain po s0 where rp: "resolveRepoPath git repoPath s = (po, s0)"
    by (cases "resolveRepoPath git repoPath s")
  have e0: "snd s0 = snd s \<or> snd s0 = snd s @ [Cwd]"
    using resolveRepoPath_effects [of git repoPath s] rp by simp
  from assms rp obtain p where po: "po = Some p" and pne: "p \<noteq> []"
    unfolding createCommits_def by (cases po) (auto split: if_splits)
  let ?fp = "p @ ''/'' @ ''commits.txt''"
  have fp: "?fp = p @ ''/commits.txt''" by simp
  obtain ex s1 where x: "perform (ExistsSync ?fp) (fsExistsSync git ?fp) s0 = (ex, s1)"
    and e1: "snd s1 = snd s0 @ [ExistsSync ?fp]"
    by (rule perform_cases)
  obtain rd s2 where rdef: "(if ex then perform (ReadFileSync ?fp) (fsReadFileSync git ?fp) s1
           else (Inr [], s1)) = (rd, s2)"
    by (cases "if ex then perform (ReadFileSync ?fp) (fsReadFileSync git ?fp) s1 else (Inr [], s1)")
  have e2: "snd s2 = snd s1 \<or> snd s2 = snd s1 @ [ReadFileSync ?fp]"
  proof (cases ex)
    case True
    obtain r' s' where "perform (ReadFileSync ?fp) (fsReadFileSync git ?fp) s1 = (r', s')"
      and "snd s' = snd s1 @ [ReadFileSync ?fp]"
      by (rule perform_cases)
    with True rdef show ?thesis by simp
  next
    case False
    with rdef show ?thesis by simp
  qed
  from assms rp po pne x rdef obtain content0 noon timestamp made where
    rd: "rd = Inr content0" and cd: "commitDateOf date = Some noon"
    and ts: "toISOString (utcOffsetMs git) noon = Inr timestamp"
    and loop: "createCommitsLoop git n 0 date timestamp ?fp content0 [] s2 = (Inr made, s')"
    and r: "commitResults r = made"
    unfolding createCommits_def Let_def
    by (auto simp: createCommitsFailed_def split: sum.splits option.splits prod.splits)
  have ic: "initialContent git ?fp s0 = content0"
    using x rdef rd
    by (auto simp: initialContent_def perform_def split: prod.splits if_splits sum.splits)
  have c0: "contentAfter content0 date timestamp 0 = content0" by (simp add: contentAfter_def)
  from createCommitsLoop_effects [of git n 0 date timestamp ?fp content0 "[]" s2 made s'] loop c0
  have eff: "snd s' = snd s2 @ concat (map (commitSteps ?fp content0 date timestamp) [0..<n])"
    and len: "length made = n"
    by simp_all
  define prelude where "prelude = drop (length (snd s)) (snd s2)"
  have pre: "snd s2 = snd s @ prelude" and pf: "filter isCommitStep prelude = []"
    using e0 e1 e2 unfolding prelude_def by auto
  show ?thesis
    using rp po pne cd ts eff pre pf len r ic [unfolded fp] unfolding fp
    by (intro exI [of _ p] exI [of _ s0] exI [of _ noon] exI [of _ timestamp] exI [of _ prelude])
       simp
qed


lemma commits_of_steps:
  "filter isCommit (concat (map (commitSteps filePath content0 date timestamp) is))
     = map (\<lambda>i. Commit (''Auto commit '' @ stringOfNat (i + 1) @ '' for '' @ date) timestamp) is"
  by (induction "is") (simp_all add: commitSteps_def)

lemma isCommit_isCommitStep: "filter isCommit (filter isCommitStep es) = filter isCommit es"
proof -
  have "\<And>e. isCommit e \<Longrightarrow> isCommitStep e"
    subgoal for e by (cases e) simp_all
    done
  then show ?thesis by (induction es) auto
qed

lemma commitLine_no_newline:
  assumes "CHR 0x0A \<notin> set date" and "CHR 0x0A \<notin> set timestamp"
  shows "CHR 0x0A \<notin> set (commitLine date timestamp i)"
  using assms stringOfNat_no_newline [of "i + 1"] by (simp add: commitLine_def)

text \<open>
  A successful call of \<open>createCommits\<close> for the date string of a calendar day \<open>d\<close> of a
  year from 100 on and a count \<open>n\<close> leaves, in whatever environment it runs, exactly
  \<open>n\<close> commits.  Commit \<open>i\<close> is preceded by the writing of \<open>commits.txt\<close> in the
  repository, with the content the file had at the start and one line for each of the
  commits up to \<open>i\<close>, and by the staging of that file.  Every commit is authored at the
  instant whose local calendar fields are the year, month and day of \<open>d\<close> at
  12:00:00.000; no clock is read.
\<close>

lemma createCommits_dated:
  assumes "createCommits git n (formatDate d) repoPath s = (r, s')" and "success r"
    and "100 \<le> getFullYear d"
  shows "\<exists>root s0 timestamp.
           resolveRepoPath git repoPath s = (Some root, s0)
         \<and> toISOString (utcOffsetMs git)
             \<lparr>dayNo = makeDay (getFullYear d) (int (getMonth d)) (int (getDate d)),
              msOfDay = 43200000\<rparr> = Inr timestamp
         \<and> filter isCommitStep (effectsSince s s')
             = concat (map (commitSteps (root @ ''/commits.txt'')
                             (initialContent git (root @ ''/commits.txt'') s0)
                             (formatDate d) timestamp) [0..<n])
         \<and> filter isCommit (effectsSince s s')
             = map (\<lambda>i. Commit (''Auto commit '' @ stringOfNat (i + 1) @ '' for '' @ formatDate d) timestamp)
                 [0..<n]
         \<and> (\<forall>i content0. contentAfter content0 (formatDate d) timestamp (Suc i)
                   = contentAfter content0 (formatDate d) timestamp i
                       @ commitLine (formatDate d) timestamp i @ [CHR 0x0A]
                 \<and> CHR 0x0A \<notin> set (commitLine (formatDate d) timestamp i))
         \<and> length (commitResults r) = n"
proof -
  from createCommits_success [OF assms(1,2)] obtain root s0 noon timestamp prelude where
    rp: "resolveRepoPath git repoPath s = (Some root, s0)"
    and cd: "commitDateOf (formatDate d) = Some noon"
    and ts: "toISOString (utcOffsetMs git) noon = Inr timestamp"
    and eff: "snd s' = snd s @ prelude
                @ concat (map (commitSteps (root @ ''/commits.txt'')
                                (initialContent git (root @ ''/commits.txt'') s0)
                                (formatDate d) timestamp) [0..<n])"
    and pf: "filter isCommitStep prelude = []"
    and len: "length (commitResults r) = n"
    by blast
  have noon: "noon = \<lparr>dayNo = makeDay (getFullYear d) (int (getMonth d)) (int (getDate d)),
                        msOfDay = 43200000\<rparr>"
    using cd commitDateOf_formatDate [OF assms(3)] by simp
  have steps: "filter isCommitStep (effectsSince s s')
      = concat (map (commitSteps (root @ ''/commits.txt'')
                      (initialContent git (root @ ''/commits.txt'') s0)
                      (formatDate d) timestamp) [0..<n])"
    unfolding effectsSince_def eff using pf by (simp add: concat_commitSteps_filter)
  have commits: "filter isCommit (effectsSince s s')
      = map (\<lambda>i. Commit (''Auto commit '' @ stringOfNat (i + 1) @ '' for '' @ formatDate d) timestamp)
          [0..<n]"
    using isCommit_isCommitStep [of "effectsSince s s'"] unfolding steps
    by (simp add: commits_of_steps)
  have nl: "\<And>i. CHR 0x0A \<notin> set (commitLine (formatDate d) timestamp i)"
    using commitLine_no_newline formatDate_no_newline [of d] toISOString_no_newline [OF ts] assms(3)
    by simp
  show ?thesis
    using rp ts noon steps commits nl len contentAfter_Suc
    by (intro exI [of _ root] exI [of _ s0] exI [of _ timestamp]) simp
qed

lemma deny_createCommits_two:
  "success (fst (createCommits denyingRemote 2 ''2024-01-02'' (Some ''/repo'') ((), [])))"
  by (simp add: createCommits_def resolveRepoPath_def perform_def denyingRemote_simps
      date_2024_01_02 string_eval Let_def numeral_2_eq_2)

text \<open>Two commits for 2024-01-02 in a repository without \<open>commits.txt\<close>, at UTC.\<close>

lemma createCommits_dated_example:
  "filter isCommitStep (effectsSince ((), [])
         (snd (createCommits denyingRemote 2 (formatDate \<lparr>dayNo = 19724, msOfDay = 0\<rparr>)
                 (Some ''/repo'') ((), []))))
       = [WriteFileSync ''/repo/commits.txt''
            (''2024-01-02 - Commit 1 at 2024-01-02T12:00:00.000Z'' @ [CHR 0x0A]),
          Add ''commits.txt'',
          Commit ''Auto commit 1 for 2024-01-02'' ''2024-01-02T12:00:00.000Z'',
          Log1,
          WriteFileSync ''/repo/commits.txt''
            (''2024-01-02 - Commit 1 at 2024-01-02T12:00:00.000Z'' @ [CHR 0x0A]
               @ ''2024-01-02 - Commit 2 at 2024-01-02T12:00:00.000Z'' @ [CHR 0x0A]),
          Add ''commits.txt'',
          Commit ''Auto commit 2 for 2024-01-02'' ''2024-01-02T12:00:00.000Z'',
          Log1]"
proof -
  let ?d = "\<lparr>dayNo = 19724, msOfDay = 0\<rparr>"
  let ?run = "createCommits denyingRemote 2 (formatDate ?d) (Some ''/repo'') ((), [])"
  have fd: "formatDate ?d = ''2024-01-02''" by (rule date_2024_01_02(1))
  have ok: "success (fst ?run)" unfolding fd by (rule deny_createCommits_two)
  have yr: "100 \<le> getFullYear ?d" by (simp add: calendar_eval)
  have md: "makeDay (getFullYear ?d) (int (getMonth ?d)) (int (getDate ?d)) = 19724"
    by (simp add: makeDay_def calendar_eval)
  from createCommits_dated [of denyingRemote 2 ?d "Some ''/repo''" "((), [])" "fst ?run" "snd ?run",
      OF _ ok yr]
  obtain root s0 timestamp where
    rp: "resolveRepoPath denyingRemote (Some ''/repo'') ((), []) = (Some root, s0)"
    and ts: "toISOString (utcOffsetMs denyingRemote)
           \<lparr>dayNo = makeDay (getFullYear ?d) (int (getMonth ?d)) (int (getDate ?d)),
            msOfDay = 43200000\<rparr> = Inr timestamp"
    and cs: "filter isCommitStep (effectsSince ((), []) (snd ?run))
      = concat (map (commitSteps (root @ ''/commits.txt'')
                      (initialContent denyingRemote (root @ ''/commits.txt'') s0)
                      (formatDate ?d) timestamp) [0..<2])"
    by auto
  have t: "timestamp = ''2024-01-02T12:00:00.000Z''"
    using ts unfolding md by (simp add: denyingRemote_simps date_2024_01_02)
  have root: "root = ''/repo''" "s0 = ((), [])"
    using rp by (simp_all add: resolveRepoPath_def)
  have ic: "initialContent denyingRemote (''/repo'' @ ''/commits.txt'') ((), []) = []"
    by (simp add: initialContent_def denyingRemote_simps)
  have u: "[0..<2] = [0, Suc 0]" by (simp add: upt_conv_Cons)
  have u1: "[0..<Suc (Suc 0)] = [0, Suc 0]" "[0..<Suc 0] = [0]" by (simp_all add: upt_conv_Cons)
  note cs' = cs [unfolded root t fd ic u]
  show ?thesis
    unfolding fd cs'
    by (simp add: commitSteps_def contentAfter_def commitLine_def u1 string_eval)
qed

text \<open>
  Claim C6 says that every commit of an assignment carries the assignment's calendar
  date at local noon.  The date reaches \<open>createCommits\<close> as the string \<open>formatDate\<close>
  prints, whose year has as many digits as the year has, and is read back with
  \<open>new Date(year, month - 1, day, 12, 0, 0)\<close>, which takes a year from 0 to 99 for a
  year of the twentieth century.  The Monday 3 January of the year 50 is an eligible
  date; its assignment is committed at noon of 3 January 1950.
\<close>

theorem C6_two_digit_year:
  "getFullYear \<lparr>dayNo = - 701263, msOfDay = 0\<rparr> = 50
   \<and> shouldExcludeDate \<lparr>dayNo = - 701263, msOfDay = 0\<rparr> ''US'' = Inr False
   \<and> formatDate \<lparr>dayNo = - 701263, msOfDay = 0\<rparr> = ''50-01-03''
   \<and> commitDateOf (formatDate \<lparr>dayNo = - 701263, msOfDay = 0\<rparr>)
       = Some \<lparr>dayNo = - 7303, msOfDay = 43200000\<rparr>
   \<and> civilFromDays (- 7303) = (1950, 1, 3)
   \<and> success (fst (createCommits denyingRemote (Suc 0)
                     (formatDate \<lparr>dayNo = - 701263, msOfDay = 0\<rparr>) (Some ''/repo'') ((), [])))
   \<and> filter isCommit (effectsSince ((), [])
         (snd (createCommits denyingRemote (Suc 0)
                 (formatDate \<lparr>dayNo = - 701263, msOfDay = 0\<rparr>) (Some ''/repo'') ((), []))))
       = [Commit ''Auto commit 1 for 50-01-03'' ''1950-01-03T12:00:00.000Z'']"
proof -
  let ?d = "\<lparr>dayNo = - 701263, msOfDay = 0\<rparr>"
  have y: "getFullYear ?d = 50" by (simp add: calendar_eval)
  have x: "shouldExcludeDate ?d ''US'' = Inr False" by (simp add: filter_eval calendar_eval)
  have fd: "formatDate ?d = ''50-01-03''"
    by (simp add: formatDate_def calendar_eval string_eval)
  have cd: "commitDateOf ''50-01-03'' = Some \<lparr>dayNo = - 7303, msOfDay = 43200000\<rparr>"
    by (simp add: commitDateOf_def Number_def digitValue_def newDateNoon_def makeDay_def
        calendar_eval)
  have cv: "civilFromDays (- 7303) = (1950, 1, 3)" by (simp add: calendar_eval)
  have iso: "toISOString 0 \<lparr>dayNo = - 7303, msOfDay = 43200000\<rparr> = Inr ''1950-01-03T12:00:00.000Z''"
    by (simp add: toISOString_def isoOfTime_def isoOfParts_def isoYear_def calendar_eval string_eval)
  have run: "createCommits denyingRemote (Suc 0) ''50-01-03'' (Some ''/repo'') ((), []) =
     (\<lparr>success = True, message = ''Created 1 commits'',
       commitResults = [\<lparr>cSuccess = True, cMessage = ''Commit 1 created for 50-01-03'',
                          cCommitDate = ''50-01-03'', cCommitHash = None,
                          cCommitTimestamp = ''1950-01-03T12:00:00.000Z''\<rparr>]\<rparr>,
      ((), [ExistsSync ''/repo/commits.txt'',
            WriteFileSync ''/repo/commits.txt''
              (''50-01-03 - Commit 1 at 1950-01-03T12:00:00.000Z'' @ [CHR 0x0A]),
            Add ''commits.txt'',
            Commit ''Auto commit 1 for 50-01-03'' ''1950-01-03T12:00:00.000Z'',
            Log1]))"
    by (simp add: createCommits_def resolveRepoPath_def perform_def denyingRemote_simps
        cd iso string_eval Let_def)
  show ?thesis
    unfolding fd run using y x cd cv by (simp add: effectsSince_def)
qed


section \<open>Properties of the run\<close>

lemma processDates_records:
  "fst (processDates proc dates counts i acc s) =
     acc @ map (\<lambda>(date, k, sk). recordOf date (fst (proc date (countAt counts k) sk)))
             (zip dates (zip [i..<i + length dates] (startStates proc dates counts i s)))"
proof (induction dates arbitrary: i acc s)
  case Nil
  then show ?case by simp
next
  case (Cons date rest)
  obtain outcome s1 where p: "proc date (countAt counts i) s = (outcome, s1)"
    by (cases "proc date (countAt counts i) s")
  have u: "[i..<i + length (date # rest)] = i # [i + 1..<i + 1 + length rest]"
    by (subst upt_rec) simp
  have step: "processDates proc (date # rest) counts i acc s =
                processDates proc rest counts (i + 1) (acc @ [recordOf date outcome]) s1"
    using p by (cases outcome) (simp_all add: recordOf_def countAt_def Let_def)
  show ?case
    unfolding step Cons.IH u using p by simp
qed

lemma processDates_length:
  "length (fst (processDates proc dates counts i acc s)) = length acc + length dates"
proof -
  have "length (startStates proc dates counts i s) = length dates"
    by (induction dates arbitrary: i s) simp_all
  then show ?thesis by (simp add: processDates_records)
qed

lemma processDate_date:
  "resDate (results (fst (processDate env date n remote prOpts repoPath s))) = formatDate date"
  by (simp add: processDate_def Let_def split: prod.splits option.splits)

lemma recordOf_date:
  assumes "\<And>date n s r s'. proc date n s = (Inr r, s') \<Longrightarrow> resDate (results r) = formatDate date"
  shows "resDate (results (recordOf date (fst (proc date n s)))) = formatDate date"
proof (cases "proc date n s")
  case (Pair outcome s')
  then show ?thesis
    using assms by (cases outcome) (auto simp: recordOf_def exceptionResult_def)
qed

lemma processDates_dates:
  assumes "\<And>date n s r s'. proc date n s = (Inr r, s') \<Longrightarrow> resDate (results r) = formatDate date"
  shows "map (\<lambda>r. resDate (results r)) (fst (processDates proc dates counts i [] s))
           = map formatDate dates"
proof -
  have l: "length (startStates proc dates counts i s) = length dates"
    by (induction dates arbitrary: i s) simp_all
  have "map (\<lambda>r. resDate (results r)) (fst (processDates proc dates counts i [] s))
      = map (\<lambda>(date, k, sk). formatDate date)
          (zip dates (zip [i..<i + length dates] (startStates proc dates counts i s)))"
    unfolding processDates_records using recordOf_date [of proc, OF assms]
    by (simp add: case_prod_beta)
  also have "\<dots> = map formatDate (map fst
          (zip dates (zip [i..<i + length dates] (startStates proc dates counts i s))))"
    by (simp add: case_prod_beta)
  also have "\<dots> = map formatDate dates"
    using l by simp
  finally show ?thesis .
qed

lemma processDateCall_date:
  "processDateCall env remote prOpts actualRepoPath date n st = (Inr r, st')
     \<Longrightarrow> resDate (results r) = formatDate date"
  using processDate_date [of env date n remote prOpts "Some actualRepoPath" st]
  by (auto simp: processDateCall_def split: prod.splits)

lemma summarize_counts:
  "successCount (summarize plan rs) = length (filter success rs)"
  "failureCount (summarize plan rs) = length (filter (\<lambda>r. \<not> success r) rs)"
  "runResults (summarize plan rs) = rs"
  using sum_length_filter_compl [of success rs]
  by (simp_all add: summarize_def Let_def)

lemma planRequest_fields:
  assumes "fst (planRequest rt form g) = Inr plan"
  shows "truthy (formStartDate form)" "truthy (formEndDate form)"
    "formNumBranches form \<noteq> None" "formTotalCommits form \<noteq> None" "truthy (formRepoPath form)"
    "logCoAuthors (formCoAuthors form) = Inr ()"
  using assms
  by (auto simp: planRequest_def split: sum.splits if_splits)

lemma processStream_missing_fields:
  assumes "logCoAuthors (formCoAuthors form) = Inr ()"
    and "\<not> truthy (formStartDate form) \<or> \<not> truthy (formEndDate form)
         \<or> formNumBranches form = None \<or> formTotalCommits form = None
         \<or> \<not> truthy (formRepoPath form)"
  shows "processStream rt env form g s = (Inl MissingRequiredFields, s)"
  using assms by (simp add: processStream_def planRequest_def)

lemma processStream_planned:
  assumes "fst (planRequest rt form g) = Inr plan"
    and "initGit env (fieldText (formRepoPath form)) (fst s) = (Inr actualRepoPath, w)"
  shows "processStream rt env form g s
     = (Inr (summarize plan
              (fst (processDates
                      (processDateCall env (orElse (formRemote form) ''origin'') (prOptionsOf form)
                         actualRepoPath)
                      (datesToProcess plan) (commitsPerBranch plan) 0 []
                      (w, snd s @ [InitGit (fieldText (formRepoPath form))])))),
        snd (processDates
               (processDateCall env (orElse (formRemote form) ''origin'') (prOptionsOf form)
                  actualRepoPath)
               (datesToProcess plan) (commitsPerBranch plan) 0 []
               (w, snd s @ [InitGit (fieldText (formRepoPath form))])))"
proof -
  obtain g' where p: "planRequest rt form g = (Inr plan, g')"
    using assms(1) by (cases "planRequest rt form g") simp
  have c: "processDateCall env (orElse (formRemote form) ''origin'') (prOptionsOf form) actualRepoPath
           = (\<lambda>date n st.
                case processDate env date n (orElse (formRemote form) ''origin'')
                       (prOptionsOf form) (Some actualRepoPath) st of
                  (r, st') \<Rightarrow> (Inr r, st'))"
    by (intro ext) (simp add: processDateCall_def)
  show ?thesis
    unfolding processStream_def p c using assms(2)
    by (simp add: perform_def case_prod_beta split del: if_split)
qed

text \<open>
  Claim C8: the loop over the plan, whatever the processing of an assignment returns or
  throws, yields one record for each assignment, in the order of the plan: the record of
  assignment \<open>k\<close> is the result that its processing returned, or, when it threw, the
  failed record of the \<open>catch\<close>, which holds the date of the assignment and the message
  of the exception after \<open>Exception: \<close>; and the processing of assignment \<open>k + 1\<close>
  starts in the state in which the one of assignment \<open>k\<close> ended.  So a run whose request
  passes the checks of the handler, whose plan exists and whose repository opens ends
  with a summary: its records carry the dates of the plan in the plan's order, and the
  successes and the failures it counts add up to the number of assignments.
\<close>

theorem C8_results_in_plan_order:
  assumes "fst (planRequest rt form g) = Inr plan"
    and "initGit env (fieldText (formRepoPath form)) (fst s) = (Inr actualRepoPath, w)"
  shows "fst (processDates proc dates counts 0 [] s0)
           = map (\<lambda>(date, k, sk).
                    case fst (proc date (countAt counts k) sk) of
                      Inr r \<Rightarrow> r
                    | Inl msg \<Rightarrow>
                        \<lparr>success = False, message = ''Exception: '' @ msg,
                          results = \<lparr>resDate = formatDate date, resBranch = None,
                                     resBranchResult = None, resCommits = None, resPush = None,
                                     resPr = None\<rparr>\<rparr>)
               (zip dates (zip [0..<length dates] (startStates proc dates counts 0 s0)))
       \<and> length (fst (processDates proc dates counts 0 [] s0)) = length dates
       \<and> (\<exists>summary s'.
             processStream rt env form g s = (Inr summary, s')
           \<and> runResults summary
               = fst (processDates
                        (processDateCall env (orElse (formRemote form) ''origin'')
                           (prOptionsOf form) actualRepoPath)
                        (datesToProcess plan) (commitsPerBranch plan) 0 []
                        (w, snd s @ [InitGit (fieldText (formRepoPath form))]))
           \<and> map (\<lambda>r. resDate (results r)) (runResults summary)
               = map formatDate (datesToProcess plan)
           \<and> successCount summary = length (filter success (runResults summary))
           \<and> failureCount summary = length (filter (\<lambda>r. \<not> success r) (runResults summary))
           \<and> successCount summary + failureCount summary = length (datesToProcess plan))"
proof -
  let ?call = "processDateCall env (orElse (formRemote form) ''origin'') (prOptionsOf form)
                 actualRepoPath"
  let ?rs = "fst (processDates ?call (datesToProcess plan) (commitsPerBranch plan) 0 []
                    (w, snd s @ [InitGit (fieldText (formRepoPath form))]))"
  have loop: "fst (processDates proc dates counts 0 [] s0)
           = map (\<lambda>(date, k, sk).
                    case fst (proc date (countAt counts k) sk) of
                      Inr r \<Rightarrow> r
                    | Inl msg \<Rightarrow>
                        \<lparr>success = False, message = ''Exception: '' @ msg,
                          results = \<lparr>resDate = formatDate date, resBranch = None,
                                     resBranchResult = None, resCommits = None, resPush = None,
                                     resPr = None\<rparr>\<rparr>)
               (zip dates (zip [0..<length dates] (startStates proc dates counts 0 s0)))"
  proof -
    have rec: "recordOf = (\<lambda>date outcome.
                 case outcome of
                   Inr r \<Rightarrow> r
                 | Inl msg \<Rightarrow>
                     \<lparr>success = False, message = ''Exception: '' @ msg,
                       results = \<lparr>resDate = formatDate date, resBranch = None,
                                  resBranchResult = None, resCommits = None, resPush = None,
                                  resPr = None\<rparr>\<rparr>)"
      by (intro ext) (simp add: recordOf_def exceptionResult_def split: sum.splits)
    show ?thesis
      using processDates_records [of proc dates counts 0 "[]" s0] unfolding rec by simp
  qed
  have len: "length (fst (processDates proc dates counts 0 [] s0)) = length dates"
    by (simp add: processDates_length)
  have dates: "map (\<lambda>r. resDate (results r)) ?rs = map formatDate (datesToProcess plan)"
    by (rule processDates_dates) (rule processDateCall_date)
  have l: "length ?rs = length (datesToProcess plan)"
    by (simp add: processDates_length)
  have total: "length (filter success ?rs) + length (filter (\<lambda>r. \<not> success r) ?rs)
                 = length (datesToProcess plan)"
    using sum_length_filter_compl [of success ?rs] l by simp
  have run: "\<exists>summary s'.
             processStream rt env form g s = (Inr summary, s')
           \<and> runResults summary = ?rs
           \<and> map (\<lambda>r. resDate (results r)) (runResults summary)
               = map formatDate (datesToProcess plan)
           \<and> successCount summary = length (filter success (runResults summary))
           \<and> failureCount summary = length (filter (\<lambda>r. \<not> success r) (runResults summary))
           \<and> successCount summary + failureCount summary = length (datesToProcess plan)"
    unfolding processStream_planned [OF assms]
    using dates total by (simp add: summarize_counts)
  from loop len run show ?thesis by blast
qed

lemma processDateCall_fst:
  "fst (processDateCall env remote prOpts actualRepoPath date n st)
     = Inr (fst (processDate env date n remote prOpts (Some actualRepoPath) st))"
  by (simp add: processDateCall_def split: prod.splits)

lemma divergedRemote_simps:
  "gitBranchLocal divergedRemote = (\<lambda>w. (Inr [''main''], w))"
  "gitFetch divergedRemote = (\<lambda>remote w. (Inr (), w))"
  "gitBranchRemotes divergedRemote = (\<lambda>w. (Inr [''origin/main'', ''origin/auto-2024-01-02''], w))"
  "gitPush divergedRemote = (\<lambda>remote ref force w.
        (if force then Inr () else Inl ''! [rejected] (non-fast-forward)'', w))"
  "gitCheckout divergedRemote = (\<lambda>branchName w. (Inr (), w))"
  "gitCheckoutLocalBranch divergedRemote = (\<lambda>branchName w. (Inr (), w))"
  "gitRevparseHead divergedRemote = (\<lambda>w. (Inr ''auto-2024-01-02'', w))"
  "gitGetRemotes divergedRemote = (\<lambda>w. (Inr [''origin''], w))"
  "gitPull divergedRemote = (\<lambda>remote branchName w. (Inr (), w))"
  "fsExistsSync divergedRemote = (\<lambda>p w. (False, w))"
  "fsWriteFileSync divergedRemote = (\<lambda>p content w. (Inr (), w))"
  "gitAdd divergedRemote = (\<lambda>file w. (Inr (), w))"
  "gitCommit divergedRemote = (\<lambda>msg date w. (Inr (), w))"
  "gitLog divergedRemote = (\<lambda>args w. (Inr None, w))"
  "utcOffsetMs divergedRemote = 0"
  "initGit divergedRemote = (\<lambda>repoPath w. (Inr repoPath, w))"
  by (simp_all add: divergedRemote_def denyingRemote_def)

lemma processDate_success:
  "success (fst (processDate env date n remote prOpts repoPath s)) =
     (let s1 = snd (checkoutBase env remote s);
          b = createBranch env (''auto-'' @ formatDate date) remote False s1;
          c = createCommits env n (formatDate date) repoPath (snd b);
          p = pushBranch env (''auto-'' @ formatDate date) remote False (snd c)
      in success (fst b) \<and> success (fst c) \<and> success (fst p))"
  by (simp add: processDate_def Let_def split: prod.splits option.splits)

lemma diverged_createBranch:
  "success (fst (createBranch divergedRemote ''auto-2024-01-02'' ''origin'' False s))"
  by (cases s)
     (simp add: createBranch_def checkoutAndVerify_def branchExistsOnRemote_def deleteRemoteBranch_def perform_def
        divergedRemote_simps)

lemma diverged_createBranch_elsewhere:
  "branchName \<noteq> ''auto-2024-01-02''
     \<Longrightarrow> \<not> success (fst (createBranch divergedRemote branchName ''origin'' False s))"
  by (cases s)
     (simp add: createBranch_def checkoutAndVerify_def branchExistsOnRemote_def deleteRemoteBranch_def perform_def
        divergedRemote_simps createBranchFailed_def Let_def split: prod.splits)

lemma diverged_createCommits:
  "success (fst (createCommits divergedRemote (Suc 0) ''2024-01-02'' (Some ''/repo'') s))"
  by (cases s)
     (simp add: createCommits_def resolveRepoPath_def perform_def divergedRemote_simps
        date_2024_01_02 string_eval Let_def split: prod.splits)

lemma diverged_pushBranch:
  "success (fst (pushBranch divergedRemote ''auto-2024-01-02'' ''origin'' False s))"
proof -
  have nff: "isNonFastForward ''! [rejected] (non-fast-forward)''"
    by (simp add: isNonFastForward_def startsWith_def)
  have first: "pushBranch divergedRemote ''auto-2024-01-02'' ''origin'' False s =
      pushBranch divergedRemote ''auto-2024-01-02'' ''origin'' True
        ((), snd s @ [GetRemotes, Push ''origin'' ''auto-2024-01-02'' False])"
    using pushBranch_first_rejected [of divergedRemote s "[''origin'']" "()" "''origin''"
        "''auto-2024-01-02''" "''! [rejected] (non-fast-forward)''" "()"] nff
    by (simp add: divergedRemote_simps)
  show ?thesis
    unfolding first by (simp add: pushBranch_forced divergedRemote_simps)
qed

lemma diverged_processed:
  "success (fst (processDate divergedRemote \<lparr>dayNo = 19724, msOfDay = 0\<rparr> (Suc 0)
                   ''origin'' None (Some ''/repo'') s))"
  by (simp add: processDate_success Let_def date_2024_01_02 diverged_createBranch
      diverged_createCommits diverged_pushBranch)

lemma diverged_not_processed:
  assumes "formatDate d \<noteq> ''2024-01-02''"
  shows "\<not> success (fst (processDate divergedRemote d n ''origin'' None (Some ''/repo'') s))"
proof -
  have "''auto-'' @ formatDate d \<noteq> ''auto-2024-01-02''"
    using assms by simp
  then show ?thesis
    by (simp add: processDate_success Let_def diverged_createBranch_elsewhere)
qed

lemma dates_2024_01_03:
  "formatDate \<lparr>dayNo = 19725, msOfDay = 0\<rparr> = ''2024-01-03''"
  "formatDate \<lparr>dayNo = 19726, msOfDay = 0\<rparr> = ''2024-01-04''"
  by (simp_all add: formatDate_def calendar_eval string_eval)

lemma nodeAtUTC_parses:
  "parseInt nodeAtUTC ''3'' = Some 3"
  "newDate nodeAtUTC ''2024-01-02'' = Some \<lparr>dayNo = 19724, msOfDay = 0\<rparr>"
  "newDate nodeAtUTC ''2024-01-04'' = Some \<lparr>dayNo = 19726, msOfDay = 0\<rparr>"
  by (simp_all add: nodeAtUTC_def decimalNumeral_def isoDay_def Number_def digitValue_def
      calendar_eval string_eval)

lemma arraySort_nodeAtUTC: "arraySort nodeAtUTC = arraySort v8Engine"
  by (simp add: nodeAtUTC_def v8Engine_def)

lemma plan_demoForm:
  "fst (planRequest nodeAtUTC demoForm (drawsOf [], 0))
     = Inr \<lparr>validDatesCount = 3, actualNumBranches = 3, adjustedBranches = False,
            datesToProcess = [\<lparr>dayNo = 19726, msOfDay = 0\<rparr>, \<lparr>dayNo = 19725, msOfDay = 0\<rparr>,
                              \<lparr>dayNo = 19724, msOfDay = 0\<rparr>],
            commitsPerBranch = [Suc 0, Suc 0, Suc 0]\<rparr>"
  by (simp add: planRequest_def demoForm_def logCoAuthors_def truthy_def fieldText_def
      nodeAtUTC_parses planWork_def pool_jan2_jan4 dateLe_def
      sortRandom_def arraySort_nodeAtUTC v8Engine_def v8Sort_def timSortShort_def mathRandom_def
      upcoming_def drawsOf_def comparator_signs binarySearch_step binarySearch_done Let_def
      upt_3 eval_nat_numeral)

theorem C8_results_in_plan_order_witness:
  "fst (planRequest nodeAtUTC demoForm (drawsOf [], 0))
     = Inr \<lparr>validDatesCount = 3, actualNumBranches = 3, adjustedBranches = False,
            datesToProcess = [\<lparr>dayNo = 19726, msOfDay = 0\<rparr>, \<lparr>dayNo = 19725, msOfDay = 0\<rparr>,
                              \<lparr>dayNo = 19724, msOfDay = 0\<rparr>],
            commitsPerBranch = [Suc 0, Suc 0, Suc 0]\<rparr>
   \<and> initGit divergedRemote (fieldText (formRepoPath demoForm)) (fst ((), [])) = (Inr ''/repo'', ())
   \<and> (\<exists>summary s'.
         processStream nodeAtUTC divergedRemote demoForm (drawsOf [], 0) ((), []) = (Inr summary, s')
       \<and> map (\<lambda>r. resDate (results r)) (runResults summary)
           = [''2024-01-04'', ''2024-01-03'', ''2024-01-02'']
       \<and> map success (runResults summary) = [False, False, True]
       \<and> successCount summary = 1
       \<and> failureCount summary = 2)
   \<and> fst (processDates (\<lambda>date n st. (Inl ''socket hang up'', st))
            [\<lparr>dayNo = 19724, msOfDay = 0\<rparr>, \<lparr>dayNo = 19725, msOfDay = 0\<rparr>] [1, 1] 0 []
            ((), []))
       = [\<lparr>success = False, message = ''Exception: socket hang up'',
           results = \<lparr>resDate = ''2024-01-02'', resBranch = None, resBranchResult = None,
                      resCommits = None, resPush = None, resPr = None\<rparr>\<rparr>,
          \<lparr>success = False, message = ''Exception: socket hang up'',
           results = \<lparr>resDate = ''2024-01-03'', resBranch = None, resBranchResult = None,
                      resCommits = None, resPush = None, resPr = None\<rparr>\<rparr>]"
proof -
  let ?d2 = "\<lparr>dayNo = 19724, msOfDay = 0\<rparr>"
  let ?d3 = "\<lparr>dayNo = 19725, msOfDay = 0\<rparr>"
  let ?d4 = "\<lparr>dayNo = 19726, msOfDay = 0\<rparr>"
  let ?plan = "\<lparr>validDatesCount = 3, actualNumBranches = 3, adjustedBranches = False,
                datesToProcess = [?d4, ?d3, ?d2], commitsPerBranch = [Suc 0, Suc 0, Suc 0]\<rparr>"
  let ?call = "processDateCall divergedRemote (orElse (formRemote demoForm) ''origin'')
                 (prOptionsOf demoForm) ''/repo''"
  let ?throw = "\<lambda>(date::jsdate) (n::nat) (st::unit state).
                  (Inl ''socket hang up'' :: string + processResult, st)"
  have p: "fst (planRequest nodeAtUTC demoForm (drawsOf [], 0)) = Inr ?plan"
    by (rule plan_demoForm)
  have i: "initGit divergedRemote (fieldText (formRepoPath demoForm)) (fst ((), [])) = (Inr ''/repo'', ())"
    by (simp add: divergedRemote_simps demoForm_def fieldText_def)
  have call: "?call = processDateCall divergedRemote ''origin'' None ''/repo''"
    by (simp add: demoForm_def orElse_def truthy_def prOptionsOf_def)
  have u3: "[0..<3] = [0, Suc 0, Suc (Suc 0)]" and u2: "[0..<2] = [0, Suc 0]"
    by (simp_all add: upt_conv_Cons)
  note a = C8_results_in_plan_order [OF p i, of ?call "[?d4, ?d3, ?d2]" "[Suc 0, Suc 0, Suc 0]"
      "((), snd ((), []) @ [InitGit (fieldText (formRepoPath demoForm))])"]
  note b = C8_results_in_plan_order [OF p i, of ?throw "[?d2, ?d3]" "[1, 1]" "((), [])"]
  note a' = a [unfolded call]
  have rs: "map success (fst (processDates (processDateCall divergedRemote ''origin'' None ''/repo'')
                                [?d4, ?d3, ?d2] [Suc 0, Suc 0, Suc 0] 0 []
                                ((), snd ((), []) @ [InitGit (fieldText (formRepoPath demoForm))])))
              = [False, False, True]"
    unfolding a' [THEN conjunct1]
    by (simp add: u3 countAt_def processDateCall_fst diverged_processed diverged_not_processed
        dates_2024_01_03)
  from a [THEN conjunct2, THEN conjunct2]
  obtain summary s' where run:
    "processStream nodeAtUTC divergedRemote demoForm (drawsOf [], 0) ((), []) = (Inr summary, s')"
    and r: "runResults summary
       = fst (processDates ?call (datesToProcess ?plan) (commitsPerBranch ?plan) 0 []
                ((), snd ((), []) @ [InitGit (fieldText (formRepoPath demoForm))]))"
    and d: "map (\<lambda>r. resDate (results r)) (runResults summary)
              = map formatDate (datesToProcess ?plan)"
    and sc: "successCount summary = length (filter success (runResults summary))"
    and fc: "failureCount summary = length (filter (\<lambda>r. \<not> success r) (runResults summary))"
    by blast
  have ms: "map success (runResults summary) = [False, False, True]"
    using rs r [unfolded call] by simp
  have d': "map (\<lambda>r. resDate (results r)) (runResults summary)
              = [''2024-01-04'', ''2024-01-03'', ''2024-01-02'']"
    using d by (simp add: date_2024_01_02 dates_2024_01_03)
  have flt: "\<And>rs. map success rs = [False, False, True]
               \<Longrightarrow> length (filter success rs) = 1 \<and> length (filter (\<lambda>r. \<not> success r) rs) = 2"
    by (auto simp: map_eq_Cons_conv)
  have cnt: "successCount summary = 1" "failureCount summary = 2"
    using flt [OF ms] sc fc by simp_all
  have thrown: "fst (processDates ?throw [?d2, ?d3] [1, 1] 0 [] ((), []))
       = [\<lparr>success = False, message = ''Exception: socket hang up'',
           results = \<lparr>resDate = ''2024-01-02'', resBranch = None, resBranchResult = None,
                      resCommits = None, resPush = None, resPr = None\<rparr>\<rparr>,
          \<lparr>success = False, message = ''Exception: socket hang up'',
           results = \<lparr>resDate = ''2024-01-03'', resBranch = None, resBranchResult = None,
                      resCommits = None, resPush = None, resPr = None\<rparr>\<rparr>]"
    unfolding b [THEN conjunct1] by (simp add: u2 date_2024_01_02 dates_2024_01_03)
  have ex: "\<exists>summary s'.
         processStream nodeAtUTC divergedRemote demoForm (drawsOf [], 0) ((), []) = (Inr summary, s')
       \<and> map (\<lambda>r. resDate (results r)) (runResults summary)
           = [''2024-01-04'', ''2024-01-03'', ''2024-01-02'']
       \<and> map success (runResults summary) = [False, False, True]
       \<and> successCount summary = 1
       \<and> failureCount summary = 2"
    by (rule exI [of _ summary], rule exI [of _ s']) (simp only: run d' ms cnt simp_thms)
  show ?thesis
    apply (rule conjI, rule p)
    apply (rule conjI, rule i)
    apply (rule conjI, rule ex)
    apply (rule thrown)
    done
qed

end

